(* ===== verification/Stomp_Prelude.thy ===== *)
theory Stomp_Prelude
  imports Main
begin

text \<open>
  Shared ground of the development: bytes and byte strings, the error values of
  the crate, Rust's \<open>Result\<close> as a sum with the error on the left, and the list
  lemmas that several components use.

  A Rust \<open>u8\<close> is an Isabelle \<open>char\<close> (exactly the 256 byte values), so a byte
  string literal of the source is a string literal here. A Rust \<open>String\<close> is the
  list of its UTF-8 bytes; that these bytes are valid UTF-8 is stated where it
  matters, with \<open>Rust_Std.utf8_valid\<close>.
\<close>

named_theorems result_simps "evaluation of the result combinators"
named_theorems parser_simps "closed forms of the parsers of the frame grammar"
named_theorems frame_simps "the frames that the message variants produce"

section \<open>Bytes\<close>

type_synonym byte = char
type_synonym bytes = "byte list"
type_synonym rstring = bytes
type_synonym header = "bytes \<times> bytes"

abbreviation LF :: byte where "LF \<equiv> CHR 0x0A"
abbreviation CR :: byte where "CR \<equiv> CHR 0x0D"
abbreviation NUL :: byte where "NUL \<equiv> CHR 0x00"
abbreviation COLON :: byte where "COLON \<equiv> CHR 0x3A"
abbreviation BACKSLASH :: byte where "BACKSLASH \<equiv> CHR 0x5C"

definition is_eol :: "byte \<Rightarrow> bool" where
  "is_eol b \<longleftrightarrow> b = LF \<or> b = CR"

lemma is_eol_simps [simp]: "is_eol LF" "is_eol CR" "\<not> is_eol NUL" "\<not> is_eol COLON" "\<not> is_eol BACKSLASH"
  by (simp_all add: is_eol_def)

section \<open>Errors\<close>

text \<open>
  One constructor per place where the crate builds an \<open>anyhow::Error\<close>, with the
  values its message quotes. \<open>Io_Error\<close> stands for an error that the socket or
  another library reports and the crate passes on with \<open>?\<close>.
\<close>

datatype stomp_error =
    Missing_Header rstring
  | Header_Name_Not_Utf8
  | Header_Value_Not_Utf8 rstring
  | Invalid_Ack_Mode rstring
  | Frame_Not_Recognized bytes
  | Bad_Heartbeat
  | Parse_Int_Error
  | Frame_Exceeds_Maximum nat
  | Parse_Failed
  | Unexpected_Reply
  | Unsupported_Version rstring
  | Connection_Closed
  | Server_Quiet nat nat
  | Disconnect_Refused rstring
  | Disconnect_Not_Acknowledged
  | No_Tls_Hostname
  | Invalid_Dns_Name rstring
  | Io_Error string

type_synonym 'a result = "stomp_error + 'a"

section \<open>The Result operations the source uses\<close>

text \<open>The \<open>?\<close> operator: go on with the value, or return the error at once.\<close>

definition rbind :: "'a result \<Rightarrow> ('a \<Rightarrow> 'b result) \<Rightarrow> 'b result" where
  "rbind r f = (case r of Inl e \<Rightarrow> Inl e | Inr x \<Rightarrow> f x)"

definition ok_or :: "'a option \<Rightarrow> stomp_error \<Rightarrow> 'a result" where
  "ok_or x e = (case x of None \<Rightarrow> Inl e | Some v \<Rightarrow> Inr v)"

text \<open>Collecting an iterator of results into a result of a vector stops at the first error.\<close>

fun collect_results :: "'a result list \<Rightarrow> 'a list result" where
  "collect_results [] = Inr []"
| "collect_results (r # rs) = rbind r (\<lambda>x. rbind (collect_results rs) (\<lambda>xs. Inr (x # xs)))"

lemma rbind_simps [simp, result_simps]: "rbind (Inl e) f = Inl e" "rbind (Inr x) f = f x"
  by (simp_all add: rbind_def)

lemma rbind_eq_Inr: "rbind r f = Inr y \<longleftrightarrow> (\<exists>x. r = Inr x \<and> f x = Inr y)"
  by (cases r) auto

lemma rbind_eq_Inl: "rbind r f = Inl e \<longleftrightarrow> r = Inl e \<or> (\<exists>x. r = Inr x \<and> f x = Inl e)"
  by (cases r) auto

lemma ok_or_simps [simp, result_simps]: "ok_or None e = Inl e" "ok_or (Some v) e = Inr v"
  by (simp_all add: ok_or_def)

lemma ok_or_eq: "ok_or x e = Inr v \<longleftrightarrow> x = Some v" "ok_or x e = Inl e' \<longleftrightarrow> x = None \<and> e' = e"
  by (cases x; auto)+

lemma collect_results_map_Inr [simp]: "collect_results (map (\<lambda>x. Inr (f x)) xs) = Inr (map f xs)"
  by (induction xs) auto

lemma collect_results_Inr_length: "collect_results rs = Inr xs \<Longrightarrow> length xs = length rs"
  by (induction rs arbitrary: xs) (auto simp: rbind_eq_Inr)

lemma collect_results_map_cong:
  "(\<And>x. x \<in> set xs \<Longrightarrow> f x = Inr (g x)) \<Longrightarrow> collect_results (map f xs) = Inr (map g xs)"
  by (induction xs) auto

lemma collect_results_Inl: "collect_results rs = Inl e \<Longrightarrow> Inl e \<in> set rs"
  by (induction rs) (auto simp: rbind_eq_Inl)

section \<open>Lists\<close>

lemma takeWhile_append_stop [simp]:
  "(\<And>x. x \<in> set xs \<Longrightarrow> P x) \<Longrightarrow> \<not> P y \<Longrightarrow> takeWhile P (xs @ y # ys) = xs"
  by simp

lemma dropWhile_append_stop [simp]:
  "(\<And>x. x \<in> set xs \<Longrightarrow> P x) \<Longrightarrow> \<not> P y \<Longrightarrow> dropWhile P (xs @ y # ys) = y # ys"
  by simp

lemma dropWhile_all [simp]: "(\<And>x. x \<in> set xs \<Longrightarrow> P x) \<Longrightarrow> dropWhile P xs = []"
  by simp

lemma drop_takeWhile_length: "drop (length (takeWhile P xs)) xs = dropWhile P xs"
  by (metis dropWhile_eq_drop)

lemma list_split_first:
  "\<not> (\<forall>x \<in> set xs. P x) \<Longrightarrow> \<exists>ys y zs. xs = ys @ y # zs \<and> (\<forall>x \<in> set ys. P x) \<and> \<not> P y"
proof -
  assume "\<not> (\<forall>x \<in> set xs. P x)"
  then have "\<exists>x \<in> set xs. \<not> P x" by blast
  from split_list_first_propE [OF this] show ?thesis by metis
qed

lemma dropWhile_skip_all: "list_all P es \<Longrightarrow> dropWhile P (es @ i) = dropWhile P i"
  by (induction es) auto

end
