(* ===== verification/Rust_Std.thy ===== *)
theory Rust_Std
  imports Stomp_Prelude "HOL-Library.Word"
begin

text \<open>
  What the crate uses of Rust's standard library, written out: UTF-8 validation
  (\<open>String::from_utf8\<close>, \<open>str::from_utf8\<close>), \<open>str::parse::<u32>\<close>, the decimal
  \<open>Display\<close> of unsigned integers, \<open>str::splitn\<close> with limit 2, and \<open>Duration\<close>.
\<close>

type_synonym u32 = "32 word"

section \<open>UTF-8\<close>

definition byte_in :: "nat \<Rightarrow> nat \<Rightarrow> byte \<Rightarrow> bool" where
  "byte_in lo hi b \<longleftrightarrow> lo \<le> of_char b \<and> of_char b \<le> hi"

abbreviation cont_byte :: "byte \<Rightarrow> bool" where
  "cont_byte \<equiv> byte_in 0x80 0xBF"

text \<open>
  The well-formed byte sequences of the Unicode standard, which is what
  \<open>from_utf8\<close> accepts: no overlong forms, no surrogates, nothing above U+10FFFF.
\<close>

fun utf8_valid :: "bytes \<Rightarrow> bool" where
  "utf8_valid [] = True"
| "utf8_valid (a # r) =
    (if byte_in 0 0x7F a then utf8_valid r
     else if byte_in 0xC2 0xDF a then
       (case r of b # s \<Rightarrow> cont_byte b \<and> utf8_valid s | _ \<Rightarrow> False)
     else if byte_in 0xE0 0xEF a then
       (case r of b # c # s \<Rightarrow>
          (if of_char a = (0xE0::nat) then byte_in 0xA0 0xBF b
           else if of_char a = (0xED::nat) then byte_in 0x80 0x9F b
           else cont_byte b) \<and> cont_byte c \<and> utf8_valid s
        | _ \<Rightarrow> False)
     else if byte_in 0xF0 0xF4 a then
       (case r of b # c # d # s \<Rightarrow>
          (if of_char a = (0xF0::nat) then byte_in 0x90 0xBF b
           else if of_char a = (0xF4::nat) then byte_in 0x80 0x8F b
           else cont_byte b) \<and> cont_byte c \<and> cont_byte d \<and> utf8_valid s
        | _ \<Rightarrow> False)
     else False)"

declare utf8_valid.simps(2) [simp del]

lemma utf8_valid_Cons_ascii [simp]: "byte_in 0 0x7F a \<Longrightarrow> utf8_valid (a # r) = utf8_valid r"
  by (simp add: utf8_valid.simps(2))

definition from_utf8 :: "bytes \<Rightarrow> rstring option" where
  "from_utf8 bs = (if utf8_valid bs then Some bs else None)"

definition ascii :: "bytes \<Rightarrow> bool" where
  "ascii bs \<longleftrightarrow> (\<forall>b \<in> set bs. byte_in 0 0x7F b)"

lemma utf8_valid_ascii: "ascii bs \<Longrightarrow> utf8_valid bs"
  by (induction bs) (auto simp: ascii_def)

lemma from_utf8_valid [simp]: "utf8_valid bs \<Longrightarrow> from_utf8 bs = Some bs"
  by (simp add: from_utf8_def)

lemma from_utf8_eq_Some: "from_utf8 bs = Some s \<longleftrightarrow> s = bs \<and> utf8_valid bs"
  by (auto simp: from_utf8_def)

lemma from_utf8_eq_None: "from_utf8 bs = None \<longleftrightarrow> \<not> utf8_valid bs"
  by (simp add: from_utf8_def)

section \<open>Unsigned decimal numbers\<close>

definition digit_value :: "byte \<Rightarrow> nat option" where
  "digit_value b = (if byte_in 0x30 0x39 b then Some (of_char b - 0x30) else None)"

definition digit_byte :: "nat \<Rightarrow> byte" where
  "digit_byte d = char_of (d + 0x30)"

text \<open>
  The loop of \<open>u32::from_str_radix\<close>: checked multiplication and addition, so an
  overflow is an error like a character that is no digit.
\<close>

fun parse_digits :: "nat \<Rightarrow> bytes \<Rightarrow> nat option" where
  "parse_digits acc [] = Some acc"
| "parse_digits acc (b # bs) =
    (case digit_value b of
       None \<Rightarrow> None
     | Some d \<Rightarrow> (if 2 ^ 32 \<le> acc * 10 + d then None else parse_digits (acc * 10 + d) bs))"

text \<open>An optional \<open>+\<close>, then at least one digit.\<close>

definition parse_u32 :: "rstring \<Rightarrow> u32 option" where
  "parse_u32 s =
    (let ds = (case s of b # r \<Rightarrow> if b = CHR ''+'' then r else s | [] \<Rightarrow> [])
     in if ds = [] then None else map_option of_nat (parse_digits 0 ds))"

fun decimal :: "nat \<Rightarrow> bytes" where
  "decimal n = (if n < 10 then [digit_byte n] else decimal (n div 10) @ [digit_byte (n mod 10)])"

declare decimal.simps [simp del]

lemma of_char_digit_byte: "d < 10 \<Longrightarrow> of_char (digit_byte d) = d + 0x30"
  by (simp add: digit_byte_def)

lemma digit_value_digit_byte [simp]: "d < 10 \<Longrightarrow> digit_value (digit_byte d) = Some d"
  by (simp add: digit_value_def byte_in_def of_char_digit_byte)

lemma digit_byte_neq:
  assumes "d < 10" and "of_char c < (0x30::nat) \<or> 0x39 < (of_char c :: nat)"
  shows "digit_byte d \<noteq> c"
  using of_char_digit_byte [OF assms(1)] assms by auto

lemma decimal_nonempty [simp]: "decimal n \<noteq> []"
  by (subst decimal.simps) simp

lemma decimal_digits: "b \<in> set (decimal n) \<Longrightarrow> \<exists>d < 10. b = digit_byte d"
proof (induction n rule: decimal.induct)
  case (1 n)
  then show ?case
    by (subst (asm) decimal.simps [of n]) (auto split: if_splits intro: exI [of _ "n mod 10"])
qed

lemma decimal_not_in:
  assumes "of_char c < (0x30::nat) \<or> 0x39 < (of_char c :: nat)"
  shows "c \<notin> set (decimal n)"
  using decimal_digits digit_byte_neq [OF _ assms] by metis

lemma decimal_clean [simp]:
  "LF \<notin> set (decimal n)" "CR \<notin> set (decimal n)" "COLON \<notin> set (decimal n)"
  "BACKSLASH \<notin> set (decimal n)" "CHR '','' \<notin> set (decimal n)" "CHR ''+'' \<notin> set (decimal n)"
  by (rule decimal_not_in, simp)+

lemma ascii_decimal: "ascii (decimal n)"
  by (auto simp: ascii_def byte_in_def of_char_digit_byte dest!: decimal_digits)

lemma utf8_valid_decimal [simp]: "utf8_valid (decimal n)"
  by (simp add: ascii_decimal utf8_valid_ascii)

lemma parse_digits_append:
  "parse_digits acc (xs @ ys) = Option.bind (parse_digits acc xs) (\<lambda>a. parse_digits a ys)"
  by (induction xs arbitrary: acc) (auto split: option.splits)

lemma parse_digits_decimal: "n < 2 ^ 32 \<Longrightarrow> parse_digits 0 (decimal n) = Some n"
proof (induction n rule: decimal.induct)
  case (1 n)
  show ?case
  proof (cases "n < 10")
    case True
    with "1.prems" show ?thesis by (subst decimal.simps) simp
  next
    case False
    with "1" have "parse_digits 0 (decimal (n div 10)) = Some (n div 10)" by simp
    with False "1.prems" show ?thesis
      by (subst decimal.simps) (simp add: parse_digits_append)
  qed
qed

lemma parse_u32_decimal: "n < 2 ^ 32 \<Longrightarrow> parse_u32 (decimal n) = Some (of_nat n)"
proof -
  assume n: "n < 2 ^ 32"
  obtain b r where br: "decimal n = b # r" using decimal_nonempty by (cases "decimal n") auto
  then have "b \<noteq> CHR ''+''" using decimal_clean(6) [of n] by auto
  with br have "parse_u32 (decimal n) = map_option of_nat (parse_digits 0 (decimal n))"
    by (simp add: parse_u32_def Let_def)
  with n show ?thesis by (simp add: parse_digits_decimal)
qed

lemma unat_u32_of_nat [simp]: "n < 2 ^ 32 \<Longrightarrow> unat (of_nat n :: u32) = n"
  by (simp add: unat_of_nat)

lemma parse_digits_bound: "parse_digits acc bs = Some n \<Longrightarrow> acc < 2 ^ 32 \<Longrightarrow> n < 2 ^ 32"
  by (induction bs arbitrary: acc) (auto split: option.splits if_splits)

definition display_u32 :: "u32 \<Rightarrow> bytes" where
  "display_u32 n = decimal (unat n)"

lemma parse_u32_display_u32 [simp]: "parse_u32 (display_u32 n) = Some n"
proof -
  have "unat n < 2 ^ 32" using unsigned_less [of n] by simp
  then show ?thesis by (simp add: display_u32_def parse_u32_decimal)
qed

section \<open>splitn\<close>

text \<open>
  \<open>s.splitn(2, sep)\<close>: the text before the first separator, then, if there was
  one, everything after it.
\<close>

definition splitn2 :: "byte \<Rightarrow> rstring \<Rightarrow> rstring list" where
  "splitn2 sep s =
    (case dropWhile (\<lambda>b. b \<noteq> sep) s of
       [] \<Rightarrow> [s]
     | _ # r \<Rightarrow> [takeWhile (\<lambda>b. b \<noteq> sep) s, r])"

lemma splitn2_at [simp]: "sep \<notin> set a \<Longrightarrow> splitn2 sep (a @ sep # r) = [a, r]"
proof -
  assume "sep \<notin> set a"
  then have "\<And>b. b \<in> set a \<Longrightarrow> b \<noteq> sep" by auto
  then show ?thesis by (simp add: splitn2_def)
qed

lemma splitn2_none [simp]: "sep \<notin> set s \<Longrightarrow> splitn2 sep s = [s]"
proof -
  assume "sep \<notin> set s"
  then have "dropWhile (\<lambda>b. b \<noteq> sep) s = []" by auto
  then show ?thesis by (simp only: splitn2_def list.case)
qed

section \<open>Duration\<close>

text \<open>A \<open>Duration\<close> is a number of nanoseconds, ordered as such.\<close>

datatype duration = Nanos nat

primrec as_nanos :: "duration \<Rightarrow> nat" where
  "as_nanos (Nanos n) = n"

instantiation duration :: linorder
begin

definition less_eq_duration :: "duration \<Rightarrow> duration \<Rightarrow> bool" where
  "less_eq_duration a b \<longleftrightarrow> as_nanos a \<le> as_nanos b"

definition less_duration :: "duration \<Rightarrow> duration \<Rightarrow> bool" where
  "less_duration a b \<longleftrightarrow> as_nanos a < as_nanos b"

instance
proof
  fix x y z :: duration
  show "x < y \<longleftrightarrow> x \<le> y \<and> \<not> y \<le> x" by (auto simp: less_eq_duration_def less_duration_def)
  show "x \<le> x" by (simp add: less_eq_duration_def)
  show "x \<le> y \<Longrightarrow> y \<le> z \<Longrightarrow> x \<le> z" by (simp add: less_eq_duration_def)
  show "x \<le> y \<Longrightarrow> y \<le> x \<Longrightarrow> x = y" by (cases x; cases y) (simp add: less_eq_duration_def)
  show "x \<le> y \<or> y \<le> x" by (auto simp: less_eq_duration_def)
qed

end

definition from_millis :: "nat \<Rightarrow> duration" where
  "from_millis ms = Nanos (ms * 1000000)"

definition times_duration :: "duration \<Rightarrow> nat \<Rightarrow> duration" where
  "times_duration d k = Nanos (as_nanos d * k)"

definition div_duration :: "duration \<Rightarrow> nat \<Rightarrow> duration" where
  "div_duration d k = Nanos (as_nanos d div k)"

lemma as_nanos_simps [simp]:
  "as_nanos (from_millis ms) = ms * 1000000"
  "as_nanos (times_duration d k) = as_nanos d * k"
  "as_nanos (div_duration d k) = as_nanos d div k"
  by (simp_all add: from_millis_def times_duration_def div_duration_def)

lemma duration_le_iff: "(a::duration) \<le> b \<longleftrightarrow> as_nanos a \<le> as_nanos b"
  and duration_less_iff: "(a::duration) < b \<longleftrightarrow> as_nanos a < as_nanos b"
  by (simp_all add: less_eq_duration_def less_duration_def)

lemma from_millis_eq_iff [simp]: "from_millis a = from_millis b \<longleftrightarrow> a = b"
  by (simp add: from_millis_def)

lemma div_times_duration [simp]: "0 < k \<Longrightarrow> div_duration (times_duration d k) k = d"
  by (cases d) (simp add: times_duration_def div_duration_def)

end
