(* ===== verification/Stomp_Message.thy ===== *)
theory Stomp_Message
  imports Rust_Std
begin

text \<open>
  The public data model of \<open>src/lib.rs\<close>: the messages of the two directions, the
  acknowledgment modes, and \<open>Message<T>\<close>, which adds the headers that the content
  has no field for. \<open>FromServer::Message\<close> is \<open>Msg\<close>, the name \<open>frame.rs\<close> imports
  it under. The fields of a variant are in the order of the source.
\<close>

datatype ack_mode = Auto | Client | ClientIndividual

datatype from_server =
    Connected rstring "rstring option" "rstring option" "rstring option"
    \<comment> \<open>version, session, server, heartbeat\<close>
  | Msg rstring rstring rstring "rstring option" "(rstring \<times> rstring) list" "bytes option"
    \<comment> \<open>destination, message_id, subscription, ack, headers, body\<close>
  | Receipt rstring
    \<comment> \<open>receipt_id\<close>
  | Error "rstring option" "bytes option"
    \<comment> \<open>message, body\<close>

datatype to_server =
    Connect rstring rstring "rstring option" "rstring option" "(u32 \<times> u32) option"
    \<comment> \<open>accept_version, host, login, passcode, heartbeat\<close>
  | Send rstring "rstring option" "(rstring \<times> rstring) list option" "bytes option"
    \<comment> \<open>destination, transaction, headers, body\<close>
  | Subscribe rstring rstring "ack_mode option"
    \<comment> \<open>destination, id, ack\<close>
  | Unsubscribe rstring
    \<comment> \<open>id\<close>
  | Ack rstring "rstring option"
    \<comment> \<open>id, transaction\<close>
  | Nack rstring "rstring option"
    \<comment> \<open>id, transaction\<close>
  | Begin rstring
    \<comment> \<open>transaction\<close>
  | Commit rstring
    \<comment> \<open>transaction\<close>
  | Abort rstring
    \<comment> \<open>transaction\<close>
  | Disconnect "rstring option"
    \<comment> \<open>receipt\<close>

record 'c message =
  content :: 'c
  extra_headers :: "(bytes \<times> bytes) list"

text \<open>\<open>From<ToServer> for Message<ToServer>\<close>: no extra headers.\<close>

definition message_from :: "to_server \<Rightarrow> to_server message" where
  "message_from c = \<lparr>content = c, extra_headers = []\<rparr>"

lemma message_from_simps [simp]:
  "content (message_from c) = c" "extra_headers (message_from c) = []"
  by (simp_all add: message_from_def)

text \<open>
  What Rust's type \<open>String\<close> guarantees of a message: every text field is valid
  UTF-8. The headers of \<open>extra_headers\<close> are raw bytes and carry no such guarantee.
\<close>

definition opt_utf8 :: "rstring option \<Rightarrow> bool" where
  "opt_utf8 s \<longleftrightarrow> (case s of None \<Rightarrow> True | Some v \<Rightarrow> utf8_valid v)"

definition headers_utf8 :: "(rstring \<times> rstring) list \<Rightarrow> bool" where
  "headers_utf8 hs \<longleftrightarrow> (\<forall>(k, v) \<in> set hs. utf8_valid k \<and> utf8_valid v)"

fun to_server_utf8 :: "to_server \<Rightarrow> bool" where
  "to_server_utf8 (Connect v h l p hb) \<longleftrightarrow> utf8_valid v \<and> utf8_valid h \<and> opt_utf8 l \<and> opt_utf8 p"
| "to_server_utf8 (Send d t hs b) \<longleftrightarrow>
     utf8_valid d \<and> opt_utf8 t \<and> (case hs of None \<Rightarrow> True | Some l \<Rightarrow> headers_utf8 l)"
| "to_server_utf8 (Subscribe d i a) \<longleftrightarrow> utf8_valid d \<and> utf8_valid i"
| "to_server_utf8 (Unsubscribe i) \<longleftrightarrow> utf8_valid i"
| "to_server_utf8 (Ack i t) \<longleftrightarrow> utf8_valid i \<and> opt_utf8 t"
| "to_server_utf8 (Nack i t) \<longleftrightarrow> utf8_valid i \<and> opt_utf8 t"
| "to_server_utf8 (Begin t) \<longleftrightarrow> utf8_valid t"
| "to_server_utf8 (Commit t) \<longleftrightarrow> utf8_valid t"
| "to_server_utf8 (Abort t) \<longleftrightarrow> utf8_valid t"
| "to_server_utf8 (Disconnect r) \<longleftrightarrow> opt_utf8 r"

fun from_server_utf8 :: "from_server \<Rightarrow> bool" where
  "from_server_utf8 (Connected v s r h) \<longleftrightarrow> utf8_valid v \<and> opt_utf8 s \<and> opt_utf8 r \<and> opt_utf8 h"
| "from_server_utf8 (Msg d m s a hs b) \<longleftrightarrow>
     utf8_valid d \<and> utf8_valid m \<and> utf8_valid s \<and> opt_utf8 a \<and> headers_utf8 hs"
| "from_server_utf8 (Receipt r) \<longleftrightarrow> utf8_valid r"
| "from_server_utf8 (Error m b) \<longleftrightarrow> opt_utf8 m"

lemma opt_utf8_simps [simp]: "opt_utf8 None" "opt_utf8 (Some v) = utf8_valid v"
  by (simp_all add: opt_utf8_def)

lemma headers_utf8_simps [simp]:
  "headers_utf8 []"
  "headers_utf8 ((k, v) # hs) \<longleftrightarrow> utf8_valid k \<and> utf8_valid v \<and> headers_utf8 hs"
  "headers_utf8 (xs @ ys) \<longleftrightarrow> headers_utf8 xs \<and> headers_utf8 ys"
  by (auto simp: headers_utf8_def)

end
