(* ===== verification/Bytes_Mut.thy ===== *)
theory Bytes_Mut
  imports Stomp_Prelude
begin

text \<open>
  The interface of \<open>bytes::BytesMut\<close>, the buffer that the codec reads from and
  writes to. The crate \<open>bytes\<close> is not part of the repository: a record \<open>B\<close> of its
  operations is an argument of every definition that touches a buffer, and the
  locale \<open>bytes_mut_lib\<close> states what its documentation promises, in terms of the
  unread contents (the slice it dereferences to). Advancing past the end panics,
  which is \<open>None\<close>. Running out of memory is outside the model.
\<close>

record 'b bytes_mut =
  bm_bytes :: "'b \<Rightarrow> bytes"
  bm_chunk :: "'b \<Rightarrow> bytes"
  bm_remaining_mut :: "'b \<Rightarrow> nat"
  bm_reserve :: "'b \<Rightarrow> nat \<Rightarrow> 'b"
  bm_put_slice :: "'b \<Rightarrow> bytes \<Rightarrow> 'b"
  bm_put_u8 :: "'b \<Rightarrow> byte \<Rightarrow> 'b"
  bm_advance :: "'b \<Rightarrow> nat \<Rightarrow> 'b option"

locale bytes_mut_lib =
  fixes B :: "'b bytes_mut"
  assumes chunk [simp]: "bm_chunk B b = bm_bytes B b"
    and reserve [simp]: "bm_bytes B (bm_reserve B b n) = bm_bytes B b"
    and put_slice [simp]: "bm_bytes B (bm_put_slice B b s) = bm_bytes B b @ s"
    and put_u8 [simp]: "bm_bytes B (bm_put_u8 B b x) = bm_bytes B b @ [x]"
    and advance_ok: "n \<le> length (bm_bytes B b) \<Longrightarrow>
          \<exists>b'. bm_advance B b n = Some b' \<and> bm_bytes B b' = drop n (bm_bytes B b)"
    and advance_panic: "length (bm_bytes B b) < n \<Longrightarrow> bm_advance B b n = None"
begin

lemma advance_Some:
  "bm_advance B b n = Some b' \<Longrightarrow>
   n \<le> length (bm_bytes B b) \<and> bm_bytes B b' = drop n (bm_bytes B b)"
  using advance_ok [of n b] advance_panic [of b n] by (cases "n \<le> length (bm_bytes B b)") auto

lemma advanceE:
  assumes "n \<le> length (bm_bytes B b)"
  obtains b' where "bm_advance B b n = Some b'" "bm_bytes B b' = drop n (bm_bytes B b)"
  using advance_ok [OF assms] by blast

lemma fold_appends:
  "(\<And>x b. bm_bytes B (f x b) = bm_bytes B b @ g x) \<Longrightarrow>
   bm_bytes B (fold f xs b) = bm_bytes B b @ concat (map g xs)"
  by (induction xs arbitrary: b) auto

end

text \<open>
  An instance: a buffer that is a byte list with the capacity it has reserved. Its
  contents grow at the back and are consumed at the front.
\<close>

record vec_buf =
  vb_data :: bytes
  vb_capacity :: nat

definition vec_put :: "vec_buf \<Rightarrow> bytes \<Rightarrow> vec_buf" where
  "vec_put b s =
    \<lparr>vb_data = vb_data b @ s, vb_capacity = max (vb_capacity b) (length (vb_data b) + length s)\<rparr>"

definition vec_bytes_mut :: "vec_buf bytes_mut" where
  "vec_bytes_mut =
    \<lparr>bm_bytes = vb_data,
     bm_chunk = vb_data,
     bm_remaining_mut = (\<lambda>b. 2 ^ 64 - 1 - length (vb_data b)),
     bm_reserve = (\<lambda>b n. b\<lparr>vb_capacity := max (vb_capacity b) (length (vb_data b) + n)\<rparr>),
     bm_put_slice = vec_put,
     bm_put_u8 = (\<lambda>b x. vec_put b [x]),
     bm_advance =
       (\<lambda>b n. if n \<le> length (vb_data b)
              then Some (\<lparr>vb_data = drop n (vb_data b), vb_capacity = vb_capacity b - n\<rparr>)
              else None)\<rparr>"

definition vec_of :: "bytes \<Rightarrow> vec_buf" where
  "vec_of bs = \<lparr>vb_data = bs, vb_capacity = length bs\<rparr>"

lemma vec_bytes [simp]: "bm_bytes vec_bytes_mut b = vb_data b" "vb_data (vec_of bs) = bs"
  by (simp_all add: vec_bytes_mut_def vec_of_def)

interpretation vec: bytes_mut_lib vec_bytes_mut
  by unfold_locales (auto simp: vec_bytes_mut_def vec_put_def)

end
