(* ===== verification/Frame.thy ===== *)
theory Frame
  imports Stomp_Message Bytes_Mut
begin

text \<open>
  The sending half of \<open>src/frame.rs\<close> (and \<open>Message::to_frame\<close> of \<open>src/lib.rs\<close>): the
  low-level frame, its construction, the merge of extra headers, the frame of
  each \<open>ToServer\<close> variant, escaping, and serialization into a buffer. The
  function \<open>wire\<close> says as one byte string what serialization appends.
\<close>

section \<open>Frames\<close>

type_synonym header_tuple = "bytes \<times> bytes option"

record frame =
  fr_command :: bytes
  fr_headers :: "header list"
  fr_body :: "bytes option"

text \<open>\<open>Frame::new\<close>: headers without a value are dropped.\<close>

definition frame_new :: "bytes \<Rightarrow> header_tuple list \<Rightarrow> bytes option \<Rightarrow> frame" where
  "frame_new command headers body =
    \<lparr>fr_command = command,
     fr_headers = List.map_filter (\<lambda>(k, v). map_option (\<lambda>i. (k, i)) v) headers,
     fr_body = body\<rparr>"

text \<open>
  \<open>Frame::add_extra_headers\<close>: the headers the frame has before the call win. The
  set of existing names is taken once, so two extra headers of one new name are
  both added.
\<close>

definition add_extra_headers :: "frame \<Rightarrow> header list \<Rightarrow> frame" where
  "add_extra_headers f headers =
    (if headers \<noteq> [] then
       (let existing_headers = map (\<lambda>(k, _). k) (fr_headers f)
        in f\<lparr>fr_headers :=
              fr_headers f @ filter (\<lambda>(k, _). k \<notin> set existing_headers) headers\<rparr>)
     else f)"

lemma frame_new_simps [simp, frame_simps]:
  "fr_command (frame_new c hs b) = c"
  "fr_headers (frame_new c hs b) = List.map_filter (\<lambda>(k, v). map_option (\<lambda>i. (k, i)) v) hs"
  "fr_body (frame_new c hs b) = b"
  by (simp_all add: frame_new_def)

lemma add_extra_headers_simps [simp]:
  "fr_command (add_extra_headers f hs) = fr_command f"
  "fr_body (add_extra_headers f hs) = fr_body f"
  "fr_headers (add_extra_headers f hs) =
     fr_headers f @ filter (\<lambda>(k, _). k \<notin> fst ` set (fr_headers f)) hs"
  by (auto simp: add_extra_headers_def Let_def case_prod_beta)

lemma map_of_filter_fst: "map_of (filter (\<lambda>(k, _). P k) hs) k = (if P k then map_of hs k else None)"
  by (induction hs) auto

section \<open>The frame of each message\<close>

definition opt_str_to_bytes :: "rstring option \<Rightarrow> bytes option" where
  "opt_str_to_bytes s = map_option (\<lambda>v. v) s"

fun ack_mode_bytes :: "ack_mode \<Rightarrow> bytes" where
  "ack_mode_bytes Auto = ''auto''"
| "ack_mode_bytes Client = ''client''"
| "ack_mode_bytes ClientIndividual = ''client-individual''"

text \<open>\<open>format!("{v1},{v2}")\<close> of the two intervals.\<close>

definition heartbeat_value :: "u32 \<times> u32 \<Rightarrow> bytes" where
  "heartbeat_value hb = (case hb of (v1, v2) \<Rightarrow> display_u32 v1 @ '','' @ display_u32 v2)"

text \<open>
  The headers of a SEND: the caller's follow the fixed ones, and a body with a NULL
  octet gets a \<open>content-length\<close> unless the caller set one.
\<close>

definition send_headers ::
    "rstring \<Rightarrow> rstring option \<Rightarrow> (rstring \<times> rstring) list option \<Rightarrow> bytes option \<Rightarrow> header_tuple list"
  where
  "send_headers destination transaction headers body =
    (let base = [(''destination'', Some destination),
                 (''transaction'', opt_str_to_bytes transaction)];
         hdr = (case headers of
                  None \<Rightarrow> base
                | Some hs \<Rightarrow> base @ map (\<lambda>(key, val). (key, Some val)) hs)
     in case body of
          None \<Rightarrow> hdr
        | Some b \<Rightarrow>
            if NUL \<in> set b \<and> \<not> list_ex (\<lambda>(k, _). k = ''content-length'') hdr
            then hdr @ [(''content-length'', Some (decimal (length b)))]
            else hdr)"

fun to_server_to_frame :: "to_server \<Rightarrow> frame" where
  "to_server_to_frame (Connect accept_version host login passcode heartbeat) =
     frame_new ''CONNECT''
       [(''accept-version'', Some accept_version),
        (''host'', Some host),
        (''login'', opt_str_to_bytes login),
        (''heart-beat'', map_option heartbeat_value heartbeat),
        (''passcode'', opt_str_to_bytes passcode)]
       None"
| "to_server_to_frame (Disconnect receipt) =
     frame_new ''DISCONNECT'' [(''receipt'', opt_str_to_bytes receipt)] None"
| "to_server_to_frame (Subscribe destination i ack) =
     frame_new ''SUBSCRIBE''
       [(''destination'', Some destination),
        (''id'', Some i),
        (''ack'', map_option ack_mode_bytes ack)]
       None"
| "to_server_to_frame (Unsubscribe i) = frame_new ''UNSUBSCRIBE'' [(''id'', Some i)] None"
| "to_server_to_frame (Send destination transaction headers body) =
     frame_new ''SEND'' (send_headers destination transaction headers body) body"
| "to_server_to_frame (Ack i transaction) =
     frame_new ''ACK''
       [(''id'', Some i), (''transaction'', opt_str_to_bytes transaction)] None"
| "to_server_to_frame (Nack i transaction) =
     frame_new ''NACK''
       [(''id'', Some i), (''transaction'', opt_str_to_bytes transaction)] None"
| "to_server_to_frame (Begin transaction) =
     frame_new ''BEGIN'' [(''transaction'', Some transaction)] None"
| "to_server_to_frame (Commit transaction) =
     frame_new ''COMMIT'' [(''transaction'', Some transaction)] None"
| "to_server_to_frame (Abort transaction) =
     frame_new ''ABORT'' [(''transaction'', Some transaction)] None"

definition message_to_frame :: "to_server message \<Rightarrow> frame" where
  "message_to_frame m = add_extra_headers (to_server_to_frame (content m)) (extra_headers m)"

lemma opt_str_to_bytes_simps [simp]: "opt_str_to_bytes s = s"
  by (simp add: opt_str_to_bytes_def option.map_ident)

section \<open>Escaping\<close>

definition headers_are_escaped :: "bytes \<Rightarrow> bool" where
  "headers_are_escaped command \<longleftrightarrow>
    \<not> (command \<in> set [''CONNECT'', ''connect'', ''CONNECTED'', ''connected'', ''STOMP'', ''stomp''])"

definition write_escaped :: "'b bytes_mut \<Rightarrow> byte \<Rightarrow> 'b \<Rightarrow> bool \<Rightarrow> 'b" where
  "write_escaped B b buffer escape =
    (if b = CR \<and> escape then bm_put_slice B buffer [BACKSLASH, CHR ''r'']
     else if b = LF \<and> escape then bm_put_slice B buffer [BACKSLASH, CHR ''n'']
     else if b = COLON \<and> escape then bm_put_slice B buffer [BACKSLASH, CHR ''c'']
     else if b = BACKSLASH \<and> escape then bm_put_slice B buffer [BACKSLASH, BACKSLASH]
     else bm_put_u8 B buffer b)"

text \<open>\<open>unescape_header_value\<close>: an undefined escape sequence is kept as it is.\<close>

fun unescape_header_value :: "bytes \<Rightarrow> bytes" where
  "unescape_header_value [] = []"
| "unescape_header_value [b] = [b]"
| "unescape_header_value (b # c # rest) =
    (if b = BACKSLASH then
       (if c = CHR ''r'' then CR # unescape_header_value rest
        else if c = CHR ''n'' then LF # unescape_header_value rest
        else if c = CHR ''c'' then COLON # unescape_header_value rest
        else if c = BACKSLASH then BACKSLASH # unescape_header_value rest
        else b # c # unescape_header_value rest)
     else b # unescape_header_value (c # rest))"

text \<open>What one byte, and what a header text, becomes on the wire.\<close>

definition escape_byte :: "bool \<Rightarrow> byte \<Rightarrow> bytes" where
  "escape_byte escape b =
    (if escape \<and> b = CR then [BACKSLASH, CHR ''r'']
     else if escape \<and> b = LF then [BACKSLASH, CHR ''n'']
     else if escape \<and> b = COLON then [BACKSLASH, CHR ''c'']
     else if escape \<and> b = BACKSLASH then [BACKSLASH, BACKSLASH]
     else [b])"

definition escape_text :: "bool \<Rightarrow> bytes \<Rightarrow> bytes" where
  "escape_text escape s = concat (map (escape_byte escape) s)"

lemma escape_text_simps [simp]:
  "escape_text e [] = []"
  "escape_text e (b # s) = escape_byte e b @ escape_text e s"
  "escape_text e (s @ t) = escape_text e s @ escape_text e t"
  by (simp_all add: escape_text_def)

lemma escape_text_False [simp]: "escape_text False s = s"
  by (induction s) (simp_all add: escape_byte_def)

lemma escape_byte_nonempty [simp]: "escape_byte e b \<noteq> []"
  by (simp add: escape_byte_def)

lemma escape_text_eq_Nil [simp]: "escape_text e s = [] \<longleftrightarrow> s = []"
  by (cases s) simp_all

lemma escape_text_id:
  "(\<And>b. b \<in> set s \<Longrightarrow> b \<notin> {CR, LF, COLON, BACKSLASH}) \<Longrightarrow> escape_text e s = s"
  by (induction s) (auto simp: escape_byte_def)

lemma escape_byte_clean: "b \<in> set (escape_byte True c) \<Longrightarrow> \<not> is_eol b \<and> b \<noteq> COLON"
  by (auto simp: escape_byte_def is_eol_def split: if_splits)

lemma escape_text_clean: "b \<in> set (escape_text True s) \<Longrightarrow> \<not> is_eol b \<and> b \<noteq> COLON"
  by (induction s) (auto dest: escape_byte_clean)

lemma unescape_escape_byte:
  "unescape_header_value (escape_byte True b @ s) = b # unescape_header_value s"
  by (cases s) (auto simp: escape_byte_def)

lemma unescape_escape_text: "unescape_header_value (escape_text True s) = s"
  by (induction s) (simp_all add: unescape_escape_byte)

lemma unescape_id: "BACKSLASH \<notin> set s \<Longrightarrow> unescape_header_value s = s"
  by (induction s rule: unescape_header_value.induct) auto

lemma unescape_length: "length (unescape_header_value s) \<le> length s"
  by (induction s rule: unescape_header_value.induct) auto

section \<open>Serialization\<close>

definition write_text :: "'b bytes_mut \<Rightarrow> bool \<Rightarrow> bytes \<Rightarrow> 'b \<Rightarrow> 'b" where
  "write_text B escape text buffer = fold (\<lambda>b buf. write_escaped B b buf escape) text buffer"

definition write_header :: "'b bytes_mut \<Rightarrow> bool \<Rightarrow> header \<Rightarrow> 'b \<Rightarrow> 'b" where
  "write_header B escape h buffer =
    (case h of (key, val) \<Rightarrow>
       bm_put_u8 B
         (write_text B escape val (bm_put_u8 B (write_text B escape key buffer) COLON))
         LF)"

definition required_capacity :: "frame \<Rightarrow> nat" where
  "required_capacity f =
    length (fr_command f)
    + (case fr_body f of None \<Rightarrow> 0 | Some b \<Rightarrow> length b + 20)
    + foldl (\<lambda>acc (k, v). acc + length k + length v) 0 (fr_headers f)
    + 30"

definition serialize :: "'b bytes_mut \<Rightarrow> frame \<Rightarrow> 'b \<Rightarrow> 'b" where
  "serialize B f buffer =
    (let escape = headers_are_escaped (fr_command f);
         requires = required_capacity f;
         b0 = (if bm_remaining_mut B buffer < requires then bm_reserve B buffer requires else buffer);
         b1 = bm_put_u8 B (bm_put_slice B b0 (fr_command f)) LF;
         b2 = fold (write_header B escape) (fr_headers f) b1;
         b3 = bm_put_u8 B b2 LF;
         b4 = (case fr_body f of None \<Rightarrow> b3 | Some body \<Rightarrow> bm_put_slice B b3 body)
     in bm_put_u8 B b4 NUL)"

definition wire_header :: "bool \<Rightarrow> header \<Rightarrow> bytes" where
  "wire_header escape h =
    (case h of (k, v) \<Rightarrow> escape_text escape k @ COLON # escape_text escape v @ [LF])"

definition wire :: "frame \<Rightarrow> bytes" where
  "wire f =
    fr_command f @ LF #
    concat (map (wire_header (headers_are_escaped (fr_command f))) (fr_headers f)) @ LF #
    (case fr_body f of None \<Rightarrow> [] | Some b \<Rightarrow> b) @ [NUL]"

context bytes_mut_lib
begin

lemma write_escaped_bytes:
  "bm_bytes B (write_escaped B b buf e) = bm_bytes B buf @ escape_byte e b"
  by (cases e; cases "b = CR"; cases "b = LF"; cases "b = COLON"; cases "b = BACKSLASH")
    (simp_all add: write_escaped_def escape_byte_def)

lemma write_text_bytes: "bm_bytes B (write_text B e s buf) = bm_bytes B buf @ escape_text e s"
  unfolding write_text_def escape_text_def by (rule fold_appends) (rule write_escaped_bytes)

lemma write_header_bytes: "bm_bytes B (write_header B e h buf) = bm_bytes B buf @ wire_header e h"
  by (cases h) (simp add: write_header_def wire_header_def write_text_bytes)

lemma serialize_bytes: "bm_bytes B (serialize B f buf) = bm_bytes B buf @ wire f"
proof -
  have "bm_bytes B (fold (write_header B e) hs b) = bm_bytes B b @ concat (map (wire_header e) hs)"
    for e hs b
    by (rule fold_appends) (rule write_header_bytes)
  then show ?thesis
    by (simp add: serialize_def wire_def Let_def split: option.splits)
qed

end

end
