(* ===== verification/Winnow.thy ===== *)
theory Winnow
  imports Stomp_Prelude "HOL-Library.Sublist"
begin

text \<open>
  The interface of the \<open>winnow\<close> parser library as the frame parser uses it. The
  library is not part of the repository, so its parsers and combinators are the
  fields of a record \<open>W\<close> that the definitions of \<open>Frame_Parse\<close> take as an
  argument, and the locale \<open>winnow_lib\<close> states their documented behaviour on a
  \<open>Partial\<close> byte slice. A combinator that is generic in the library has one field
  per type it is used at. The labels of \<open>trace\<close> and \<open>context\<close> only decorate
  diagnostics and are left out, as are the contents of \<open>Needed\<close> and of the error.

  \<open>winnow_ref\<close> is an executable instance; \<open>winnow_lib\<close> fixes each field on every
  input it is used at, so every lawful instance parses as this one does.
\<close>

section \<open>Parser results\<close>

text \<open>
  \<open>ModalResult\<close>: the value and the remaining input, or one of the three modes of
  \<open>ErrMode\<close>.
\<close>

datatype 'a pres = POk 'a bytes | PIncomplete | PBacktrack | PCut

type_synonym 'a parser = "bytes \<Rightarrow> 'a pres"

definition preturn :: "'a \<Rightarrow> 'a parser" where
  "preturn x i = POk x i"

text \<open>Run one parser, then, with \<open>?\<close>, the next on what it left.\<close>

definition pbind :: "'a parser \<Rightarrow> ('a \<Rightarrow> 'b parser) \<Rightarrow> 'b parser" where
  "pbind p f i =
    (case p i of
       POk x r \<Rightarrow> f x r
     | PIncomplete \<Rightarrow> PIncomplete
     | PBacktrack \<Rightarrow> PBacktrack
     | PCut \<Rightarrow> PCut)"

definition pmap :: "('a \<Rightarrow> 'b) \<Rightarrow> 'a parser \<Rightarrow> 'b parser" where
  "pmap f p i = map_pres f (p i)"

lemma pbind_eq_POk: "pbind p f i = POk y s \<longleftrightarrow> (\<exists>x r. p i = POk x r \<and> f x r = POk y s)"
  by (cases "p i") (auto simp: pbind_def)

lemma pbind_eq_PBacktrack:
  "pbind p f i = PBacktrack \<longleftrightarrow> p i = PBacktrack \<or> (\<exists>x r. p i = POk x r \<and> f x r = PBacktrack)"
  by (cases "p i") (auto simp: pbind_def)

lemma pbind_eq_PCut:
  "pbind p f i = PCut \<longleftrightarrow> p i = PCut \<or> (\<exists>x r. p i = POk x r \<and> f x r = PCut)"
  by (cases "p i") (auto simp: pbind_def)

lemma pbind_eq_PIncomplete:
  "pbind p f i = PIncomplete \<longleftrightarrow> p i = PIncomplete \<or> (\<exists>x r. p i = POk x r \<and> f x r = PIncomplete)"
  by (cases "p i") (auto simp: pbind_def)

lemma preturn_eq_POk [simp]: "preturn x i = POk y r \<longleftrightarrow> y = x \<and> r = i"
  by (auto simp: preturn_def)

lemma preturn_no_error [simp]:
  "preturn x i \<noteq> PIncomplete" "preturn x i \<noteq> PBacktrack" "preturn x i \<noteq> PCut"
  by (simp_all add: preturn_def)

lemma pmap_eq [simp]:
  "pmap f p i = POk y r \<longleftrightarrow> (\<exists>x. p i = POk x r \<and> y = f x)"
  "pmap f p i = PIncomplete \<longleftrightarrow> p i = PIncomplete"
  "pmap f p i = PBacktrack \<longleftrightarrow> p i = PBacktrack"
  "pmap f p i = PCut \<longleftrightarrow> p i = PCut"
  by (cases "p i"; auto simp: pmap_def)+

lemma pbind_POk [parser_simps]: "p i = POk x r \<Longrightarrow> pbind p f i = f x r"
  by (simp add: pbind_def)

lemma pmap_POk [parser_simps]: "p i = POk x r \<Longrightarrow> pmap f p i = POk (f x) r"
  by (simp add: pmap_def)

lemmas pbind_cases = pbind_eq_POk pbind_eq_PIncomplete pbind_eq_PBacktrack pbind_eq_PCut

section \<open>The library\<close>

record winnow =
  w_line_ending :: "bytes parser"
  w_alpha1 :: "bytes parser"
  w_till_line_ending :: "bytes parser"
  w_take_till :: "nat \<Rightarrow> byte list \<Rightarrow> bytes parser"
  w_take_until :: "nat \<Rightarrow> bytes \<Rightarrow> bytes parser"
  w_take :: "nat \<Rightarrow> bytes parser"
  w_literal :: "bytes \<Rightarrow> bytes parser"
  w_complete_err :: "bytes parser \<Rightarrow> bytes parser"
  w_opt :: "bytes parser \<Rightarrow> bytes option parser"
  w_repeat :: "nat \<Rightarrow> header parser \<Rightarrow> header list parser"
  w_delimited :: "bytes option parser \<Rightarrow> bytes parser \<Rightarrow> bytes parser \<Rightarrow> bytes parser"
  w_terminated_headers :: "header list parser \<Rightarrow> bytes parser \<Rightarrow> header list parser"
  w_terminated_value :: "bytes parser \<Rightarrow> bytes parser \<Rightarrow> bytes parser"
  w_separated_pair :: "bytes parser \<Rightarrow> bytes parser \<Rightarrow> bytes parser \<Rightarrow> header parser"
  w_seq_head :: "bytes parser \<Rightarrow> header list parser \<Rightarrow> (bytes \<times> header list) parser"
  w_seq_end :: "bytes parser \<Rightarrow> bytes option parser \<Rightarrow> (bytes \<times> bytes option) parser"
  w_map_body :: "(bytes \<Rightarrow> bytes option) \<Rightarrow> bytes parser \<Rightarrow> bytes option parser"
  w_map_value :: "(bytes \<Rightarrow> bytes) \<Rightarrow> bytes parser \<Rightarrow> bytes parser"
  w_offset_from :: "bytes \<Rightarrow> bytes \<Rightarrow> nat"

definition is_alpha :: "byte \<Rightarrow> bool" where
  "is_alpha b \<longleftrightarrow>
    (0x41 \<le> (of_char b :: nat) \<and> of_char b \<le> (0x5A :: nat)) \<or>
    (0x61 \<le> (of_char b :: nat) \<and> of_char b \<le> (0x7A :: nat))"

lemma is_alpha_simps [simp]:
  "\<not> is_alpha LF" "\<not> is_alpha CR" "\<not> is_alpha NUL" "\<not> is_alpha COLON" "\<not> is_alpha BACKSLASH"
  by (simp_all add: is_alpha_def)

lemma is_alpha_not_eol: "is_alpha b \<Longrightarrow> \<not> is_eol b"
  by (auto simp: is_eol_def)

section \<open>An executable instance\<close>

fun ref_line_ending :: "bytes parser" where
  "ref_line_ending [] = PIncomplete"
| "ref_line_ending [b] =
    (if b = LF then POk [LF] [] else if b = CR then PIncomplete else PBacktrack)"
| "ref_line_ending (b # c # r) =
    (if b = LF then POk [LF] (c # r)
     else if b = CR \<and> c = LF then POk [CR, LF] r
     else PBacktrack)"

definition ref_take_till :: "nat \<Rightarrow> byte list \<Rightarrow> bytes parser" where
  "ref_take_till n cs i =
    (case dropWhile (\<lambda>b. b \<notin> set cs) i of
       [] \<Rightarrow> PIncomplete
     | c # r \<Rightarrow>
         (let a = takeWhile (\<lambda>b. b \<notin> set cs) i
          in if n \<le> length a then POk a (c # r) else PBacktrack))"

definition ref_alpha1 :: "bytes parser" where
  "ref_alpha1 i =
    (case dropWhile is_alpha i of
       [] \<Rightarrow> PIncomplete
     | c # r \<Rightarrow>
         (let a = takeWhile is_alpha i in if a = [] then PBacktrack else POk a (c # r)))"

definition ref_till_line_ending :: "bytes parser" where
  "ref_till_line_ending i =
    (let a = takeWhile (\<lambda>b. \<not> is_eol b) i
     in case dropWhile (\<lambda>b. \<not> is_eol b) i of
          [] \<Rightarrow> PIncomplete
        | [b] \<Rightarrow> if b = LF then POk a [LF] else PIncomplete
        | b # c # r \<Rightarrow>
            if b = LF \<or> c = LF then POk a (b # c # r) else PBacktrack)"

fun ref_search :: "bytes \<Rightarrow> bytes parser" where
  "ref_search pat [] = (if pat = [] then POk [] [] else PIncomplete)"
| "ref_search pat (c # cs) =
    (if prefix pat (c # cs) then POk [] (c # cs) else map_pres (Cons c) (ref_search pat cs))"

definition ref_take_until :: "nat \<Rightarrow> bytes \<Rightarrow> bytes parser" where
  "ref_take_until n pat =
    pbind (ref_search pat) (\<lambda>a i. if n \<le> length a then POk a i else PBacktrack)"

definition ref_take :: "nat \<Rightarrow> bytes parser" where
  "ref_take n i = (if n \<le> length i then POk (take n i) (drop n i) else PIncomplete)"

definition ref_literal :: "bytes \<Rightarrow> bytes parser" where
  "ref_literal pat i =
    (if prefix pat i then POk pat (drop (length pat) i)
     else if prefix i pat then PIncomplete
     else PBacktrack)"

definition ref_complete_err :: "bytes parser \<Rightarrow> bytes parser" where
  "ref_complete_err p i = (if p i = PIncomplete then PBacktrack else p i)"

definition ref_opt :: "bytes parser \<Rightarrow> bytes option parser" where
  "ref_opt p i = (if p i = PBacktrack then POk None i else pmap Some p i)"

function ref_many :: "header parser \<Rightarrow> header list parser" where
  "ref_many p i =
    (case p i of
       POk x r \<Rightarrow> if length r < length i then map_pres (Cons x) (ref_many p r) else PCut
     | PIncomplete \<Rightarrow> PIncomplete
     | PBacktrack \<Rightarrow> POk [] i
     | PCut \<Rightarrow> PCut)"
  by pat_completeness auto
termination
  by (relation "measure (\<lambda>(p, i). length i)") auto

declare ref_many.simps [simp del]

definition ref_repeat :: "nat \<Rightarrow> header parser \<Rightarrow> header list parser" where
  "ref_repeat n p =
    pbind (ref_many p) (\<lambda>xs i. if n \<le> length xs then POk xs i else PBacktrack)"

definition winnow_ref :: winnow where
  "winnow_ref =
    \<lparr>w_line_ending = ref_line_ending,
     w_alpha1 = ref_alpha1,
     w_till_line_ending = ref_till_line_ending,
     w_take_till = ref_take_till,
     w_take_until = ref_take_until,
     w_take = ref_take,
     w_literal = ref_literal,
     w_complete_err = ref_complete_err,
     w_opt = ref_opt,
     w_repeat = ref_repeat,
     w_delimited = (\<lambda>po p q. pbind po (\<lambda>_. pbind p (\<lambda>x. pbind q (\<lambda>_. preturn x)))),
     w_terminated_headers = (\<lambda>ps p. pbind ps (\<lambda>x. pbind p (\<lambda>_. preturn x))),
     w_terminated_value = (\<lambda>p q. pbind p (\<lambda>x. pbind q (\<lambda>_. preturn x))),
     w_separated_pair = (\<lambda>p s q. pbind p (\<lambda>x. pbind s (\<lambda>_. pbind q (\<lambda>y. preturn (x, y))))),
     w_seq_head = (\<lambda>p ps. pbind p (\<lambda>x. pbind ps (\<lambda>y. preturn (x, y)))),
     w_seq_end = (\<lambda>p po. pbind p (\<lambda>x. pbind po (\<lambda>y. preturn (x, y)))),
     w_map_body = pmap,
     w_map_value = pmap,
     w_offset_from = (\<lambda>r i. length i - length r)\<rparr>"

lemma ref_line_ending_lf [simp]: "ref_line_ending (LF # r) = POk [LF] r"
  by (cases r) simp_all

lemma ref_repeat_0 [simp]: "ref_repeat 0 p = ref_many p"
  by (rule ext) (simp add: ref_repeat_def pbind_def split: pres.splits)

lemma ref_many_simps:
  "p i = PBacktrack \<Longrightarrow> ref_many p i = POk [] i"
  "p i = PIncomplete \<Longrightarrow> ref_many p i = PIncomplete"
  "p i = PCut \<Longrightarrow> ref_many p i = PCut"
  "p i = POk x r \<Longrightarrow> length r < length i \<Longrightarrow> ref_many p i = map_pres (Cons x) (ref_many p r)"
  by (subst ref_many.simps; simp)+

section \<open>The documented behaviour\<close>

locale winnow_lib =
  fixes W :: winnow
  assumes line_ending_lf: "w_line_ending W (LF # r) = POk [LF] r"
    and line_ending_crlf: "w_line_ending W (CR # LF # r) = POk [CR, LF] r"
    and line_ending_empty: "w_line_ending W [] = PIncomplete"
    and line_ending_cr: "w_line_ending W [CR] = PIncomplete"
    and line_ending_cr_other: "b \<noteq> LF \<Longrightarrow> w_line_ending W (CR # b # r) = PBacktrack"
    and line_ending_other: "\<not> is_eol b \<Longrightarrow> w_line_ending W (b # r) = PBacktrack"
    and alpha1_incomplete: "(\<And>b. b \<in> set i \<Longrightarrow> is_alpha b) \<Longrightarrow> w_alpha1 W i = PIncomplete"
    and alpha1_ok: "a \<noteq> [] \<Longrightarrow> (\<And>b. b \<in> set a \<Longrightarrow> is_alpha b) \<Longrightarrow> \<not> is_alpha c \<Longrightarrow>
          w_alpha1 W (a @ c # r) = POk a (c # r)"
    and alpha1_none: "\<not> is_alpha c \<Longrightarrow> w_alpha1 W (c # r) = PBacktrack"
    and till_line_ending_incomplete:
          "(\<And>b. b \<in> set i \<Longrightarrow> \<not> is_eol b) \<Longrightarrow> w_till_line_ending W i = PIncomplete"
    and till_line_ending_lf:
          "(\<And>b. b \<in> set a \<Longrightarrow> \<not> is_eol b) \<Longrightarrow> w_till_line_ending W (a @ LF # r) = POk a (LF # r)"
    and till_line_ending_crlf:
          "(\<And>b. b \<in> set a \<Longrightarrow> \<not> is_eol b) \<Longrightarrow>
           w_till_line_ending W (a @ CR # LF # r) = POk a (CR # LF # r)"
    and till_line_ending_cr:
          "(\<And>b. b \<in> set a \<Longrightarrow> \<not> is_eol b) \<Longrightarrow> w_till_line_ending W (a @ [CR]) = PIncomplete"
    and till_line_ending_cr_other:
          "(\<And>b. b \<in> set a \<Longrightarrow> \<not> is_eol b) \<Longrightarrow> c \<noteq> LF \<Longrightarrow>
           w_till_line_ending W (a @ CR # c # r) = PBacktrack"
    and take_till_incomplete:
          "(\<And>b. b \<in> set i \<Longrightarrow> b \<notin> set cs) \<Longrightarrow> w_take_till W n cs i = PIncomplete"
    and take_till_ok:
          "(\<And>b. b \<in> set a \<Longrightarrow> b \<notin> set cs) \<Longrightarrow> c \<in> set cs \<Longrightarrow> n \<le> length a \<Longrightarrow>
           w_take_till W n cs (a @ c # r) = POk a (c # r)"
    and take_till_short:
          "(\<And>b. b \<in> set a \<Longrightarrow> b \<notin> set cs) \<Longrightarrow> c \<in> set cs \<Longrightarrow> length a < n \<Longrightarrow>
           w_take_till W n cs (a @ c # r) = PBacktrack"
    and take_until_incomplete: "c \<notin> set i \<Longrightarrow> w_take_until W 0 [c] i = PIncomplete"
    and take_until_ok: "c \<notin> set a \<Longrightarrow> w_take_until W 0 [c] (a @ c # r) = POk a (c # r)"
    and take_ok: "n \<le> length i \<Longrightarrow> w_take W n i = POk (take n i) (drop n i)"
    and take_incomplete: "length i < n \<Longrightarrow> w_take W n i = PIncomplete"
    and literal_ok: "w_literal W [c] (c # r) = POk [c] r"
    and literal_other: "b \<noteq> c \<Longrightarrow> w_literal W [c] (b # r) = PBacktrack"
    and literal_empty: "w_literal W [c] [] = PIncomplete"
    and complete_err: "w_complete_err W p i = (if p i = PIncomplete then PBacktrack else p i)"
    and opt_some: "p i = POk x r \<Longrightarrow> w_opt W p i = POk (Some x) r"
    and opt_none: "p i = PBacktrack \<Longrightarrow> w_opt W p i = POk None i"
    and opt_incomplete: "p i = PIncomplete \<Longrightarrow> w_opt W p i = PIncomplete"
    and opt_cut: "p i = PCut \<Longrightarrow> w_opt W p i = PCut"
    and repeat_stop: "hp i = PBacktrack \<Longrightarrow> w_repeat W 0 hp i = POk [] i"
    and repeat_incomplete: "hp i = PIncomplete \<Longrightarrow> w_repeat W 0 hp i = PIncomplete"
    and repeat_cut: "hp i = PCut \<Longrightarrow> w_repeat W 0 hp i = PCut"
    and repeat_step: "hp i = POk hx r \<Longrightarrow> length r < length i \<Longrightarrow>
          w_repeat W 0 hp i = map_pres (Cons hx) (w_repeat W 0 hp r)"
    and delimited: "w_delimited W po p q = pbind po (\<lambda>_. pbind p (\<lambda>x. pbind q (\<lambda>_. preturn x)))"
    and terminated_headers: "w_terminated_headers W ps p = pbind ps (\<lambda>x. pbind p (\<lambda>_. preturn x))"
    and terminated_value: "w_terminated_value W p q = pbind p (\<lambda>x. pbind q (\<lambda>_. preturn x))"
    and separated_pair:
          "w_separated_pair W p s q = pbind p (\<lambda>x. pbind s (\<lambda>_. pbind q (\<lambda>y. preturn (x, y))))"
    and seq_head: "w_seq_head W p ps = pbind p (\<lambda>x. pbind ps (\<lambda>y. preturn (x, y)))"
    and seq_end: "w_seq_end W p po = pbind p (\<lambda>x. pbind po (\<lambda>y. preturn (x, y)))"
    and map_body: "w_map_body W f p = pmap f p"
    and map_value: "w_map_value W g p = pmap g p"
    and offset_from: "suffix r i \<Longrightarrow> w_offset_from W r i = length i - length r"
begin

lemmas sequencing =
  delimited terminated_headers terminated_value separated_pair seq_head seq_end map_body map_value

text \<open>The laws fix every field: it is the executable instance on all inputs used.\<close>

lemma line_ending_ref: "w_line_ending W = ref_line_ending"
proof
  fix i
  consider "i = []" | r where "i = LF # r" | "i = [CR]" | c r where "i = CR # c # r"
    | b r where "i = b # r" "\<not> is_eol b"
    unfolding is_eol_def by (metis neq_Nil_conv)
  then show "w_line_ending W i = ref_line_ending i"
  proof cases
    case (2 r)
    then show ?thesis by (cases r) (simp_all add: line_ending_lf)
  next
    case (4 c r)
    then show ?thesis
      by (cases "c = LF") (simp_all add: line_ending_crlf line_ending_cr_other)
  next
    case (5 b r)
    then show ?thesis
      by (cases r) (auto simp: line_ending_other is_eol_def)
  qed (simp_all add: line_ending_empty line_ending_cr)
qed

lemma alpha1_ref: "w_alpha1 W = ref_alpha1"
proof
  fix i
  show "w_alpha1 W i = ref_alpha1 i"
  proof (cases "\<forall>b \<in> set i. is_alpha b")
    case True
    then show ?thesis by (simp add: alpha1_incomplete ref_alpha1_def)
  next
    case False
    from list_split_first [OF this] obtain a c r where
      i: "i = a @ c # r" "\<forall>b \<in> set a. is_alpha b" "\<not> is_alpha c" by blast
    show ?thesis
    proof (cases "a = []")
      case True
      with i show ?thesis by (simp add: alpha1_none ref_alpha1_def)
    next
      case False
      with i show ?thesis by (simp add: alpha1_ok ref_alpha1_def)
    qed
  qed
qed

lemma till_line_ending_ref: "w_till_line_ending W = ref_till_line_ending"
proof
  fix i
  show "w_till_line_ending W i = ref_till_line_ending i"
  proof (cases "\<forall>b \<in> set i. \<not> is_eol b")
    case True
    then show ?thesis by (simp add: till_line_ending_incomplete ref_till_line_ending_def)
  next
    case False
    from list_split_first [OF this] obtain a c r where
      i: "i = a @ c # r" "\<forall>b \<in> set a. \<not> is_eol b" and c: "is_eol c" by blast
    from c consider "c = LF" | "c = CR" "r = []" | d s where "c = CR" "r = d # s"
      unfolding is_eol_def by (cases r) auto
    then show ?thesis
    proof cases
      case 1
      with i show ?thesis
        by (cases r) (auto simp: till_line_ending_lf ref_till_line_ending_def)
    next
      case 2
      with i show ?thesis by (simp add: till_line_ending_cr ref_till_line_ending_def)
    next
      case 3
      with i show ?thesis
        by (cases "d = LF")
          (auto simp: till_line_ending_crlf till_line_ending_cr_other ref_till_line_ending_def)
    qed
  qed
qed

lemma take_till_ref: "w_take_till W n cs = ref_take_till n cs"
proof
  fix i
  show "w_take_till W n cs i = ref_take_till n cs i"
  proof (cases "\<forall>b \<in> set i. b \<notin> set cs")
    case True
    then show ?thesis by (simp add: take_till_incomplete ref_take_till_def)
  next
    case False
    from list_split_first [OF this] obtain a c r where
      "i = a @ c # r" "\<forall>b \<in> set a. b \<notin> set cs" "c \<in> set cs" by blast
    then show ?thesis
      by (cases "n \<le> length a") (auto simp: take_till_ok take_till_short ref_take_till_def)
  qed
qed

lemma take_until_ref: "w_take_until W 0 [c] = ref_take_until 0 [c]"
proof
  fix i
  have none: "c \<notin> set i \<Longrightarrow> ref_search [c] i = PIncomplete" for i
    by (induction i) auto
  have some: "c \<notin> set a \<Longrightarrow> ref_search [c] (a @ c # r) = POk a (c # r)" for a r
    by (induction a) auto
  show "w_take_until W 0 [c] i = ref_take_until 0 [c] i"
  proof (cases "c \<in> set i")
    case True
    then obtain a r where "i = a @ c # r" "c \<notin> set a" by (metis split_list_first)
    then show ?thesis by (simp add: take_until_ok some ref_take_until_def pbind_def)
  next
    case False
    then show ?thesis by (simp add: take_until_incomplete none ref_take_until_def pbind_def)
  qed
qed

lemma take_ref: "w_take W n = ref_take n"
  by (rule ext) (simp add: ref_take_def take_ok take_incomplete)

lemma literal_ref: "w_literal W [c] = ref_literal [c]"
proof
  fix i
  show "w_literal W [c] i = ref_literal [c] i"
    by (cases i) (auto simp: ref_literal_def literal_ok literal_other literal_empty)
qed

lemma complete_err_ref: "w_complete_err W = ref_complete_err"
  by (intro ext) (simp add: ref_complete_err_def complete_err)

lemma opt_ref: "w_opt W = ref_opt"
proof (intro ext)
  fix p i
  show "w_opt W p i = ref_opt p i"
    by (cases "p i")
      (auto simp: ref_opt_def pmap_def opt_some opt_none opt_incomplete opt_cut)
qed

text \<open>Repetition is fixed for a parser that consumes something whenever it succeeds.\<close>

lemma repeat_ref:
  assumes progress: "\<And>i x r. p i = POk x r \<Longrightarrow> length r < length i"
  shows "w_repeat W 0 p = ref_repeat 0 p"
proof
  fix i
  have "w_repeat W 0 p i = ref_many p i"
  proof (induction i rule: length_induct)
    case (1 i)
    show ?case
    proof (cases "p i")
      case (POk x r)
      with progress have r: "length r < length i" by blast
      with "1" have "w_repeat W 0 p r = ref_many p r" by blast
      with POk r show ?thesis
        by (subst ref_many.simps) (simp add: repeat_step)
    qed (subst ref_many.simps; simp add: repeat_stop repeat_incomplete repeat_cut)+
  qed
  then show "w_repeat W 0 p i = ref_repeat 0 p i" by simp
qed

lemmas library_ref =
  sequencing line_ending_ref alpha1_ref till_line_ending_ref take_till_ref take_until_ref
  take_ref literal_ref complete_err_ref opt_ref

end

text \<open>The executable instance has the documented behaviour.\<close>

lemma ref_search_single:
  "c \<notin> set i \<Longrightarrow> ref_search [c] i = PIncomplete"
  "c \<notin> set a \<Longrightarrow> ref_search [c] (a @ c # r) = POk a (c # r)"
  by (induction i) (auto, induction a, auto)

lemmas ref_defs =
  winnow_ref_def ref_take_till_def ref_alpha1_def ref_till_line_ending_def ref_take_until_def
  ref_take_def ref_literal_def ref_complete_err_def ref_opt_def

interpretation wref: winnow_lib winnow_ref
proof (unfold_locales, goal_cases)
  case (5 b r) then show ?case by (cases r) (simp_all add: ref_defs)
next
  case (6 b r) then show ?case by (cases r) (auto simp: ref_defs is_eol_def)
next
  case (11 a r) then show ?case by (cases r) (auto simp: ref_defs)
qed (auto simp: ref_defs ref_search_single ref_many_simps pbind_def pmap_def)

end
