(* ===== verification/Frame_Parse.thy ===== *)
theory Frame_Parse
  imports Frame Winnow
begin

text \<open>
  The receiving half of the frame grammar in \<open>src/frame.rs\<close>: \<open>parse_frame\<close> and
  \<open>parse_header\<close>, written over the \<open>winnow\<close> interface as the source writes them.
  \<open>frame_core\<close> is the same grammar in direct style; the lemmas show that the two
  agree for every lawful library, how much input a success consumes, that more
  input never changes an answer already given, and that parsing inverts
  serialization.
\<close>

section \<open>The parsers of the source\<close>

fun get_content_length :: "header list \<Rightarrow> u32 option" where
  "get_content_length [] = None"
| "get_content_length ((k, v) # hs) =
    (if k = ''content-length'' then Option.bind (from_utf8 v) parse_u32
     else get_content_length hs)"

definition is_empty_slice :: "bytes \<Rightarrow> bytes option" where
  "is_empty_slice s = (if s = [] then None else Some s)"

definition parse_header :: "winnow \<Rightarrow> header parser" where
  "parse_header W =
    w_separated_pair W
      (w_take_till W 1 [COLON, CR, LF])
      (w_literal W [COLON])
      (w_map_value W (\<lambda>v. v) (w_terminated_value W (w_till_line_ending W) (w_line_ending W)))"

definition parse_frame :: "winnow \<Rightarrow> frame parser" where
  "parse_frame W =
    pbind
      (w_seq_head W
        (w_delimited W
          (w_opt W (w_complete_err W (w_line_ending W)))
          (w_alpha1 W)
          (w_line_ending W))
        (w_terminated_headers W
          (w_repeat W 0 (parse_header W))
          (w_line_ending W)))
      (\<lambda>(command, headers).
        pbind
          (case get_content_length headers of
             None \<Rightarrow> w_map_body W is_empty_slice (w_take_until W 0 [NUL])
           | Some len \<Rightarrow> w_map_body W Some (w_take W (unat len)))
          (\<lambda>body.
            pbind
              (w_seq_end W
                (w_literal W [NUL])
                (w_opt W (w_complete_err W (w_line_ending W))))
              (\<lambda>_. preturn \<lparr>fr_command = command, fr_headers = headers, fr_body = body\<rparr>)))"

section \<open>The grammar in direct style\<close>

definition header_line :: "header parser" where
  "header_line =
    pbind (ref_take_till 1 [COLON, CR, LF]) (\<lambda>k.
    pbind (ref_literal [COLON]) (\<lambda>_.
    pbind ref_till_line_ending (\<lambda>v.
    pbind ref_line_ending (\<lambda>_. preturn (k, v)))))"

definition body_parser :: "header list \<Rightarrow> bytes option parser" where
  "body_parser hs =
    (case get_content_length hs of
       None \<Rightarrow> pmap is_empty_slice (ref_take_until 0 [NUL])
     | Some len \<Rightarrow> pmap Some (ref_take (unat len)))"

definition frame_core :: "frame parser" where
  "frame_core =
    pbind ref_alpha1 (\<lambda>command.
    pbind ref_line_ending (\<lambda>_.
    pbind (ref_many header_line) (\<lambda>headers.
    pbind ref_line_ending (\<lambda>_.
    pbind (body_parser headers) (\<lambda>body.
    pbind (ref_literal [NUL]) (\<lambda>_.
    preturn \<lparr>fr_command = command, fr_headers = headers, fr_body = body\<rparr>))))))"

fun skip_eol :: "bytes \<Rightarrow> bytes" where
  "skip_eol [] = []"
| "skip_eol [b] = (if b = LF then [] else [b])"
| "skip_eol (b # c # r) =
    (if b = LF then c # r else if b = CR \<and> c = LF then r else b # c # r)"

definition frame_parser :: "frame parser" where
  "frame_parser i = pbind frame_core (\<lambda>f r. POk f (skip_eol r)) (skip_eol i)"

lemma pbind_assoc: "pbind (pbind p f) g = pbind p (\<lambda>x. pbind (f x) g)"
  by (rule ext) (simp add: pbind_def split: pres.split)

lemma pbind_preturn [simp]: "pbind (preturn x) f = f x"
  by (rule ext) (simp add: pbind_def preturn_def)

lemma pmap_as_pbind: "pmap f p = pbind p (\<lambda>x. preturn (f x))"
  by (rule ext) (simp add: pbind_def pmap_def preturn_def split: pres.split)

lemma pmap_ident [simp]: "pmap (\<lambda>x. x) p = p"
  by (rule ext) (simp add: pmap_def pres.map_ident)

lemma skip_eol_lf [simp]: "skip_eol (LF # r) = r"
  by (cases r) simp_all

lemma skip_eol_other [simp]: "\<not> is_eol b \<Longrightarrow> skip_eol (b # r) = b # r"
  by (cases r) (auto simp: is_eol_def)

lemma skip_eol_suffix: "suffix (skip_eol i) i"
  by (cases i rule: skip_eol.cases) (auto simp: suffix_def)

lemma dropWhile_skip_eol [simp]: "dropWhile is_eol (skip_eol i) = dropWhile is_eol i"
  by (cases i rule: skip_eol.cases) auto

section \<open>Every lawful library parses alike\<close>

text \<open>What a parser consumes when it succeeds.\<close>

definition consumes :: "'a parser \<Rightarrow> bool" where
  "consumes p \<longleftrightarrow> (\<forall>i x r. p i = POk x r \<longrightarrow> suffix r i)"

definition progresses :: "'a parser \<Rightarrow> bool" where
  "progresses p \<longleftrightarrow> (\<forall>i x r. p i = POk x r \<longrightarrow> strict_suffix r i)"

named_theorems consume_intros "introduction rules for consumption"

lemma consumes_progresses: "progresses p \<Longrightarrow> consumes p"
  by (auto simp: consumes_def progresses_def strict_suffix_def)

lemma progresses_length: "progresses p \<Longrightarrow> p i = POk x r \<Longrightarrow> length r < length i"
  by (auto simp: progresses_def dest: suffix_length_less)

lemma consumes_preturn [consume_intros]: "consumes (preturn x)"
  by (simp add: consumes_def)

lemma consumes_pbind [consume_intros]:
  assumes "consumes p" and "\<And>x. consumes (f x)"
  shows "consumes (pbind p f)"
  unfolding consumes_def
proof (intro allI impI)
  fix i y s
  assume "pbind p f i = POk y s"
  then obtain x r where "p i = POk x r" "f x r = POk y s" by (auto simp: pbind_eq_POk)
  with assms have "suffix s r" "suffix r i" by (auto simp: consumes_def)
  then show "suffix s i" by (rule suffix_order.trans)
qed

lemma progresses_pbind [consume_intros]:
  assumes "progresses p" and "\<And>x. consumes (f x)"
  shows "progresses (pbind p f)"
  unfolding progresses_def
proof (intro allI impI)
  fix i y s
  assume "pbind p f i = POk y s"
  then obtain x r where "p i = POk x r" "f x r = POk y s" by (auto simp: pbind_eq_POk)
  with assms have "suffix s r" "strict_suffix r i" by (auto simp: consumes_def progresses_def)
  then show "strict_suffix s i" by (rule suffix_order.le_less_trans)
qed

lemma consumes_pmap [consume_intros]: "consumes p \<Longrightarrow> consumes (pmap f p)"
  by (auto simp: consumes_def)

text \<open>
  Reading on after an input has run out never contradicts what was answered: a
  success keeps its value and leaves the new bytes unread, a failure stays one.
\<close>

primrec extend :: "bytes \<Rightarrow> 'a pres \<Rightarrow> 'a pres" where
  "extend x (POk a r) = POk a (r @ x)"
| "extend x PIncomplete = PIncomplete"
| "extend x PBacktrack = PBacktrack"
| "extend x PCut = PCut"

definition stable :: "'a parser \<Rightarrow> bool" where
  "stable p \<longleftrightarrow> (\<forall>i x. p i \<noteq> PIncomplete \<longrightarrow> p (i @ x) = extend x (p i))"

named_theorems stable_intros "introduction rules for stability"

lemma stableD: "stable p \<Longrightarrow> p i \<noteq> PIncomplete \<Longrightarrow> p (i @ x) = extend x (p i)"
  by (simp add: stable_def)

lemma stable_preturn [stable_intros]: "stable (preturn x)"
  by (simp add: stable_def preturn_def)

lemma stable_pbind [stable_intros]:
  assumes p: "stable p" and f: "\<And>x. stable (f x)"
  shows "stable (pbind p f)"
  unfolding stable_def
proof (intro allI impI)
  fix i x
  assume ne: "pbind p f i \<noteq> PIncomplete"
  show "pbind p f (i @ x) = extend x (pbind p f i)"
  proof (cases "p i")
    case (POk a r)
    with ne have "f a r \<noteq> PIncomplete" by (simp add: pbind_def)
    with POk show ?thesis
      using stableD [OF p, of i x] stableD [OF f, of a r x] by (simp add: pbind_def)
  qed (use ne stableD [OF p, of i x] in \<open>simp_all add: pbind_def\<close>)
qed

lemma extend_map_pres: "extend x (map_pres f y) = map_pres f (extend x y)"
  by (cases y) simp_all

lemma map_pres_eq_PIncomplete [simp]: "map_pres f y = PIncomplete \<longleftrightarrow> y = PIncomplete"
  by (cases y) simp_all

lemma stable_pmap [stable_intros]: "stable p \<Longrightarrow> stable (pmap f p)"
  by (simp add: stable_def pmap_def extend_map_pres)

text \<open>The primitive parsers, by where the first byte of interest is.\<close>

lemma scan_cases [case_names all stop]:
  obtains "\<forall>b \<in> set i. P b"
  | a c r where "i = a @ c # r" "\<forall>b \<in> set a. P b" "\<not> P c"
  using list_split_first [of i P] by blast

lemma take_till_props:
  shows consumes_take_till [consume_intros]: "consumes (ref_take_till n cs)"
    and progresses_take_till [consume_intros]: "0 < n \<Longrightarrow> progresses (ref_take_till n cs)"
    and stable_take_till [stable_intros]: "stable (ref_take_till n cs)"
proof -
  have "(ref_take_till n cs i = POk y s \<longrightarrow> suffix s i) \<and>
        (0 < n \<longrightarrow> ref_take_till n cs i = POk y s \<longrightarrow> strict_suffix s i) \<and>
        (ref_take_till n cs i \<noteq> PIncomplete \<longrightarrow>
         ref_take_till n cs (i @ x) = extend x (ref_take_till n cs i))" for i y s x
  proof (cases rule: scan_cases [of i "\<lambda>b. b \<notin> set cs"])
    case all
    then show ?thesis by (simp add: ref_take_till_def)
  next
    case (stop a c r)
    then show ?thesis by (auto simp: ref_take_till_def suffix_def strict_suffix_def)
  qed
  then show "consumes (ref_take_till n cs)" "0 < n \<Longrightarrow> progresses (ref_take_till n cs)"
    "stable (ref_take_till n cs)"
    unfolding consumes_def progresses_def stable_def by blast+
qed

lemma alpha1_props:
  shows progresses_alpha1 [consume_intros]: "progresses ref_alpha1"
    and stable_alpha1 [stable_intros]: "stable ref_alpha1"
proof -
  have "(ref_alpha1 i = POk y s \<longrightarrow> strict_suffix s i) \<and>
        (ref_alpha1 i \<noteq> PIncomplete \<longrightarrow> ref_alpha1 (i @ x) = extend x (ref_alpha1 i))" for i y s x
  proof (cases rule: scan_cases [of i is_alpha])
    case all
    then show ?thesis by (simp add: ref_alpha1_def)
  next
    case (stop a c r)
    then show ?thesis by (auto simp: ref_alpha1_def suffix_def strict_suffix_def)
  qed
  then show "progresses ref_alpha1" "stable ref_alpha1"
    unfolding progresses_def stable_def by blast+
qed

lemma till_line_ending_props:
  shows consumes_till_line_ending [consume_intros]: "consumes ref_till_line_ending"
    and stable_till_line_ending [stable_intros]: "stable ref_till_line_ending"
proof -
  have "(ref_till_line_ending i = POk y s \<longrightarrow> suffix s i) \<and>
        (ref_till_line_ending i \<noteq> PIncomplete \<longrightarrow>
         ref_till_line_ending (i @ x) = extend x (ref_till_line_ending i))" for i y s x
  proof (cases rule: scan_cases [of i "\<lambda>b. \<not> is_eol b"])
    case all
    then show ?thesis by (simp add: ref_till_line_ending_def)
  next
    case (stop a c r)
    then show ?thesis
      by (cases r; cases x) (auto simp: ref_till_line_ending_def suffix_def is_eol_def)
  qed
  then show "consumes ref_till_line_ending" "stable ref_till_line_ending"
    unfolding consumes_def stable_def by blast+
qed

lemma line_ending_props:
  shows progresses_line_ending [consume_intros]: "progresses ref_line_ending"
    and stable_line_ending [stable_intros]: "stable ref_line_ending"
proof -
  have "(ref_line_ending i = POk y s \<longrightarrow> strict_suffix s i) \<and>
        (ref_line_ending i \<noteq> PIncomplete \<longrightarrow>
         ref_line_ending (i @ x) = extend x (ref_line_ending i))" for i y s x
    by (cases i rule: ref_line_ending.cases; cases x)
       (auto simp: suffix_def strict_suffix_def)
  then show "progresses ref_line_ending" "stable ref_line_ending"
    unfolding progresses_def stable_def by blast+
qed

lemma ref_literal_single [simp]:
  "ref_literal [c] [] = PIncomplete"
  "ref_literal [c] (b # r) = (if b = c then POk [c] r else PBacktrack)"
  by (auto simp: ref_literal_def)

lemma literal_props:
  shows progresses_literal [consume_intros]: "progresses (ref_literal [c])"
    and stable_literal [stable_intros]: "stable (ref_literal [c])"
proof -
  have "(ref_literal [c] i = POk y s \<longrightarrow> strict_suffix s i) \<and>
        (ref_literal [c] i \<noteq> PIncomplete \<longrightarrow>
         ref_literal [c] (i @ x) = extend x (ref_literal [c] i))" for i y s x
    by (cases i) (auto simp: suffix_def strict_suffix_def)
  then show "progresses (ref_literal [c])" "stable (ref_literal [c])"
    unfolding progresses_def stable_def by blast+
qed

lemma take_props:
  shows consumes_take [consume_intros]: "consumes (ref_take n)"
    and stable_take [stable_intros]: "stable (ref_take n)"
  by (auto simp: consumes_def stable_def ref_take_def suffix_drop)

lemma take_until_eq:
  "c \<notin> set i \<Longrightarrow> ref_take_until 0 [c] i = PIncomplete"
  "c \<notin> set a \<Longrightarrow> ref_take_until 0 [c] (a @ c # r) = POk a (c # r)"
  by (simp_all add: ref_take_until_def pbind_def ref_search_single)

lemma take_until_props:
  shows consumes_take_until [consume_intros]: "consumes (ref_take_until 0 [c])"
    and stable_take_until [stable_intros]: "stable (ref_take_until 0 [c])"
proof -
  have "(ref_take_until 0 [c] i = POk y s \<longrightarrow> suffix s i) \<and>
        (ref_take_until 0 [c] i \<noteq> PIncomplete \<longrightarrow>
         ref_take_until 0 [c] (i @ x) = extend x (ref_take_until 0 [c] i))" for i y s x
  proof (cases rule: scan_cases [of i "\<lambda>b. b \<noteq> c"])
    case all
    then have "c \<notin> set i" by blast
    then show ?thesis by (simp add: take_until_eq)
  next
    case (stop a b r)
    then have "c \<notin> set a" "i = a @ c # r" by auto
    then show ?thesis by (auto simp: take_until_eq suffix_def)
  qed
  then show "consumes (ref_take_until 0 [c])" "stable (ref_take_until 0 [c])"
    unfolding consumes_def stable_def by blast+
qed

text \<open>Repetition, by induction on the input it still has.\<close>

lemma many_props:
  assumes p: "progresses p" "stable p"
  shows consumes_many: "consumes (ref_many p)"
    and stable_many: "stable (ref_many p)"
proof -
  have "(\<forall>y s. ref_many p i = POk y s \<longrightarrow> suffix s i) \<and>
        (ref_many p i \<noteq> PIncomplete \<longrightarrow> ref_many p (i @ x) = extend x (ref_many p i))" for i x
  proof (induction i rule: length_induct)
    case (1 i)
    show ?case
    proof (cases "p i")
      case (POk a r)
      with p(1) have r: "strict_suffix r i" unfolding progresses_def by blast
      then have l: "length r < length i" by (rule suffix_length_less)
      have ext: "p (i @ x) = POk a (r @ x)" using POk stableD [OF p(2), of i x] by simp
      have "ref_many p i = map_pres (Cons a) (ref_many p r)"
        and "ref_many p (i @ x) = map_pres (Cons a) (ref_many p (r @ x))"
        using POk ext l by (auto intro: ref_many_simps)
      with "1" r l show ?thesis
        by (cases "ref_many p r")
          (auto simp: strict_suffix_def intro: suffix_order.trans)
    qed (use stableD [OF p(2), of i x] in \<open>auto simp: ref_many_simps\<close>)
  qed
  then show "consumes (ref_many p)" "stable (ref_many p)"
    unfolding consumes_def stable_def by blast+
qed

lemma header_line_props:
  shows progresses_header_line [consume_intros]: "progresses header_line"
    and stable_header_line [stable_intros]: "stable header_line"
  unfolding header_line_def
  by (intro consume_intros consumes_progresses) (simp, (intro stable_intros))

lemma many_header_line_props:
  shows consumes_headers [consume_intros]: "consumes (ref_many header_line)"
    and stable_headers [stable_intros]: "stable (ref_many header_line)"
  by (rule consumes_many stable_many, rule progresses_header_line, rule stable_header_line)+

lemma body_parser_props:
  shows consumes_body_parser [consume_intros]: "consumes (body_parser hs)"
    and stable_body_parser [stable_intros]: "stable (body_parser hs)"
  unfolding body_parser_def
  by (auto split: option.split intro: consume_intros stable_intros)

lemma progresses_frame_core: "progresses frame_core"
  unfolding frame_core_def by (intro consume_intros consumes_progresses)

lemma stable_frame_core: "stable frame_core"
  unfolding frame_core_def by (intro stable_intros)

lemma ref_opt_eol: "ref_opt (ref_complete_err ref_line_ending) i = POk x r \<Longrightarrow> r = skip_eol i"
  by (cases i rule: skip_eol.cases)
     (auto simp: ref_opt_def ref_complete_err_def pmap_def split: if_splits)

lemma ref_opt_eol_total: "\<exists>x. ref_opt (ref_complete_err ref_line_ending) i = POk x (skip_eol i)"
  by (cases i rule: skip_eol.cases)
     (auto simp: ref_opt_def ref_complete_err_def pmap_def)

lemma pbind_opt_eol:
  "pbind (ref_opt (ref_complete_err ref_line_ending)) (\<lambda>_. f) = (\<lambda>i. f (skip_eol i))"
proof
  fix i
  show "pbind (ref_opt (ref_complete_err ref_line_ending)) (\<lambda>_. f) i = f (skip_eol i)"
    using ref_opt_eol_total [of i] by (auto simp: pbind_def)
qed

context winnow_lib
begin

lemma parse_header_ref: "parse_header W = header_line"
  unfolding parse_header_def header_line_def library_ref
  by (simp add: pbind_assoc)

lemma parse_frame_ref: "parse_frame W = frame_parser"
proof
  fix i
  have many: "w_repeat W 0 (parse_header W) = ref_many header_line"
    using repeat_ref [of header_line] progresses_length [OF progresses_header_line]
    by (simp add: parse_header_ref)
  have "parse_frame W i =
    pbind (ref_opt (ref_complete_err ref_line_ending)) (\<lambda>_.
      pbind frame_core (\<lambda>f. pbind (ref_opt (ref_complete_err ref_line_ending)) (\<lambda>_. preturn f))) i"
    unfolding parse_frame_def many library_ref frame_core_def body_parser_def
    by (simp add: pbind_assoc)
  then show "parse_frame W i = frame_parser i"
    by (simp add: pbind_opt_eol frame_parser_def preturn_def)
qed

end

section \<open>Parsing what was serialized\<close>

text \<open>
  A frame that the grammar can carry. Escaping makes any header text safe except
  an empty name; in a frame whose headers are not escaped the texts themselves have
  to be free of the bytes that end them. The body has the announced length, or,
  with no announcement, is absent or a non-empty text without NULL.
\<close>

definition name_ok :: "bool \<Rightarrow> bytes \<Rightarrow> bool" where
  "name_ok e k \<longleftrightarrow> k \<noteq> [] \<and> (e \<or> (\<forall>b \<in> set k. \<not> is_eol b \<and> b \<noteq> COLON))"

definition value_ok :: "bool \<Rightarrow> bytes \<Rightarrow> bool" where
  "value_ok e v \<longleftrightarrow> e \<or> (\<forall>b \<in> set v. \<not> is_eol b)"

definition body_ok :: "header list \<Rightarrow> bytes option \<Rightarrow> bool" where
  "body_ok hs body \<longleftrightarrow>
    (case get_content_length hs of
       Some n \<Rightarrow> (case body of None \<Rightarrow> False | Some b \<Rightarrow> length b = unat n)
     | None \<Rightarrow> (case body of None \<Rightarrow> True | Some b \<Rightarrow> b \<noteq> [] \<and> NUL \<notin> set b))"

definition escape_header :: "bool \<Rightarrow> header \<Rightarrow> header" where
  "escape_header e h = (case h of (k, v) \<Rightarrow> (escape_text e k, escape_text e v))"

definition wire_headers :: "frame \<Rightarrow> header list" where
  "wire_headers f = map (escape_header (headers_are_escaped (fr_command f))) (fr_headers f)"

definition wire_frame :: "frame \<Rightarrow> frame" where
  "wire_frame f = f\<lparr>fr_headers := wire_headers f\<rparr>"

definition frame_ok :: "frame \<Rightarrow> bool" where
  "frame_ok f \<longleftrightarrow>
    fr_command f \<noteq> [] \<and> list_all is_alpha (fr_command f) \<and>
    list_all (\<lambda>(k, v). name_ok (headers_are_escaped (fr_command f)) k \<and>
                        value_ok (headers_are_escaped (fr_command f)) v) (fr_headers f) \<and>
    body_ok (wire_headers f) (fr_body f)"

lemma wire_frame_simps [simp]:
  "fr_command (wire_frame f) = fr_command f" "fr_headers (wire_frame f) = wire_headers f"
  "fr_body (wire_frame f) = fr_body f"
  by (simp_all add: wire_frame_def)

lemma escape_name_clean:
  "name_ok e k \<Longrightarrow> b \<in> set (escape_text e k) \<Longrightarrow> \<not> is_eol b \<and> b \<noteq> COLON"
  by (cases e) (auto simp: name_ok_def dest: escape_text_clean)

lemma escape_value_clean: "value_ok e v \<Longrightarrow> b \<in> set (escape_text e v) \<Longrightarrow> \<not> is_eol b"
  by (cases e) (auto simp: value_ok_def dest: escape_text_clean)

lemma scan_simps [parser_simps]:
  "(\<And>b. b \<in> set a \<Longrightarrow> b \<notin> set cs) \<Longrightarrow> c \<in> set cs \<Longrightarrow> n \<le> length a \<Longrightarrow>
   ref_take_till n cs (a @ c # r) = POk a (c # r)"
  "a \<noteq> [] \<Longrightarrow> (\<And>b. b \<in> set a \<Longrightarrow> is_alpha b) \<Longrightarrow> \<not> is_alpha c \<Longrightarrow>
   ref_alpha1 (a @ c # r) = POk a (c # r)"
  "(\<And>b. b \<in> set a \<Longrightarrow> \<not> is_eol b) \<Longrightarrow> ref_till_line_ending (a @ LF # r) = POk a (LF # r)"
  using wref.take_till_ok [of a cs c n r] wref.alpha1_ok [of a c r] wref.till_line_ending_lf [of a r]
  by (simp_all add: winnow_ref_def)

lemma header_line_blank [parser_simps]: "header_line (LF # r) = PBacktrack"
proof -
  have "ref_take_till 1 [COLON, CR, LF] ([] @ LF # r) = PBacktrack"
    using wref.take_till_short [of "[]" "[COLON, CR, LF]" LF 1 r] by (simp add: winnow_ref_def)
  then show ?thesis by (simp add: header_line_def pbind_def)
qed

lemma header_line_wire [parser_simps]:
  assumes "name_ok e k" "value_ok e v"
  shows "header_line (wire_header e (k, v) @ r) = POk (escape_header e (k, v)) r"
proof -
  have "1 \<le> length (escape_text e k)"
    using assms by (cases "escape_text e k") (auto simp: name_ok_def)
  then have "ref_take_till 1 [COLON, CR, LF] (escape_text e k @ COLON # escape_text e v @ LF # r) =
    POk (escape_text e k) (COLON # escape_text e v @ LF # r)"
    using escape_name_clean [OF assms(1)] by (intro scan_simps) (auto simp: is_eol_def)
  moreover have "ref_till_line_ending (escape_text e v @ LF # r) = POk (escape_text e v) (LF # r)"
    using escape_value_clean [OF assms(2)] by (intro scan_simps)
  ultimately show ?thesis
    by (simp add: header_line_def wire_header_def escape_header_def pbind_def preturn_def)
qed

lemma wire_header_nonempty: "length r < length (wire_header e h @ r)"
  by (cases h) (simp add: wire_header_def)

lemma many_header_line_wire [parser_simps]:
  "list_all (\<lambda>(k, v). name_ok e k \<and> value_ok e v) hs \<Longrightarrow>
   ref_many header_line (concat (map (wire_header e) hs) @ LF # r) =
     POk (map (escape_header e) hs) (LF # r)"
proof (induction hs)
  case Nil
  show ?case by (simp add: ref_many_simps header_line_blank)
next
  case (Cons h hs)
  obtain k v where h: "h = (k, v)" by (cases h)
  with Cons.prems have "header_line (wire_header e h @ concat (map (wire_header e) hs) @ LF # r) =
      POk (escape_header e h) (concat (map (wire_header e) hs) @ LF # r)"
    by (simp add: header_line_wire)
  then have "ref_many header_line (wire_header e h @ concat (map (wire_header e) hs) @ LF # r) =
      map_pres (Cons (escape_header e h))
        (ref_many header_line (concat (map (wire_header e) hs) @ LF # r))"
    by (rule ref_many_simps) (rule wire_header_nonempty)
  with Cons show ?case by simp
qed

lemma body_parser_wire [parser_simps]:
  assumes "body_ok hs body"
  shows "body_parser hs ((case body of None \<Rightarrow> [] | Some b \<Rightarrow> b) @ NUL # r) = POk body (NUL # r)"
proof (cases "get_content_length hs")
  case None
  have "NUL \<notin> set (case body of None \<Rightarrow> [] | Some b \<Rightarrow> b)"
    using assms None by (auto simp: body_ok_def split: option.splits)
  with None assms show ?thesis
    by (auto simp: body_parser_def pmap_def take_until_eq is_empty_slice_def body_ok_def
        split: option.splits)
next
  case (Some n)
  with assms show ?thesis
    by (auto simp: body_ok_def body_parser_def pmap_def ref_take_def split: option.splits)
qed

text \<open>The command and the headers of a serialized frame are read back whatever follows them.\<close>

lemma frame_core_head:
  assumes "c \<noteq> []" "list_all is_alpha c"
    and "list_all (\<lambda>(k, v). name_ok e k \<and> value_ok e v) hs"
  shows "frame_core (c @ LF # concat (map (wire_header e) hs) @ LF # r) =
    pbind (body_parser (map (escape_header e) hs)) (\<lambda>body.
    pbind (ref_literal [NUL]) (\<lambda>_.
    preturn \<lparr>fr_command = c, fr_headers = map (escape_header e) hs, fr_body = body\<rparr>)) r"
proof -
  let ?hs = "concat (map (wire_header e) hs)"
  have "ref_alpha1 (c @ LF # ?hs @ LF # r) = POk c (LF # ?hs @ LF # r)"
    using assms by (intro scan_simps) (auto simp: list_all_iff)
  moreover have "ref_many header_line (?hs @ LF # r) = POk (map (escape_header e) hs) (LF # r)"
    using assms by (intro many_header_line_wire)
  ultimately show ?thesis by (simp add: frame_core_def pbind_def)
qed

lemma frame_core_wire:
  assumes "frame_ok f"
  shows "frame_core (wire f @ r) = POk (wire_frame f) r"
proof -
  let ?e = "headers_are_escaped (fr_command f)"
  have "body_parser (map (escape_header ?e) (fr_headers f))
      ((case fr_body f of None \<Rightarrow> [] | Some b \<Rightarrow> b) @ NUL # r) = POk (fr_body f) (NUL # r)"
    using assms by (intro body_parser_wire) (simp add: frame_ok_def wire_headers_def)
  with frame_core_head [of "fr_command f" ?e "fr_headers f"] assms show ?thesis
    by (simp add: frame_ok_def wire_def wire_frame_def wire_headers_def pbind_def preturn_def)
qed

lemma wire_starts:
  assumes "frame_ok f"
  obtains b s where "wire f = b # s" "\<not> is_eol b"
  using assms by (cases "fr_command f") (auto simp: frame_ok_def wire_def dest: is_alpha_not_eol)

lemma frame_parser_wire:
  assumes "frame_ok f"
  shows "frame_parser (wire f @ r) = POk (wire_frame f) (skip_eol r)"
proof -
  have "skip_eol (wire f @ r) = wire f @ r"
    using assms by (auto elim: wire_starts)
  then show ?thesis by (simp add: frame_parser_def pbind_def frame_core_wire [OF assms])
qed

end
