(* ===== verification/Frame_Msg.thy ===== *)
theory Frame_Msg
  imports Frame_Parse
begin

text \<open>
  The conversions of \<open>src/frame.rs\<close> between a parsed frame and a message: header
  lookup with and without unescaping, \<open>to_client_msg\<close>, \<open>to_server_msg\<close> and
  \<open>parse_heartbeat\<close>. The lemmas give the lookups on serialized headers, the UTF-8
  guarantee of every text a conversion returns, and what each command needs.
\<close>

section \<open>Header lookup\<close>

fun fetch_header :: "header list \<Rightarrow> rstring \<Rightarrow> rstring option" where
  "fetch_header [] key = None"
| "fetch_header ((k, v) # headers) key =
    (if k = key then from_utf8 (unescape_header_value v) else fetch_header headers key)"

fun fetch_raw_header :: "header list \<Rightarrow> rstring \<Rightarrow> rstring option" where
  "fetch_raw_header [] key = None"
| "fetch_raw_header ((k, v) # headers) key =
    (if k = key then from_utf8 v else fetch_raw_header headers key)"

definition expect_header :: "header list \<Rightarrow> rstring \<Rightarrow> rstring result" where
  "expect_header headers key = ok_or (fetch_header headers key) (Missing_Header key)"

definition expect_raw_header :: "header list \<Rightarrow> rstring \<Rightarrow> rstring result" where
  "expect_raw_header headers key = ok_or (fetch_raw_header headers key) (Missing_Header key)"

definition header_to_string :: "bytes \<Rightarrow> bytes \<Rightarrow> (rstring \<times> rstring) result" where
  "header_to_string key value =
    rbind (ok_or (from_utf8 key) Header_Name_Not_Utf8) (\<lambda>key.
    rbind (ok_or (from_utf8 (unescape_header_value value)) (Header_Value_Not_Utf8 key)) (\<lambda>value.
    Inr (key, value)))"

definition all_headers :: "header list \<Rightarrow> (rstring \<times> rstring) list result" where
  "all_headers headers = collect_results (map (\<lambda>(k, v). header_to_string k v) headers)"

definition optional_headers ::
    "header list \<Rightarrow> bytes list \<Rightarrow> (rstring \<times> rstring) list option result" where
  "optional_headers headers expected_keys =
    rbind
      (collect_results
        (map (\<lambda>(k, v). header_to_string k v)
          (filter (\<lambda>(k, _). k \<notin> set expected_keys) headers)))
      (\<lambda>res. Inr (if res = [] then None else Some res))"

section \<open>The heart-beat header\<close>

definition parse_heartbeat :: "rstring \<Rightarrow> (u32 \<times> u32) result" where
  "parse_heartbeat hb =
    (case splitn2 (CHR '','') hb of
       left # right # _ \<Rightarrow>
         rbind (ok_or (parse_u32 left) Parse_Int_Error) (\<lambda>l.
         rbind (ok_or (parse_u32 right) Parse_Int_Error) (\<lambda>r.
         Inr (l, r)))
     | _ \<Rightarrow> Inl Bad_Heartbeat)"

section \<open>Frames as client messages\<close>

definition parse_ack_mode :: "rstring option \<Rightarrow> ack_mode option result" where
  "parse_ack_mode a =
    (case a of
       None \<Rightarrow> Inr None
     | Some other \<Rightarrow>
         if other = ''auto'' then Inr (Some Auto)
         else if other = ''client'' then Inr (Some Client)
         else if other = ''client-individual'' then Inr (Some ClientIndividual)
         else Inl (Invalid_Ack_Mode other))"

text \<open>The content, with the header names the variant accounts for.\<close>

definition to_client_content :: "frame \<Rightarrow> (to_server \<times> bytes list) result" where
  "to_client_content f =
    (let h = fr_headers f; command = fr_command f in
     if command \<in> set [''STOMP'', ''CONNECT'', ''stomp'', ''connect''] then
       rbind (case fetch_raw_header h ''heart-beat'' of
                Some hb \<Rightarrow> rbind (parse_heartbeat hb) (\<lambda>p. Inr (Some p))
              | None \<Rightarrow> Inr None) (\<lambda>heartbeat.
       rbind (expect_raw_header h ''accept-version'') (\<lambda>accept_version.
       rbind (expect_raw_header h ''host'') (\<lambda>host.
       Inr (Connect accept_version host (fetch_raw_header h ''login'')
              (fetch_raw_header h ''passcode'') heartbeat,
            [''accept-version'', ''host'', ''login'', ''passcode'', ''heart-beat'']))))
     else if command \<in> set [''DISCONNECT'', ''disconnect''] then
       Inr (Disconnect (fetch_header h ''receipt''), [''receipt''])
     else if command \<in> set [''SEND'', ''send''] then
       rbind (expect_header h ''destination'') (\<lambda>destination.
       rbind (optional_headers h [''destination'', ''transaction'']) (\<lambda>headers.
       Inr (Send destination (fetch_header h ''transaction'') headers (fr_body f),
            [''destination'', ''transaction''])))
     else if command \<in> set [''SUBSCRIBE'', ''subscribe''] then
       rbind (expect_header h ''destination'') (\<lambda>destination.
       rbind (expect_header h ''id'') (\<lambda>i.
       rbind (parse_ack_mode (fetch_header h ''ack'')) (\<lambda>ack.
       Inr (Subscribe destination i ack, [''destination'', ''id'', ''ack'']))))
     else if command \<in> set [''UNSUBSCRIBE'', ''unsubscribe''] then
       rbind (expect_header h ''id'') (\<lambda>i. Inr (Unsubscribe i, [''id'']))
     else if command \<in> set [''ACK'', ''ack''] then
       rbind (expect_header h ''id'') (\<lambda>i.
       Inr (Ack i (fetch_header h ''transaction''), [''id'', ''transaction'']))
     else if command \<in> set [''NACK'', ''nack''] then
       rbind (expect_header h ''id'') (\<lambda>i.
       Inr (Nack i (fetch_header h ''transaction''), [''id'', ''transaction'']))
     else if command \<in> set [''BEGIN'', ''begin''] then
       rbind (expect_header h ''transaction'') (\<lambda>t. Inr (Begin t, [''transaction'']))
     else if command \<in> set [''COMMIT'', ''commit''] then
       rbind (expect_header h ''transaction'') (\<lambda>t. Inr (Commit t, [''transaction'']))
     else if command \<in> set [''ABORT'', ''abort''] then
       rbind (expect_header h ''transaction'') (\<lambda>t. Inr (Abort t, [''transaction'']))
     else Inl (Frame_Not_Recognized command))"

definition to_client_msg :: "frame \<Rightarrow> to_server message result" where
  "to_client_msg f =
    rbind (to_client_content f) (\<lambda>(c, expect_keys).
    Inr \<lparr>content = c,
         extra_headers = filter (\<lambda>(k, _). k \<notin> set expect_keys) (fr_headers f)\<rparr>)"

section \<open>Frames as server messages\<close>

definition to_server_content :: "frame \<Rightarrow> (from_server \<times> bytes list) result" where
  "to_server_content f =
    (let h = fr_headers f; command = fr_command f in
     if command \<in> set [''CONNECTED'', ''connected''] then
       rbind (expect_raw_header h ''version'') (\<lambda>version.
       Inr (Connected version (fetch_raw_header h ''session'') (fetch_raw_header h ''server'')
              (fetch_raw_header h ''heart-beat''),
            [''version'', ''session'', ''server'', ''heart-beat'']))
     else if command \<in> set [''MESSAGE'', ''message''] then
       rbind (expect_header h ''destination'') (\<lambda>destination.
       rbind (expect_header h ''message-id'') (\<lambda>message_id.
       rbind (expect_header h ''subscription'') (\<lambda>subscription.
       rbind (all_headers h) (\<lambda>headers.
       Inr (Msg destination message_id subscription (fetch_header h ''ack'') headers (fr_body f),
            [''destination'', ''message-id'', ''subscription'', ''ack''])))))
     else if command \<in> set [''RECEIPT'', ''receipt''] then
       rbind (expect_header h ''receipt-id'') (\<lambda>r. Inr (Receipt r, [''receipt-id'']))
     else if command \<in> set [''ERROR'', ''error''] then
       Inr (Error (fetch_header h ''message'') (fr_body f), [''message''])
     else Inl (Frame_Not_Recognized command))"

definition to_server_msg :: "frame \<Rightarrow> from_server message result" where
  "to_server_msg f =
    rbind (to_server_content f) (\<lambda>(c, expect_keys).
    Inr \<lparr>content = c,
         extra_headers = filter (\<lambda>(k, _). k \<notin> set expect_keys) (fr_headers f)\<rparr>)"

text \<open>\<open>Message::from_frame\<close>, for either kind of message.\<close>

definition client_message_from_frame :: "frame \<Rightarrow> to_server message result" where
  [simp]: "client_message_from_frame frame = to_client_msg frame"

definition server_message_from_frame :: "frame \<Rightarrow> from_server message result" where
  [simp]: "server_message_from_frame frame = to_server_msg frame"

section \<open>Lookups\<close>

lemma fetch_header_eq: "fetch_header hs key =
  Option.bind (map_of hs key) (\<lambda>v. from_utf8 (unescape_header_value v))"
  by (induction hs key rule: fetch_header.induct) simp_all

lemma fetch_raw_header_eq: "fetch_raw_header hs key = Option.bind (map_of hs key) from_utf8"
  by (induction hs key rule: fetch_raw_header.induct) simp_all

lemma get_content_length_eq: "get_content_length hs =
  Option.bind (map_of hs ''content-length'') (\<lambda>v. Option.bind (from_utf8 v) parse_u32)"
  by (induction hs rule: get_content_length.induct) simp_all

lemma fetch_header_utf8: "fetch_header hs key = Some v \<Longrightarrow> utf8_valid v"
  by (auto simp: fetch_header_eq from_utf8_eq_Some Option.bind_eq_Some_conv)

lemma fetch_raw_header_utf8: "fetch_raw_header hs key = Some v \<Longrightarrow> utf8_valid v"
  by (auto simp: fetch_raw_header_eq from_utf8_eq_Some Option.bind_eq_Some_conv)

lemma opt_utf8_fetch [simp]: "opt_utf8 (fetch_header hs key)" "opt_utf8 (fetch_raw_header hs key)"
  by (auto simp: opt_utf8_def fetch_header_utf8 fetch_raw_header_utf8 split: option.split)

lemma expect_header_Inr: "expect_header hs key = Inr v \<longleftrightarrow> fetch_header hs key = Some v"
  by (simp add: expect_header_def ok_or_eq)

lemma expect_raw_header_Inr: "expect_raw_header hs key = Inr v \<longleftrightarrow> fetch_raw_header hs key = Some v"
  by (simp add: expect_raw_header_def ok_or_eq)

lemma header_to_string_Inr: "header_to_string k v = Inr (k', v') \<longleftrightarrow>
  k' = k \<and> v' = unescape_header_value v \<and> utf8_valid k \<and> utf8_valid (unescape_header_value v)"
  by (cases "utf8_valid k"; cases "utf8_valid (unescape_header_value v)")
    (auto simp: header_to_string_def from_utf8_def)

lemma collect_header_to_string:
  "collect_results (map (\<lambda>(k, v). header_to_string k v) hs) = Inr ss \<longleftrightarrow>
   ss = map (\<lambda>(k, v). (k, unescape_header_value v)) hs \<and> headers_utf8 ss"
proof (induction hs arbitrary: ss)
  case Nil
  show ?case by auto
next
  case (Cons h hs)
  obtain k v where h: "h = (k, v)" by (cases h)
  show ?case
    unfolding h list.map prod.case collect_results.simps rbind_eq_Inr Cons.IH
    by (auto simp: header_to_string_Inr)
qed

lemma all_headers_Inr: "all_headers hs = Inr ss \<longleftrightarrow>
  ss = map (\<lambda>(k, v). (k, unescape_header_value v)) hs \<and> headers_utf8 ss"
  by (simp add: all_headers_def collect_header_to_string)

lemma optional_headers_Inr: "optional_headers hs ks = Inr ss \<longleftrightarrow>
  (let l = map (\<lambda>(k, v). (k, unescape_header_value v)) (filter (\<lambda>(k, _). k \<notin> set ks) hs)
   in headers_utf8 l \<and> ss = (if l = [] then None else Some l))"
  by (auto simp: optional_headers_def rbind_eq_Inr collect_header_to_string Let_def)

section \<open>Every text returned is valid UTF-8\<close>

lemmas conversion_Inr =
  rbind_eq_Inr expect_header_Inr expect_raw_header_Inr all_headers_Inr optional_headers_Inr

lemma to_server_content_utf8: "to_server_content f = Inr (c, ks) \<Longrightarrow> from_server_utf8 c"
  unfolding to_server_content_def
  by (auto simp: Let_def conversion_Inr fetch_header_utf8 fetch_raw_header_utf8 split: if_splits)

lemma to_client_content_utf8: "to_client_content f = Inr (c, ks) \<Longrightarrow> to_server_utf8 c"
  unfolding to_client_content_def
  by (auto simp: Let_def conversion_Inr fetch_header_utf8 fetch_raw_header_utf8 split: if_splits)

section \<open>How a conversion fails\<close>

text \<open>The errors a server frame that parsed can still be refused with.\<close>

primrec conversion_error :: "stomp_error \<Rightarrow> bool" where
  "conversion_error (Missing_Header k) \<longleftrightarrow> True"
| "conversion_error Header_Name_Not_Utf8 \<longleftrightarrow> True"
| "conversion_error (Header_Value_Not_Utf8 k) \<longleftrightarrow> True"
| "conversion_error (Invalid_Ack_Mode a) \<longleftrightarrow> False"
| "conversion_error (Frame_Not_Recognized c) \<longleftrightarrow> True"
| "conversion_error Bad_Heartbeat \<longleftrightarrow> False"
| "conversion_error Parse_Int_Error \<longleftrightarrow> False"
| "conversion_error (Frame_Exceeds_Maximum n) \<longleftrightarrow> False"
| "conversion_error Parse_Failed \<longleftrightarrow> False"
| "conversion_error Unexpected_Reply \<longleftrightarrow> False"
| "conversion_error (Unsupported_Version v) \<longleftrightarrow> False"
| "conversion_error Connection_Closed \<longleftrightarrow> False"
| "conversion_error (Server_Quiet a b) \<longleftrightarrow> False"
| "conversion_error (Disconnect_Refused m) \<longleftrightarrow> False"
| "conversion_error Disconnect_Not_Acknowledged \<longleftrightarrow> False"
| "conversion_error No_Tls_Hostname \<longleftrightarrow> False"
| "conversion_error (Invalid_Dns_Name n) \<longleftrightarrow> False"
| "conversion_error (Io_Error m) \<longleftrightarrow> False"

lemma header_to_string_Inl: "header_to_string k v = Inl e \<Longrightarrow> conversion_error e"
  by (auto simp: header_to_string_def rbind_eq_Inl ok_or_eq)

lemma all_headers_Inl: "all_headers hs = Inl e \<Longrightarrow> conversion_error e"
  unfolding all_headers_def
  by (auto dest!: collect_results_Inl header_to_string_Inl [OF sym])

lemma expect_header_Inl: "expect_header hs k = Inl e \<longleftrightarrow> fetch_header hs k = None \<and> e = Missing_Header k"
  "expect_raw_header hs k = Inl e \<longleftrightarrow> fetch_raw_header hs k = None \<and> e = Missing_Header k"
  by (auto simp: expect_header_def expect_raw_header_def ok_or_eq)

lemma to_server_msg_Inl: "to_server_msg f = Inl e \<Longrightarrow> conversion_error e"
  unfolding to_server_msg_def to_server_content_def
  by (auto simp: Let_def rbind_eq_Inl expect_header_Inl dest: all_headers_Inl split: if_splits)

lemma to_server_msg_size [simp]: "to_server_msg f \<noteq> Inl (Frame_Exceeds_Maximum n)"
  using to_server_msg_Inl [of f "Frame_Exceeds_Maximum n"] by auto

section \<open>The heart-beat value\<close>

lemma parse_heartbeat_value: "parse_heartbeat (heartbeat_value (x, y)) = Inr (x, y)"
  by (simp add: parse_heartbeat_def heartbeat_value_def display_u32_def
      parse_u32_display_u32 [unfolded display_u32_def])

end
