(* ===== verification/Client_Roundtrip.thy ===== *)
theory Client_Roundtrip
  imports Frame_Msg
begin

text \<open>
  A message that the client serializes is read back by the parser and
  \<open>to_client_msg\<close> of the same file as the message it was. The conditions are the
  ones the wire format itself imposes: no line ends in the unescaped headers of a
  CONNECT, and a SEND whose own headers neither change the meaning of the frame nor
  need escaping in their names.
\<close>

section \<open>What a message looks like when it is read back\<close>

text \<open>The headers of a SEND beyond \<open>destination\<close> and \<open>transaction\<close>.\<close>

definition has_header :: "bytes \<Rightarrow> header list \<Rightarrow> bool" where
  "has_header k hs \<longleftrightarrow> k \<in> fst ` set hs"

definition user_headers :: "(rstring \<times> rstring) list option \<Rightarrow> header list" where
  "user_headers hs = (case hs of None \<Rightarrow> [] | Some l \<Rightarrow> l)"

definition length_header :: "header list \<Rightarrow> bytes option \<Rightarrow> header list" where
  "length_header hs body =
    (case body of
       None \<Rightarrow> []
     | Some b \<Rightarrow>
         if NUL \<in> set b \<and> \<not> has_header ''content-length'' hs
         then [(''content-length'', decimal (length b))] else [])"

definition send_extra :: "(rstring \<times> rstring) list option \<Rightarrow> bytes option \<Rightarrow> header list" where
  "send_extra hs body = user_headers hs @ length_header (user_headers hs) body"

fun received_content :: "to_server \<Rightarrow> to_server" where
  "received_content (Send d t hs b) =
     Send d t (if send_extra hs b = [] then None else Some (send_extra hs b)) b"
| "received_content c = c"

fun received_extra :: "to_server \<Rightarrow> header list" where
  "received_extra (Send d t hs b) = map (escape_header True) (send_extra hs b)"
| "received_extra c = []"

section \<open>Which messages the wire format can carry\<close>

definition no_eol :: "bytes \<Rightarrow> bool" where
  "no_eol s \<longleftrightarrow> (\<forall>b \<in> set s. \<not> is_eol b)"

definition opt_no_eol :: "bytes option \<Rightarrow> bool" where
  "opt_no_eol s \<longleftrightarrow> (case s of None \<Rightarrow> True | Some v \<Rightarrow> no_eol v)"

text \<open>A header name that is the same escaped and unescaped.\<close>

definition plain_name :: "bytes \<Rightarrow> bool" where
  "plain_name k \<longleftrightarrow> k \<noteq> [] \<and> (\<forall>b \<in> set k. b \<notin> {CR, LF, COLON, BACKSLASH})"

definition send_body_ok :: "header list \<Rightarrow> bytes option \<Rightarrow> bool" where
  "send_body_ok hs body =
    (case get_content_length (map (escape_header True) hs) of
       Some n \<Rightarrow> (case body of None \<Rightarrow> False | Some b \<Rightarrow> length b = unat n)
     | None \<Rightarrow>
         (case body of
            None \<Rightarrow> True
          | Some b \<Rightarrow>
              b \<noteq> [] \<and>
              (NUL \<in> set b \<longrightarrow> \<not> has_header ''content-length'' hs \<and> length b < 2 ^ 32)))"

fun sendable :: "to_server \<Rightarrow> bool" where
  "sendable (Connect v h l p hb) \<longleftrightarrow> no_eol v \<and> no_eol h \<and> opt_no_eol l \<and> opt_no_eol p"
| "sendable (Send d t hs b) \<longleftrightarrow>
     list_all (\<lambda>(k, v). plain_name k \<and> k \<noteq> ''destination'' \<and> k \<noteq> ''transaction'')
       (user_headers hs) \<and>
     send_body_ok (user_headers hs) b"
| "sendable c \<longleftrightarrow> True"

section \<open>The headers on the wire\<close>

lemma map_filter_append [simp]:
  "List.map_filter f (xs @ ys) = List.map_filter f xs @ List.map_filter f ys"
  by (induction xs) (auto split: option.split)

lemma map_filter_values [simp]:
  "List.map_filter (\<lambda>(k, v). map_option (\<lambda>i. (k, i)) v) (map (\<lambda>(k, v). (k, Some v)) hs) = hs"
  by (induction hs) auto

lemma map_filter_opt [simp]:
  "List.map_filter (\<lambda>(k, v). map_option (\<lambda>i. (k, i)) v) ((k, v) # hs) =
   (case v of None \<Rightarrow> [] | Some i \<Rightarrow> [(k, i)]) @
   List.map_filter (\<lambda>(k, v). map_option (\<lambda>i. (k, i)) v) hs"
  by (cases v) auto

lemma list_ex_has_header:
  "list_ex (\<lambda>(k, _). k = n) (map (\<lambda>(k, v). (k, Some v)) hs) \<longleftrightarrow> has_header n hs"
  by (induction hs) (auto simp: has_header_def)

lemma send_frame_headers:
  "fr_headers (to_server_to_frame (Send d t hs b)) =
   (''destination'', d) # (case t of None \<Rightarrow> [] | Some v \<Rightarrow> [(''transaction'', v)]) @ send_extra hs b"
  by (cases hs; cases b)
    (auto simp: send_headers_def send_extra_def length_header_def user_headers_def
      list_ex_has_header has_header_def Let_def split: option.splits)

lemma plain_name_escape [simp]: "plain_name k \<Longrightarrow> escape_text e k = k"
  by (rule escape_text_id) (auto simp: plain_name_def)

lemma plain_name_ok: "plain_name k \<Longrightarrow> name_ok e k"
  by (auto simp: plain_name_def name_ok_def is_eol_def)

lemma plain_names [simp]:
  "plain_name ''accept-version''" "plain_name ''host''" "plain_name ''login''"
  "plain_name ''passcode''" "plain_name ''heart-beat''" "plain_name ''destination''"
  "plain_name ''transaction''" "plain_name ''id''" "plain_name ''ack''" "plain_name ''receipt''"
  "plain_name ''content-length''" "plain_name ''message-id''" "plain_name ''subscription''"
  "plain_name ''receipt-id''" "plain_name ''message''"
  by (simp_all add: plain_name_def)

lemma headers_are_escaped_simps [simp]:
  "\<not> headers_are_escaped ''CONNECT''" "headers_are_escaped ''DISCONNECT''"
  "headers_are_escaped ''SEND''" "headers_are_escaped ''SUBSCRIBE''"
  "headers_are_escaped ''UNSUBSCRIBE''" "headers_are_escaped ''ACK''"
  "headers_are_escaped ''NACK''" "headers_are_escaped ''BEGIN''" "headers_are_escaped ''COMMIT''"
  "headers_are_escaped ''ABORT''" "\<not> headers_are_escaped ''CONNECTED''"
  "headers_are_escaped ''MESSAGE''" "headers_are_escaped ''RECEIPT''" "headers_are_escaped ''ERROR''"
  by (simp_all add: headers_are_escaped_def)

lemma escape_header_False [simp]: "escape_header False h = h"
  by (cases h) (simp add: escape_header_def)

lemma escape_header_plain [simp]: "plain_name k \<Longrightarrow> escape_header True (k, v) = (k, escape_text True v)"
  by (simp add: escape_header_def)

lemma value_ok_True [simp]: "value_ok True v"
  by (simp add: value_ok_def)

lemma name_ok_plain [simp]: "plain_name k \<Longrightarrow> name_ok e k"
  by (rule plain_name_ok)

lemma no_eol_value_ok: "no_eol v \<Longrightarrow> value_ok e v"
  by (simp add: no_eol_def value_ok_def)

lemma alpha_commands [simp]:
  "list_all is_alpha ''CONNECT''" "list_all is_alpha ''DISCONNECT''" "list_all is_alpha ''SEND''"
  "list_all is_alpha ''SUBSCRIBE''" "list_all is_alpha ''UNSUBSCRIBE''" "list_all is_alpha ''ACK''"
  "list_all is_alpha ''NACK''" "list_all is_alpha ''BEGIN''" "list_all is_alpha ''COMMIT''"
  "list_all is_alpha ''ABORT''" "list_all is_alpha ''CONNECTED''" "list_all is_alpha ''MESSAGE''"
  "list_all is_alpha ''RECEIPT''" "list_all is_alpha ''ERROR''"
  by (simp_all add: is_alpha_def)

lemma map_of_escape_headers:
  "list_all (\<lambda>(k, v). plain_name k) hs \<Longrightarrow>
   map_of (map (escape_header True) hs) n = map_option (escape_text True) (map_of hs n)"
  by (induction hs) (auto simp: escape_header_def)

lemma no_eol_heartbeat_value: "no_eol (heartbeat_value hb)"
  by (cases hb) (auto simp: no_eol_def heartbeat_value_def display_u32_def is_eol_def)

lemma utf8_valid_ascii_append: "ascii a \<Longrightarrow> utf8_valid (a @ b) = utf8_valid b"
  by (induction a) (auto simp: ascii_def)

lemma utf8_valid_heartbeat_value [simp]: "utf8_valid (heartbeat_value hb)"
proof -
  have "ascii (decimal n @ '','')" for n
    using ascii_decimal [of n] by (auto simp: ascii_def byte_in_def)
  then show ?thesis
    by (cases hb) (simp add: heartbeat_value_def display_u32_def
        utf8_valid_ascii_append [of "decimal _ @ '',''", simplified])
qed

section \<open>Sendable messages give frames the grammar carries\<close>

lemma get_content_length_skip [simp]:
  "k \<noteq> ''content-length'' \<Longrightarrow> get_content_length ((k, v) # hs) = get_content_length hs"
  by simp

lemma get_content_length_append:
  "get_content_length (xs @ ys) =
   (if has_header ''content-length'' xs then get_content_length xs else get_content_length ys)"
  by (induction xs rule: get_content_length.induct) (auto simp: has_header_def)

lemma get_content_length_none: "\<not> has_header ''content-length'' hs \<Longrightarrow> get_content_length hs = None"
  by (induction hs rule: get_content_length.induct) (auto simp: has_header_def)

lemma has_header_escape:
  "list_all (\<lambda>(k, v). plain_name k) hs \<Longrightarrow>
   has_header n (map (escape_header True) hs) = has_header n hs"
  by (induction hs) (auto simp: escape_header_def has_header_def)

lemma escape_decimal [simp]: "escape_text e (decimal n) = decimal n"
  by (rule escape_text_id) (use decimal_clean [of n] in auto)

lemma user_headers_plain:
  "sendable (Send d t hs b) \<Longrightarrow> list_all (\<lambda>(k, v). plain_name k) (user_headers hs)"
  by (auto simp: list_all_iff)

lemma send_extra_plain:
  "sendable (Send d t hs b) \<Longrightarrow>
   list_all (\<lambda>(k, v). plain_name k \<and> k \<noteq> ''destination'' \<and> k \<noteq> ''transaction'') (send_extra hs b)"
  by (auto simp: send_extra_def length_header_def split: option.splits)

lemma send_body_wire:
  assumes "sendable (Send d t hs b)"
  shows "body_ok (map (escape_header True) (send_extra hs b)) b"
proof -
  let ?u = "user_headers hs"
  have ok: "send_body_ok ?u b" using assms by simp
  have has: "has_header n (map (escape_header True) ?u) = has_header n ?u" for n
    using assms user_headers_plain has_header_escape by blast
  show ?thesis
  proof (cases "length_header ?u b")
    case Nil
    then have "send_extra hs b = ?u" by (simp add: send_extra_def)
    moreover have "get_content_length (map (escape_header True) ?u) = None \<Longrightarrow>
        (case b of None \<Rightarrow> True | Some x \<Rightarrow> x \<noteq> [] \<and> NUL \<notin> set x)"
      using ok Nil by (auto simp: send_body_ok_def length_header_def split: option.splits if_splits)
    ultimately show ?thesis
      using ok by (auto simp: body_ok_def send_body_ok_def split: option.splits)
  next
    case (Cons h l)
    then obtain x where x: "b = Some x" "NUL \<in> set x" "\<not> has_header ''content-length'' ?u"
      "send_extra hs b = ?u @ [(''content-length'', decimal (length x))]"
      by (auto simp: length_header_def send_extra_def split: option.splits if_splits)
    then have none: "get_content_length (map (escape_header True) ?u) = None"
      using has get_content_length_none by blast
    with ok x have "length x < 2 ^ 32" by (simp add: send_body_ok_def)
    with x has none show ?thesis
      by (simp add: body_ok_def get_content_length_append parse_u32_decimal)
  qed
qed

lemma to_frame_command:
  "fr_command (to_server_to_frame c) \<noteq> [] \<and> list_all is_alpha (fr_command (to_server_to_frame c))"
  by (cases c) (simp_all add: is_alpha_def)

lemma sendable_frame_ok:
  assumes "sendable c"
  shows "frame_ok (to_server_to_frame c)"
proof (cases c)
  case (Send d t hs b)
  let ?f = "to_server_to_frame c"
  have f: "fr_command ?f = ''SEND''" "fr_body ?f = b" by (simp_all add: Send)
  have hs: "list_all (\<lambda>(k, v). name_ok True k \<and> value_ok True v) (fr_headers ?f)"
    using send_extra_plain [OF assms [unfolded Send]]
    unfolding Send send_frame_headers by (auto simp: list_all_iff split: option.split)
  have "get_content_length (wire_headers ?f) =
    get_content_length (map (escape_header True) (send_extra hs b))"
    unfolding wire_headers_def f unfolding Send send_frame_headers by (cases t) simp_all
  then have "body_ok (wire_headers ?f) b"
    using send_body_wire [OF assms [unfolded Send]] by (simp add: body_ok_def)
  with f hs to_frame_command [of c] show ?thesis by (simp add: frame_ok_def)
qed (use assms in \<open>auto simp: frame_ok_def wire_headers_def body_ok_def opt_no_eol_def
      no_eol_value_ok no_eol_heartbeat_value is_alpha_def split: option.splits\<close>)

section \<open>Reading the frame back\<close>

lemma fetch_escaped [simp]:
  "utf8_valid v \<Longrightarrow> fetch_header ((k, escape_text True v) # hs) k = Some v"
  by (simp add: unescape_escape_text)

lemma expect_escaped [simp]:
  "utf8_valid v \<Longrightarrow> expect_header ((k, escape_text True v) # hs) k = Inr v"
  "k \<noteq> n \<Longrightarrow> expect_header ((k, v) # hs) n = expect_header hs n"
  by (simp_all add: expect_header_def unescape_escape_text)

lemma expect_raw [simp]:
  "utf8_valid v \<Longrightarrow> expect_raw_header ((k, v) # hs) k = Inr v"
  "k \<noteq> n \<Longrightarrow> expect_raw_header ((k, v) # hs) n = expect_raw_header hs n"
  by (simp_all add: expect_raw_header_def)

lemma utf8_valid_ack_mode [simp]: "utf8_valid (ack_mode_bytes a)"
  by (rule utf8_valid_ascii) (cases a; simp add: ascii_def byte_in_def)

lemma parse_ack_mode_bytes [simp]: "parse_ack_mode (Some (ack_mode_bytes a)) = Inr (Some a)"
  by (cases a) (simp_all add: parse_ack_mode_def)

lemma parse_ack_mode_None [simp]: "parse_ack_mode None = Inr None"
  by (simp add: parse_ack_mode_def)

lemma fetch_header_absent:
  "list_all (\<lambda>(k, v). plain_name k \<and> k \<noteq> n) hs \<Longrightarrow>
   fetch_header (map (escape_header True) hs) n = None"
  by (induction hs) auto

lemma filter_unexpected:
  "list_all (\<lambda>(k, v). plain_name k \<and> k \<notin> set ks) hs \<Longrightarrow>
   filter (\<lambda>(k, _). k \<notin> set ks) (map (escape_header True) hs) = map (escape_header True) hs"
  by (induction hs) auto

lemma unescape_headers:
  "list_all (\<lambda>(k, v). plain_name k) hs \<Longrightarrow>
   map (\<lambda>(k, v). (k, unescape_header_value v)) (map (escape_header True) hs) = hs"
  by (induction hs) (auto simp: unescape_escape_text)

lemma optional_headers_escaped:
  assumes "list_all (\<lambda>(k, v). plain_name k \<and> k \<notin> set ks) hs" "headers_utf8 hs"
  shows "optional_headers (map (escape_header True) hs) ks = Inr (if hs = [] then None else Some hs)"
proof -
  have "list_all (\<lambda>(k, v). plain_name k) hs" using assms(1) by (auto simp: list_all_iff)
  then show ?thesis
    using assms(2)
    by (simp add: optional_headers_Inr filter_unexpected [OF assms(1)] unescape_headers
        Let_def del: map_map)
qed

lemma optional_headers_skip [simp]:
  "k \<in> set ks \<Longrightarrow> optional_headers ((k, v) # hs) ks = optional_headers hs ks"
  by (simp add: optional_headers_def)

lemma headers_utf8_send_extra: "to_server_utf8 (Send d t hs b) \<Longrightarrow> headers_utf8 (send_extra hs b)"
proof -
  have "utf8_valid ''content-length''"
    by (rule utf8_valid_ascii) (simp add: ascii_def byte_in_def)
  then show "to_server_utf8 (Send d t hs b) \<Longrightarrow> headers_utf8 (send_extra hs b)"
    by (auto simp: send_extra_def user_headers_def length_header_def split: option.splits)
qed

lemma to_client_send:
  assumes "sendable (Send d t hs b)" "to_server_utf8 (Send d t hs b)"
  shows "to_client_msg (wire_frame (to_server_to_frame (Send d t hs b))) =
    Inr \<lparr>content = received_content (Send d t hs b),
         extra_headers = received_extra (Send d t hs b)\<rparr>"
proof -
  let ?x = "map (escape_header True) (send_extra hs b)"
  let ?t = "case t of None \<Rightarrow> [] | Some v \<Rightarrow> [(''transaction'', escape_text True v)]"
  let ?ks = "[''destination'', ''transaction'']"
  have wh: "wire_headers (to_server_to_frame (Send d t hs b)) =
    (''destination'', escape_text True d) # ?t @ ?x"
    unfolding wire_headers_def send_frame_headers by (simp split: option.split)
  have all: "list_all (\<lambda>(k, v). plain_name k \<and> k \<notin> set ?ks) (send_extra hs b)"
    using send_extra_plain [OF assms(1)] by simp
  then have absent: "fetch_header ?x ''transaction'' = None"
    by (intro fetch_header_absent) (auto simp: list_all_iff)
  have opt: "optional_headers ?x ?ks =
    Inr (if send_extra hs b = [] then None else Some (send_extra hs b))"
    by (rule optional_headers_escaped [OF all headers_utf8_send_extra [OF assms(2)]])
  define f where "f = wire_frame (to_server_to_frame (Send d t hs b))"
  have f: "fr_command f = ''SEND''" "fr_body f = b"
    "fr_headers f = (''destination'', escape_text True d) # ?t @ ?x"
    unfolding f_def wire_frame_simps wh by simp_all
  have content: "to_client_content f = Inr (received_content (Send d t hs b), ?ks)"
    using assms(2) absent opt
    by (cases t) (simp_all add: to_client_content_def f Let_def unescape_escape_text)
  have rest: "filter (\<lambda>(k, _). k \<notin> set ?ks) (fr_headers f) = ?x"
    unfolding f using filter_unexpected [OF all] by (cases t) simp_all
  have "to_client_msg f = Inr \<lparr>content = received_content (Send d t hs b), extra_headers = ?x\<rparr>"
    by (simp only: to_client_msg_def content rbind_simps prod.case rest)
  then show ?thesis by (simp only: f_def received_extra.simps)
qed

lemma to_client_other:
  assumes "to_server_utf8 c" "\<And>d t hs b. c \<noteq> Send d t hs b"
  shows "to_client_msg (wire_frame (to_server_to_frame c)) = Inr \<lparr>content = c, extra_headers = []\<rparr>"
  using assms
  by (cases c)
    (auto simp: to_client_msg_def to_client_content_def wire_headers_def Let_def parse_heartbeat_value
      unescape_escape_text split: option.splits)

theorem to_client_msg_wire:
  assumes "sendable c" "to_server_utf8 c"
  shows "to_client_msg (wire_frame (to_server_to_frame c)) =
    Inr \<lparr>content = received_content c, extra_headers = received_extra c\<rparr>"
  using assms to_client_send to_client_other [OF assms(2)] by (cases c) auto

section \<open>Messages with extra headers\<close>

text \<open>The header names that a variant accounts for when it is read back.\<close>

primrec own_keys :: "to_server \<Rightarrow> bytes list" where
  "own_keys (Connect v h l p hb) = [''accept-version'', ''host'', ''login'', ''passcode'', ''heart-beat'']"
| "own_keys (Send d t hs b) = [''destination'', ''transaction'']"
| "own_keys (Subscribe d i a) = [''destination'', ''id'', ''ack'']"
| "own_keys (Unsubscribe i) = [''id'']"
| "own_keys (Ack i t) = [''id'', ''transaction'']"
| "own_keys (Nack i t) = [''id'', ''transaction'']"
| "own_keys (Begin t) = [''transaction'']"
| "own_keys (Commit t) = [''transaction'']"
| "own_keys (Abort t) = [''transaction'']"
| "own_keys (Disconnect r) = [''receipt'']"

text \<open>The extra headers that make it into the frame.\<close>

definition kept_extra :: "to_server message \<Rightarrow> header list" where
  "kept_extra m =
    filter (\<lambda>(k, _). k \<notin> fst ` set (fr_headers (to_server_to_frame (content m)))) (extra_headers m)"

text \<open>
  Extra headers that stay what they are: none stands for a field of the content that is
  not set, none announces a length, and the names need no escaping; in a CONNECT, which
  is not escaped, neither name nor value may end the line. What a SEND carries has to be
  text, as its headers are read back as strings.
\<close>

definition extra_ok :: "to_server \<Rightarrow> header \<Rightarrow> bool" where
  "extra_ok c h \<longleftrightarrow>
    (case h of (k, v) \<Rightarrow>
       k \<notin> set (own_keys c) \<and> k \<noteq> ''content-length'' \<and>
       (case c of
          Connect _ _ _ _ _ \<Rightarrow> name_ok False k \<and> value_ok False v
        | Send _ _ _ _ \<Rightarrow> plain_name k \<and> utf8_valid k \<and> utf8_valid v
        | _ \<Rightarrow> plain_name k))"

definition sendable_message :: "to_server message \<Rightarrow> bool" where
  "sendable_message m \<longleftrightarrow>
    sendable (content m) \<and> to_server_utf8 (content m) \<and> list_all (extra_ok (content m)) (kept_extra m)"

text \<open>
  The message that is read back. The extra headers of a SEND arrive among its headers,
  after a \<open>content-length\<close> that serialization added, and a second time, as they are on
  the wire, as extra headers.
\<close>

definition with_extra :: "to_server \<Rightarrow> header list \<Rightarrow> to_server" where
  "with_extra c X =
    (case c of
       Send d t hs b \<Rightarrow>
         Send d t (if send_extra hs b @ X = [] then None else Some (send_extra hs b @ X)) b
     | _ \<Rightarrow> c)"

definition received_message :: "to_server message \<Rightarrow> to_server message" where
  "received_message m =
    (case with_extra (content m) (kept_extra m) of
       Send d t hs b \<Rightarrow> \<lparr>content = Send d t hs b, extra_headers = map (escape_header True) (user_headers hs)\<rparr>
     | c \<Rightarrow>
         \<lparr>content = c,
          extra_headers =
            map (escape_header (headers_are_escaped (fr_command (to_server_to_frame c)))) (kept_extra m)\<rparr>)"

lemma kept_extra_none [simp]: "extra_headers m = [] \<Longrightarrow> kept_extra m = []"
  by (simp add: kept_extra_def)

lemma message_frame:
  "message_to_frame m =
    (to_server_to_frame (content m))
      \<lparr>fr_headers := fr_headers (to_server_to_frame (content m)) @ kept_extra m\<rparr>"
  by (cases "to_server_to_frame (content m)")
    (auto simp: message_to_frame_def kept_extra_def add_extra_headers_def Let_def case_prod_beta
      intro!: filter_cong)

lemma extra_ok_names:
  "extra_ok c (k, v) \<Longrightarrow>
    name_ok (headers_are_escaped (fr_command (to_server_to_frame c))) k \<and>
    value_ok (headers_are_escaped (fr_command (to_server_to_frame c))) v"
  by (cases c) (auto simp: extra_ok_def)

lemma extra_ok_absent:
  assumes "list_all (extra_ok c) X" "n \<in> set (own_keys c) \<or> n = ''content-length''"
  shows "n \<notin> fst ` set (map (escape_header (headers_are_escaped (fr_command (to_server_to_frame c)))) X)"
  using assms
  by (cases c) (auto simp: extra_ok_def list_all_iff escape_header_def)

lemma absent_lookups:
  assumes "k \<notin> fst ` set hs"
  shows "fetch_header hs k = None" "fetch_raw_header hs k = None"
    "k = ''content-length'' \<Longrightarrow> get_content_length hs = None"
  using assms
  by (simp_all add: fetch_header_eq fetch_raw_header_eq get_content_length_eq map_of_eq_None_iff [THEN iffD2])

lemma get_content_length_append_none:
  "get_content_length ys = None \<Longrightarrow> get_content_length (xs @ ys) = get_content_length xs"
  using get_content_length_none [of xs] by (simp add: get_content_length_append)

lemma sendable_message_ok:
  assumes "sendable_message m"
  shows "frame_ok (message_to_frame m)"
proof -
  let ?c = "content m"
  let ?f = "to_server_to_frame ?c"
  let ?X = "kept_extra m"
  let ?e = "headers_are_escaped (fr_command ?f)"
  have ok: "frame_ok ?f" and X: "list_all (extra_ok ?c) ?X"
    using assms sendable_frame_ok by (auto simp: sendable_message_def)
  have "get_content_length (map (escape_header ?e) ?X) = None"
    by (rule absent_lookups(3) [OF extra_ok_absent [OF X] refl]) simp
  then have "body_ok (wire_headers ?f @ map (escape_header ?e) ?X) (fr_body ?f)"
    using ok by (simp add: frame_ok_def body_ok_def get_content_length_append_none)
  moreover have "list_all (\<lambda>(k, v). name_ok ?e k \<and> value_ok ?e v) ?X"
    using X extra_ok_names by (fastforce simp: list_all_iff)
  ultimately show ?thesis
    using ok by (simp add: message_frame frame_ok_def wire_headers_def)
qed

text \<open>Extra headers of a SEND are headers of a SEND.\<close>

lemma send_with_extra:
  fixes d t hs b X
  defines "c \<equiv> Send d t (if send_extra hs b @ X = [] then None else Some (send_extra hs b @ X)) b"
  assumes "list_all (extra_ok (Send d t hs b)) X" "sendable (Send d t hs b)" "to_server_utf8 (Send d t hs b)"
  shows "to_server_to_frame c = (to_server_to_frame (Send d t hs b))
      \<lparr>fr_headers := fr_headers (to_server_to_frame (Send d t hs b)) @ X\<rparr>"
    and "sendable c" "to_server_utf8 c" "received_content c = c"
    and "received_extra c = map (escape_header True) (send_extra hs b @ X)"
proof -
  let ?s = "Send d t hs b"
  let ?l = "send_extra hs b @ X"
  let ?hs = "if ?l = [] then None else Some ?l"
  have same: "length_header ?l b = []"
    by (cases "has_header ''content-length'' (user_headers hs)")
      (auto simp: length_header_def send_extra_def has_header_def split: option.splits)
  have l: "user_headers ?hs = ?l" by (simp add: user_headers_def)
  have sx: "send_extra ?hs b = ?l" unfolding send_extra_def [of ?hs] l same by simp
  have X: "list_all (\<lambda>(k, v). plain_name k \<and> k \<noteq> ''destination'' \<and> k \<noteq> ''transaction'') X"
    "headers_utf8 X" "get_content_length (map (escape_header True) X) = None"
    "\<not> has_header ''content-length'' X"
    using assms(2) absent_lookups(3) [OF extra_ok_absent [OF assms(2)] refl]
    by (auto simp: extra_ok_def list_all_iff has_header_def headers_utf8_def)
  show "to_server_to_frame c = (to_server_to_frame ?s)\<lparr>fr_headers := fr_headers (to_server_to_frame ?s) @ X\<rparr>"
    by (rule frame.equality) (simp_all only: c_def send_frame_headers sx, simp_all add: c_def)
  have "body_ok (map (escape_header True) ?l) b"
    using send_body_wire [OF assms(3)] X(3) by (simp add: body_ok_def get_content_length_append_none)
  then have "send_body_ok ?l b" by (auto simp: body_ok_def send_body_ok_def split: option.splits)
  then show "sendable c" using send_extra_plain [OF assms(3)] X(1) unfolding c_def sendable.simps l by simp
  show "to_server_utf8 c" using headers_utf8_send_extra [OF assms(4)] X(2) assms(4) by (auto simp: c_def)
  show "received_content c = c" unfolding c_def received_content.simps sx by (rule refl)
  show "received_extra c = map (escape_header True) (send_extra hs b @ X)"
    unfolding c_def received_extra.simps sx by (rule refl)
qed

lemma to_client_other_extra:
  assumes "list_all (extra_ok c) X" "to_server_utf8 c" "\<And>d t hs b. c \<noteq> Send d t hs b"
    and "fr_command f = fr_command (to_server_to_frame c)"
    and "fr_headers f = wire_headers (to_server_to_frame c) @
      map (escape_header (headers_are_escaped (fr_command (to_server_to_frame c)))) X"
  shows "to_client_msg f = Inr \<lparr>content = c,
    extra_headers = map (escape_header (headers_are_escaped (fr_command (to_server_to_frame c)))) X\<rparr>"
proof -
  define Y where "Y = map (escape_header (headers_are_escaped (fr_command (to_server_to_frame c)))) X"
  have absent: "n \<notin> fst ` set Y" if "n \<in> set (own_keys c)" for n
    unfolding Y_def by (rule extra_ok_absent [OF assms(1) disjI1 [OF that]])
  have none: "\<forall>n\<in>set (own_keys c). fetch_header Y n = None \<and> fetch_raw_header Y n = None"
    using absent absent_lookups(1,2) by blast
  have all: "filter (\<lambda>(k, _). k \<notin> set (own_keys c)) Y = Y"
  proof (rule filter_True, rule ballI, clarify)
    fix k v assume "(k, v) \<in> set Y" "k \<in> set (own_keys c)"
    then show False using absent [of k] image_eqI [of k fst "(k, v)" "set Y"] by simp
  qed
  have f: "fr_headers f = wire_headers (to_server_to_frame c) @ Y" using assms(5) by (simp add: Y_def)
  have keys: "filter (\<lambda>(k, _). k \<notin> set (own_keys c)) (wire_headers (to_server_to_frame c)) = []"
    using assms(3) by (cases c) (auto simp: wire_headers_def split: option.splits)
  have content: "to_client_content f = Inr (c, own_keys c)"
  proof (cases c)
    case (Connect v h l p hb)
    show ?thesis
      using assms(2) none
      by (cases l; cases p; cases hb)
        (auto simp: Connect to_client_content_def assms(4) f wire_headers_def Let_def parse_heartbeat_value)
  next
    case (Subscribe d i a)
    show ?thesis
      using assms(2) none
      by (cases a)
        (simp_all add: Subscribe to_client_content_def assms(4) f wire_headers_def Let_def unescape_escape_text)
  next
    case (Ack i t)
    show ?thesis
      using assms(2) none
      by (cases t)
        (simp_all add: Ack to_client_content_def assms(4) f wire_headers_def Let_def unescape_escape_text)
  next
    case (Nack i t)
    show ?thesis
      using assms(2) none
      by (cases t)
        (simp_all add: Nack to_client_content_def assms(4) f wire_headers_def Let_def unescape_escape_text)
  next
    case (Disconnect r)
    show ?thesis
      using assms(2) none
      by (cases r)
        (simp_all add: Disconnect to_client_content_def assms(4) f wire_headers_def Let_def unescape_escape_text)
  qed (use assms(2,3) in \<open>simp_all add: to_client_content_def assms(4) f wire_headers_def Let_def unescape_escape_text\<close>)
  have "to_client_msg f = Inr \<lparr>content = c, extra_headers = Y\<rparr>"
    by (simp add: to_client_msg_def content f keys all)
  then show ?thesis by (simp only: Y_def)
qed

text \<open>A sendable message, with its extra headers, is read back.\<close>

theorem to_client_msg_wire_extra:
  assumes "sendable_message m"
  shows "to_client_msg (wire_frame (message_to_frame m)) = Inr (received_message m)"
proof -
  let ?c = "content m" and ?X = "kept_extra m"
  have ok: "list_all (extra_ok ?c) ?X" "sendable ?c" "to_server_utf8 ?c"
    using assms by (simp_all add: sendable_message_def)
  show ?thesis
  proof (cases "\<exists>d t hs b. ?c = Send d t hs b")
    case True
    then obtain d t hs b where c: "?c = Send d t hs b" by blast
    note sx = send_with_extra [OF ok [unfolded c]]
    show ?thesis
      using to_client_send [OF sx(2,3)]
      unfolding message_frame c sx(1) [symmetric] sx(4,5)
      by (simp add: received_message_def with_extra_def c user_headers_def)
  next
    case False
    then have ns: "\<And>d t hs b. ?c \<noteq> Send d t hs b" by blast
    then have "with_extra ?c ?X = ?c" by (simp add: with_extra_def split: to_server.split)
    then have r: "received_message m = \<lparr>content = ?c, extra_headers =
        map (escape_header (headers_are_escaped (fr_command (to_server_to_frame ?c)))) ?X\<rparr>"
      using ns by (simp add: received_message_def split: to_server.split)
    show ?thesis
      unfolding r message_frame
      by (rule to_client_other_extra [OF ok(1,3) ns]) (simp_all add: wire_headers_def)
  qed
qed

lemma sendable_message_from [simp]:
  "sendable_message (message_from c) \<longleftrightarrow> sendable c \<and> to_server_utf8 c"
  by (simp add: sendable_message_def message_from_def)

end
