(* ===== verification/Stream_Reader.thy ===== *)
theory Stream_Reader
  imports Stomp_Prelude
begin

text \<open>
  The reading loop around a decoder, as the contract of \<open>tokio_util\<close>'s \<open>Decoder\<close>
  describes it: after every read the decoder is called until it asks for more
  bytes or fails. The locale \<open>stream_decoder\<close> states what a decoder must promise
  for the outcome not to depend on how the bytes were split into reads, and proves
  that it then does not. The codec's decoder is an instance (\<open>Codec\<close>).
\<close>

type_synonym 'm decoder = "bytes \<Rightarrow> bytes \<times> 'm option result"

text \<open>The items decoded, the bytes left in the buffer, and the error that ended it.\<close>

type_synonym 'm outcome = "'m list \<times> bytes \<times> stomp_error option"

definition prepend :: "'m list \<Rightarrow> 'm outcome \<Rightarrow> 'm outcome" where
  "prepend ms o1 = (case o1 of (ns, r, e) \<Rightarrow> (ms @ ns, r, e))"

text \<open>
  Call the decoder until it has nothing more to give. A decoder that yields an item
  without consuming input would be called forever; it is cut off here, and the laws
  of \<open>stream_decoder\<close> exclude it.
\<close>

function decode_loop :: "'m decoder \<Rightarrow> bytes \<Rightarrow> 'm outcome" where
  "decode_loop dec i =
    (case dec i of
       (r, Inl e) \<Rightarrow> ([], r, Some e)
     | (r, Inr None) \<Rightarrow> ([], r, None)
     | (r, Inr (Some m)) \<Rightarrow>
         if length r < length i then prepend [m] (decode_loop dec r) else ([m], r, None))"
  by pat_completeness auto
termination
  by (relation "measure (\<lambda>(dec, i). length i)") auto

declare decode_loop.simps [simp del]

text \<open>One read after the other, each appended to what the decoder left.\<close>

fun read_chunks :: "'m decoder \<Rightarrow> bytes \<Rightarrow> bytes list \<Rightarrow> 'm outcome" where
  "read_chunks dec buf [] = ([], buf, None)"
| "read_chunks dec buf (c # cs) =
    (case decode_loop dec (buf @ c) of
       (ms, r, Some e) \<Rightarrow> (ms, r, Some e)
     | (ms, r, None) \<Rightarrow> prepend ms (read_chunks dec r cs))"

text \<open>
  Waiting for one item, as \<open>Framed\<close> does: decode what is buffered, read on while the
  decoder wants more. At the end of the stream left-over bytes are an error
  (\<open>Decoder::decode_eof\<close>). The outcome is the buffer, the reads still to come, and
  the item, or \<open>None\<close> when the stream has ended.
\<close>

primrec read_first :: "'m decoder \<Rightarrow> bytes \<Rightarrow> bytes list \<Rightarrow> (bytes \<times> bytes list) \<times> 'm option result" where
  "read_first dec buf [] =
    (case dec buf of
       (r, Inl e) \<Rightarrow> ((r, []), Inl e)
     | (r, Inr (Some m)) \<Rightarrow> ((r, []), Inr (Some m))
     | (r, Inr None) \<Rightarrow>
         ((r, []), if r = [] then Inr None else Inl (Io_Error ''bytes remaining on stream'')))"
| "read_first dec buf (c # cs) =
    (case dec buf of
       (r, Inl e) \<Rightarrow> ((r, c # cs), Inl e)
     | (r, Inr (Some m)) \<Rightarrow> ((r, c # cs), Inr (Some m))
     | (r, Inr None) \<Rightarrow> read_first dec (r @ c) cs)"

lemma prepend_simps [simp]:
  "prepend [] o1 = o1" "prepend ms (ns, r, e) = (ms @ ns, r, e)"
  "prepend ms (prepend ns o1) = prepend (ms @ ns) o1"
  by (auto simp: prepend_def split: prod.splits)

definition items :: "'m outcome \<Rightarrow> 'm list" where "items o1 = fst o1"
definition left_over :: "'m outcome \<Rightarrow> bytes" where "left_over o1 = fst (snd o1)"
definition failure :: "'m outcome \<Rightarrow> stomp_error option" where "failure o1 = snd (snd o1)"

lemma outcome_simps [simp]:
  "items (ms, r, e) = ms" "left_over (ms, r, e) = r" "failure (ms, r, e) = e"
  "items (prepend ms o1) = ms @ items o1" "left_over (prepend ms o1) = left_over o1"
  "failure (prepend ms o1) = failure o1"
  by (auto simp: items_def left_over_def failure_def prepend_def split: prod.splits)

text \<open>
  \<open>norm\<close> is the part of the input that matters; \<open>bound\<close> limits the inputs the
  laws speak about (a decoder may give up on longer ones).
\<close>

locale stream_decoder =
  fixes dec :: "'m decoder" and norm :: "bytes \<Rightarrow> bytes" and bound :: nat
  assumes dec_norm: "norm i = norm j \<Longrightarrow> dec i = dec j"
    and norm_append: "norm i = norm j \<Longrightarrow> norm (i @ x) = norm (j @ x)"
    and dec_item: "dec i = (r, Inr (Some m)) \<Longrightarrow> length (norm r) < length (norm i) \<and>
          length r < length i \<and> length (norm i) \<le> length i \<and>
          (\<exists>s. dec (i @ x) = (s, Inr (Some m)) \<and> norm s = norm (r @ x))"
    and dec_more: "dec i = (r, Inr None) \<Longrightarrow> norm r = norm i \<and> length r \<le> length i"
    and dec_fail: "dec i = (r, Inl e) \<Longrightarrow> length (i @ x) \<le> bound \<Longrightarrow> \<exists>s. dec (i @ x) = (s, Inl e)"
begin

lemma loop_norm: "norm i = norm j \<Longrightarrow> decode_loop dec i = decode_loop dec j"
proof -
  assume n: "norm i = norm j"
  obtain r y where d: "dec i = (r, y)" by (cases "dec i")
  then have d': "dec j = (r, y)" using dec_norm [OF n] by simp
  show ?thesis
  proof (cases "\<exists>m. y = Inr (Some m)")
    case True
    then obtain m where "y = Inr (Some m)" ..
    with d d' show ?thesis
      using dec_item [of i r m] dec_item [of j r m]
      by (simp add: decode_loop.simps [of dec i] decode_loop.simps [of dec j])
  next
    case False
    with d d' show ?thesis
      by (simp add: decode_loop.simps [of dec i] decode_loop.simps [of dec j]
          split: sum.splits option.splits)
  qed
qed

lemma loop_item:
  "dec i = (r, Inr (Some m)) \<Longrightarrow> decode_loop dec i = prepend [m] (decode_loop dec r)"
  using dec_item [of i r m] by (simp add: decode_loop.simps [of dec i])

lemma loop_left_length: "length (left_over (decode_loop dec i)) \<le> length i \<or>
  failure (decode_loop dec i) \<noteq> None"
proof (induction i rule: length_induct)
  case (1 i)
  obtain r y where d: "dec i = (r, y)" by (cases "dec i")
  consider e where "y = Inl e" | "y = Inr None" | m where "y = Inr (Some m)"
    by (cases y) auto
  then show ?case
  proof cases
    case (3 m)
    with d "1" show ?thesis using dec_item [of i r m] by (force simp: loop_item)
  qed (use d dec_more [of i r] in \<open>auto simp: decode_loop.simps [of dec i]\<close>)
qed

lemma loop_left_waits:
  "failure (decode_loop dec i) = None \<Longrightarrow> \<exists>r'. dec (left_over (decode_loop dec i)) = (r', Inr None)"
proof (induction i rule: length_induct)
  case (1 i)
  obtain r y where d: "dec i = (r, y)" by (cases "dec i")
  consider e where "y = Inl e" | "y = Inr None" | m where "y = Inr (Some m)"
    by (cases y) auto
  then show ?case
  proof cases
    case 2
    with d dec_more [of i r] dec_norm [of r i] show ?thesis
      by (simp add: decode_loop.simps [of dec i])
  next
    case (3 m)
    with d "1" show ?thesis using dec_item [of i r m] by (simp add: loop_item)
  qed (use d "1.prems" in \<open>simp add: decode_loop.simps [of dec i]\<close>)
qed

text \<open>Reading on after a pause gives what reading all at once gives.\<close>

lemma loop_append:
  assumes "length (i @ x) \<le> bound"
  shows "case decode_loop dec i of
      (ms, r, None) \<Rightarrow> decode_loop dec (i @ x) = prepend ms (decode_loop dec (r @ x))
    | (ms, r, Some e) \<Rightarrow>
        items (decode_loop dec (i @ x)) = ms \<and> failure (decode_loop dec (i @ x)) = Some e"
  using assms
proof (induction i rule: length_induct)
  case (1 i)
  obtain r y where d: "dec i = (r, y)" by (cases "dec i")
  consider e where "y = Inl e" | "y = Inr None" | m where "y = Inr (Some m)"
    by (cases y) auto
  then show ?case
  proof cases
    case (1 e)
    with d dec_fail [of i r e x] "1.prems" obtain s where "dec (i @ x) = (s, Inl e)" by auto
    with d 1 show ?thesis
      by (simp add: decode_loop.simps [of dec i] decode_loop.simps [of dec "i @ x"])
  next
    case 2
    with d dec_more [of i r] have "norm (r @ x) = norm (i @ x)" by (auto intro: norm_append)
    with d 2 loop_norm [of "r @ x" "i @ x"] show ?thesis
      by (simp add: decode_loop.simps [of dec i])
  next
    case (3 m)
    with d have di: "dec i = (r, Inr (Some m))" by simp
    from dec_item [OF this, of x] obtain s
      where s: "length r < length i" "dec (i @ x) = (s, Inr (Some m))" "norm s = norm (r @ x)"
      by blast
    have "decode_loop dec (i @ x) = prepend [m] (decode_loop dec (r @ x))"
      using loop_item [OF s(2)] loop_norm [OF s(3)] by simp
    with "1" s(1) loop_item [OF di] show ?thesis
      by (cases "decode_loop dec r") (force split: option.splits)
  qed
qed

lemma read_chunks_concat:
  assumes "length (buf @ concat cs) \<le> bound" and "dec buf = (buf', Inr None)"
  shows "items (read_chunks dec buf cs) = items (decode_loop dec (buf @ concat cs)) \<and>
         failure (read_chunks dec buf cs) = failure (decode_loop dec (buf @ concat cs))"
  using assms
proof (induction cs arbitrary: buf buf')
  case Nil
  then show ?case by (simp add: decode_loop.simps [of dec buf])
next
  case (Cons c cs)
  obtain ms r e where l: "decode_loop dec (buf @ c) = (ms, r, e)"
    by (cases "decode_loop dec (buf @ c)") auto
  have app: "case decode_loop dec (buf @ c) of
      (ms, r, None) \<Rightarrow> decode_loop dec ((buf @ c) @ concat cs) = prepend ms (decode_loop dec (r @ concat cs))
    | (ms, r, Some e) \<Rightarrow> items (decode_loop dec ((buf @ c) @ concat cs)) = ms \<and>
        failure (decode_loop dec ((buf @ c) @ concat cs)) = Some e"
    using Cons.prems by (intro loop_append) simp
  show ?case
  proof (cases e)
    case None
    have "length r \<le> length (buf @ c)"
      using loop_left_length [of "buf @ c"] l None by simp
    then have "length (r @ concat cs) \<le> bound" using Cons.prems(1) by simp
    moreover obtain r' where "dec r = (r', Inr None)"
      using loop_left_waits [of "buf @ c"] l None by auto
    ultimately show ?thesis
      using Cons.IH l None app by simp
  next
    case (Some e')
    with l app show ?thesis by auto
  qed
qed

text \<open>The first item of a stream is found however the stream is cut into reads.\<close>

lemma read_first_item:
  assumes "length (buf @ concat cs) \<le> bound" "dec (buf @ concat cs) = (r, Inr (Some m))"
  shows "\<exists>left cs'. read_first dec buf cs = ((left, cs'), Inr (Some m)) \<and>
    norm (left @ concat cs') = norm r \<and>
    length (left @ concat cs') \<le> length (buf @ concat cs)"
  using assms
proof (induction cs arbitrary: buf r)
  case Nil
  then have d: "dec buf = (r, Inr (Some m))" by simp
  have "length r \<le> length buf" using dec_item [OF d, of "[]"] by linarith
  with d show ?case by simp
next
  case (Cons c cs)
  obtain r0 y where d: "dec buf = (r0, y)" by (cases "dec buf")
  consider e where "y = Inl e" | "y = Inr None" | m0 where "y = Inr (Some m0)"
    by (cases y) auto
  then show ?case
  proof cases
    case (1 e)
    then show ?thesis using Cons.prems d dec_fail [of buf r0 e "concat (c # cs)"] by auto
  next
    case 2
    with d have r0: "norm r0 = norm buf" "length r0 \<le> length buf"
      using dec_more [of buf r0] by auto
    then have "norm ((r0 @ c) @ concat cs) = norm (buf @ concat (c # cs))"
      using norm_append [of r0 buf "c @ concat cs"] by simp
    then have "dec ((r0 @ c) @ concat cs) = (r, Inr (Some m))"
      using dec_norm Cons.prems(2) by metis
    moreover have "length ((r0 @ c) @ concat cs) \<le> bound" using r0(2) Cons.prems(1) by simp
    ultimately obtain left cs' where "read_first dec (r0 @ c) cs = ((left, cs'), Inr (Some m))"
      "norm (left @ concat cs') = norm r"
      "length (left @ concat cs') \<le> length ((r0 @ c) @ concat cs)"
      using Cons.IH [of "r0 @ c" r] by blast
    with d 2 r0(2) show ?thesis by simp
  next
    case (3 m0)
    with d dec_item [of buf r0 m0 "concat (c # cs)"] Cons.prems(2) show ?thesis by fastforce
  qed
qed

end

end
