(* ===== verification/Codec.thy ===== *)
theory Codec
  imports Client_Roundtrip Stream_Reader
begin

text \<open>
  \<open>ClientCodec\<close> of \<open>src/client.rs\<close>: the decoder that finds one frame at the front of
  the read buffer, and the two encoders. \<open>frame_decoder\<close> is the decoder on plain
  byte strings; \<open>decode\<close> refines it over any buffer and parser library with the
  documented behaviour, and never advances past the end of the buffer.
\<close>

section \<open>The codec\<close>

record client_codec =
  max_frame_size :: nat

definition DEFAULT_MAX_FRAME_SIZE :: nat where
  "DEFAULT_MAX_FRAME_SIZE = 104857600"

definition codec_default :: client_codec where
  "codec_default = \<lparr>max_frame_size = DEFAULT_MAX_FRAME_SIZE\<rparr>"

definition codec_new :: client_codec where
  "codec_new = codec_default"

definition with_max_frame_size :: "nat \<Rightarrow> client_codec" where
  "with_max_frame_size n = \<lparr>max_frame_size = n\<rparr>"

text \<open>\<open>Decoder::decode\<close>: the buffer afterwards and the result; \<open>None\<close> is a panic.\<close>

definition decode :: "winnow \<Rightarrow> 'b bytes_mut \<Rightarrow> client_codec \<Rightarrow> 'b \<Rightarrow>
    ('b \<times> from_server message option result) option" where
  "decode W B self src =
    (let heartbeats = length (takeWhile (\<lambda>b. b = LF \<or> b = CR) (bm_bytes B src))
     in case bm_advance B src heartbeats of
          None \<Rightarrow> None
        | Some src \<Rightarrow>
            if bm_bytes B src = [] then Some (src, Inr None)
            else
              (case parse_frame W (bm_chunk B src) of
                 POk frame buf \<Rightarrow>
                   (let item = server_message_from_frame frame;
                        len = w_offset_from W buf (bm_chunk B src)
                    in case bm_advance B src len of
                         None \<Rightarrow> None
                       | Some src \<Rightarrow> Some (src, rbind item (\<lambda>m. Inr (Some m))))
               | PIncomplete \<Rightarrow>
                   if max_frame_size self < length (bm_bytes B src)
                   then Some (src, Inl (Frame_Exceeds_Maximum (max_frame_size self)))
                   else Some (src, Inr None)
               | PBacktrack \<Rightarrow> Some (src, Inl Parse_Failed)
               | PCut \<Rightarrow> Some (src, Inl Parse_Failed)))"

text \<open>\<open>Encoder<Message<ToServer>>::encode\<close> and \<open>Encoder<Heartbeat>::encode\<close>.\<close>

definition encode_message :: "'b bytes_mut \<Rightarrow> to_server message \<Rightarrow> 'b \<Rightarrow> unit result \<times> 'b" where
  "encode_message B item dst = (Inr (), serialize B (message_to_frame item) dst)"

definition encode_heartbeat :: "'b bytes_mut \<Rightarrow> 'b \<Rightarrow> unit result \<times> 'b" where
  "encode_heartbeat B dst = (Inr (), bm_put_u8 B dst LF)"

text \<open>\<open>Outgoing\<close>: what is put on the wire, a frame or a bare heart-beat.\<close>

datatype outgoing = Message "to_server message" | Heartbeat

primrec encode_outgoing :: "'b bytes_mut \<Rightarrow> outgoing \<Rightarrow> 'b \<Rightarrow> unit result \<times> 'b" where
  "encode_outgoing B (Message m) dst = encode_message B m dst"
| "encode_outgoing B Heartbeat dst = encode_heartbeat B dst"

definition encode_all :: "'b bytes_mut \<Rightarrow> outgoing list \<Rightarrow> 'b \<Rightarrow> 'b" where
  "encode_all B its dst = fold (\<lambda>it b. snd (encode_outgoing B it b)) its dst"

text \<open>The decoder as a function of the unread bytes, on the buffer of \<open>Bytes_Mut\<close>.\<close>

definition decode_bytes :: "winnow \<Rightarrow> client_codec \<Rightarrow> from_server message decoder" where
  "decode_bytes W self i =
    (case decode W vec_bytes_mut self (vec_of i) of
       Some (b, r) \<Rightarrow> (vb_data b, r)
     | None \<Rightarrow> (i, Inl (Io_Error ''panic'')))"

section \<open>Decoding on byte strings\<close>

definition frame_decoder :: "(frame \<Rightarrow> 'm result) \<Rightarrow> nat \<Rightarrow> 'm decoder" where
  "frame_decoder conv limit i =
    (let s = dropWhile is_eol i in
     if s = [] then ([], Inr None)
     else
       (case frame_core s of
          POk f r \<Rightarrow> (skip_eol r, rbind (conv f) (\<lambda>m. Inr (Some m)))
        | PIncomplete \<Rightarrow>
            (s, if limit < length s then Inl (Frame_Exceeds_Maximum limit) else Inr None)
        | PBacktrack \<Rightarrow> (s, Inl Parse_Failed)
        | PCut \<Rightarrow> (s, Inl Parse_Failed)))"

lemma is_eol_alt: "is_eol = (\<lambda>b. b = LF \<or> b = CR)"
  by (rule ext) (simp add: is_eol_def)

lemma hd_dropWhile_eol: "dropWhile is_eol i = b # s \<Longrightarrow> \<not> is_eol b"
  by (metis hd_dropWhile list.distinct(1) list.sel(1))

lemma skip_eol_dropWhile: "skip_eol (dropWhile is_eol i) = dropWhile is_eol i"
  by (cases "dropWhile is_eol i") (auto dest: hd_dropWhile_eol)

lemma frame_parser_after_eols:
  "frame_parser (dropWhile is_eol i) =
   pbind frame_core (\<lambda>f r. POk f (skip_eol r)) (dropWhile is_eol i)"
  by (simp only: frame_parser_def skip_eol_dropWhile)

lemma frame_core_suffix: "frame_core s = POk f r \<Longrightarrow> strict_suffix r s"
  using progresses_frame_core by (auto simp: progresses_def)

lemma frame_core_skip_suffix: "frame_core s = POk f r \<Longrightarrow> strict_suffix (skip_eol r) s"
  using skip_eol_suffix frame_core_suffix suffix_order.le_less_trans by blast

lemma drop_to_suffix: "suffix r s \<Longrightarrow> drop (length s - length r) s = r"
  by (auto simp: suffix_def)

text \<open>
  The decoder of the code is the decoder on byte strings, whatever the buffer and
  the parser library are, and it does not panic.
\<close>

locale codec_libs = winnow_lib W + bytes_mut_lib B for W :: winnow and B :: "'b bytes_mut"
begin

lemma decode_refines:
  "\<exists>src'. decode W B self src =
      Some (src', snd (frame_decoder to_server_msg (max_frame_size self) (bm_bytes B src))) \<and>
    bm_bytes B src' = fst (frame_decoder to_server_msg (max_frame_size self) (bm_bytes B src))"
proof -
  let ?i = "bm_bytes B src"
  let ?s = "dropWhile is_eol ?i"
  have "length (takeWhile is_eol ?i) \<le> length ?i" by (rule length_takeWhile_le)
  from advanceE [OF this] obtain src1
    where adv: "bm_advance B src (length (takeWhile is_eol ?i)) = Some src1" "bm_bytes B src1 = ?s"
    by (metis drop_takeWhile_length)
  have parse: "parse_frame W ?s = pbind frame_core (\<lambda>f r. POk f (skip_eol r)) ?s"
    by (simp add: parse_frame_ref frame_parser_after_eols)
  show ?thesis
  proof (cases "?s = [] \<or> (\<forall>f r. frame_core ?s \<noteq> POk f r)")
    case True
    then show ?thesis
      using adv parse
      by (cases "frame_core ?s")
        (auto simp: decode_def frame_decoder_def is_eol_alt [symmetric] Let_def pbind_def)
  next
    case False
    then obtain f r where fr: "?s \<noteq> []" "frame_core ?s = POk f r" by blast
    have suf: "suffix (skip_eol r) ?s"
      using frame_core_skip_suffix [OF fr(2)] by (simp add: strict_suffix_def)
    then have off: "w_offset_from W (skip_eol r) ?s = length ?s - length (skip_eol r)"
      by (rule offset_from)
    obtain src2 where "bm_advance B src1 (length ?s - length (skip_eol r)) = Some src2"
      "bm_bytes B src2 = skip_eol r"
      using advanceE [of "length ?s - length (skip_eol r)" src1] adv(2) drop_to_suffix [OF suf]
      by (metis diff_le_self)
    with adv parse fr off show ?thesis
      by (simp add: decode_def frame_decoder_def is_eol_alt [symmetric] Let_def pbind_def
          del: dropWhile_eq_Nil_conv)
  qed
qed

lemma decode_result:
  "map_option snd (decode W B self src) =
   Some (snd (frame_decoder to_server_msg (max_frame_size self) (bm_bytes B src)))"
  using decode_refines [of self src] by auto

lemma encode_message_bytes:
  "bm_bytes B (snd (encode_message B m dst)) = bm_bytes B dst @ wire (message_to_frame m)"
  by (simp add: encode_message_def serialize_bytes)

lemma encode_heartbeat_bytes: "bm_bytes B (snd (encode_heartbeat B dst)) = bm_bytes B dst @ [LF]"
  by (simp add: encode_heartbeat_def)

end

interpretation run: codec_libs winnow_ref vec_bytes_mut
  by (rule codec_libs.intro) (rule wref.winnow_lib_axioms, rule vec.bytes_mut_lib_axioms)

lemma decode_bytes_eq:
  assumes "winnow_lib W"
  shows "decode_bytes W self = frame_decoder to_server_msg (max_frame_size self)"
proof
  fix i
  show "decode_bytes W self i = frame_decoder to_server_msg (max_frame_size self) i"
    using codec_libs.decode_refines [OF codec_libs.intro [OF assms vec.bytes_mut_lib_axioms],
        of self "vec_of i"]
    by (auto simp: decode_bytes_def)
qed

section \<open>The decoder reads a stream\<close>

lemma dropWhile_append_cong:
  "dropWhile P i = dropWhile P j \<Longrightarrow> dropWhile P (i @ x) = dropWhile P (j @ x)"
  by (metis dropWhile_append dropWhile_eq_Nil_conv)

lemma dropWhile_append_nonempty: "dropWhile P i \<noteq> [] \<Longrightarrow> dropWhile P (i @ x) = dropWhile P i @ x"
  by (metis dropWhile_append dropWhile_eq_Nil_conv)

lemma frame_decoder_norm:
  "dropWhile is_eol i = dropWhile is_eol j \<Longrightarrow> frame_decoder conv limit i = frame_decoder conv limit j"
  by (simp add: frame_decoder_def)

lemma frame_core_append: "frame_core s = POk f r \<Longrightarrow> frame_core (s @ x) = POk f (r @ x)"
  using stableD [OF stable_frame_core, of s x] by simp

lemma frame_decoder_item:
  assumes "frame_decoder conv limit i = (r, Inr (Some m))"
  obtains f t where "frame_core (dropWhile is_eol i) = POk f t" "r = skip_eol t" "conv f = Inr m"
    "dropWhile is_eol i \<noteq> []"
  using assms by (auto simp: frame_decoder_def Let_def rbind_eq_Inr split: pres.splits if_splits)

lemma frame_decoder_append:
  assumes "frame_core (dropWhile is_eol i) = POk f t" "dropWhile is_eol i \<noteq> []"
  shows "frame_decoder conv limit (i @ x) = (skip_eol (t @ x), rbind (conv f) (\<lambda>m. Inr (Some m)))"
  using assms frame_core_append [OF assms(1), of x]
  by (simp add: frame_decoder_def Let_def dropWhile_append_nonempty del: dropWhile_eq_Nil_conv)

lemma dropWhile_skip_append [simp]:
  "dropWhile is_eol (skip_eol t @ x) = dropWhile is_eol (t @ x)"
  by (rule dropWhile_append_cong) simp

lemma frame_decoder_stream: "stream_decoder (frame_decoder conv limit) (dropWhile is_eol) limit"
proof
  fix i j x :: bytes
  show "dropWhile is_eol i = dropWhile is_eol j \<Longrightarrow>
    frame_decoder conv limit i = frame_decoder conv limit j"
    by (rule frame_decoder_norm)
  show "dropWhile is_eol i = dropWhile is_eol j \<Longrightarrow>
    dropWhile is_eol (i @ x) = dropWhile is_eol (j @ x)"
    by (rule dropWhile_append_cong)
next
  fix i r x :: bytes and m
  assume "frame_decoder conv limit i = (r, Inr (Some m))"
  then obtain f t where t: "frame_core (dropWhile is_eol i) = POk f t" "r = skip_eol t"
    "conv f = Inr m" "dropWhile is_eol i \<noteq> []"
    by (rule frame_decoder_item)
  have "length r < length (dropWhile is_eol i)"
    using frame_core_skip_suffix [OF t(1)] t(2) by (auto dest: suffix_length_less)
  moreover have "length (dropWhile is_eol r) \<le> length r" "length (dropWhile is_eol i) \<le> length i"
    by (rule length_dropWhile_le)+
  ultimately show "length (dropWhile is_eol r) < length (dropWhile is_eol i) \<and> length r < length i \<and>
      length (dropWhile is_eol i) \<le> length i \<and>
      (\<exists>s. frame_decoder conv limit (i @ x) = (s, Inr (Some m)) \<and>
           dropWhile is_eol s = dropWhile is_eol (r @ x))"
    using frame_decoder_append [OF t(1,4), of conv limit x] t
    by simp
next
  fix i r :: bytes
  assume "frame_decoder conv limit i = (r, Inr None)"
  then have "r = dropWhile is_eol i"
    by (auto simp: frame_decoder_def Let_def rbind_eq_Inr split: pres.splits if_splits)
  then show "dropWhile is_eol r = dropWhile is_eol i \<and> length r \<le> length i"
    by (simp add: length_dropWhile_le)
next
  fix i r x :: bytes and e
  assume fail: "frame_decoder conv limit i = (r, Inl e)" and len: "length (i @ x) \<le> limit"
  let ?s = "dropWhile is_eol i"
  have short: "length ?s \<le> limit" using length_dropWhile_le [of is_eol i] len by simp
  have ne: "?s \<noteq> []" using fail by (auto simp: frame_decoder_def Let_def split: if_splits)
  then have app: "dropWhile is_eol (i @ x) = ?s @ x" by (rule dropWhile_append_nonempty)
  show "\<exists>s. frame_decoder conv limit (i @ x) = (s, Inl e)"
  proof (cases "frame_core ?s")
    case (POk f t)
    with fail show ?thesis
      using frame_decoder_append [OF POk ne, of conv limit x]
        frame_decoder_append [OF POk ne, of conv limit "[]"]
      by (simp add: rbind_eq_Inl)
  qed (use fail ne short app stableD [OF stable_frame_core, of ?s x] in
      \<open>auto simp: frame_decoder_def Let_def simp del: dropWhile_eq_Nil_conv\<close>)
qed

text \<open>The client's decoder, and the reader a server with the same grammar would run.\<close>

interpretation client_reader: stream_decoder "frame_decoder to_server_msg limit" "dropWhile is_eol" limit
  for limit by (rule frame_decoder_stream)

interpretation server_reader: stream_decoder "frame_decoder to_client_msg limit" "dropWhile is_eol" limit
  for limit by (rule frame_decoder_stream)

section \<open>A session of the client, read by a server\<close>

primrec wire_item :: "outgoing \<Rightarrow> bytes" where
  "wire_item (Message m) = wire (message_to_frame m)"
| "wire_item Heartbeat = [LF]"

context bytes_mut_lib
begin

lemma encode_all_bytes:
  "bm_bytes B (encode_all B its dst) = bm_bytes B dst @ concat (map wire_item its)"
  unfolding encode_all_def
proof (rule fold_appends)
  fix it b
  show "bm_bytes B (snd (encode_outgoing B it b)) = bm_bytes B b @ wire_item it"
    by (cases it) (simp_all add: encode_message_def encode_heartbeat_def serialize_bytes)
qed

end

lemma frame_decoder_wire:
  assumes "frame_ok f" "conv (wire_frame f) = Inr m"
  shows "frame_decoder conv limit (wire f @ r) = (skip_eol r, Inr (Some m))"
proof -
  obtain b s where w: "wire f = b # s" "\<not> is_eol b" using assms(1) by (rule wire_starts)
  then have "dropWhile is_eol (wire f @ r) = wire f @ r" by simp
  with w frame_core_wire [OF assms(1), of r] assms(2) show ?thesis
    by (simp add: frame_decoder_def Let_def)
qed

lemma frame_decoder_Nil: "frame_decoder conv limit [] = ([], Inr None)"
  by (simp add: frame_decoder_def)

lemma reader_wire:
  assumes "frame_ok f" "conv (wire_frame f) = Inr m"
  shows "decode_loop (frame_decoder conv limit) (wire f @ r) =
    prepend [m] (decode_loop (frame_decoder conv limit) r)"
proof -
  have sd: "stream_decoder (frame_decoder conv limit) (dropWhile is_eol) limit"
    by (rule frame_decoder_stream)
  show ?thesis
    using stream_decoder.loop_item [OF sd frame_decoder_wire [of f conv m limit r, OF assms]]
      stream_decoder.loop_norm [OF sd, of "skip_eol r" r]
    by simp
qed

lemma reader_heartbeat:
  "decode_loop (frame_decoder conv limit) (LF # r) = decode_loop (frame_decoder conv limit) r"
  by (rule stream_decoder.loop_norm [OF frame_decoder_stream [of conv limit]]) simp

definition sent_messages :: "outgoing list \<Rightarrow> to_server message list" where
  "sent_messages its = List.map_filter (\<lambda>it. case it of Message m \<Rightarrow> Some m | Heartbeat \<Rightarrow> None) its"

primrec sendable_item :: "outgoing \<Rightarrow> bool" where
  "sendable_item Heartbeat \<longleftrightarrow> True"
| "sendable_item (Message m) \<longleftrightarrow> sendable_message m"

lemma session_read_back:
  "list_all sendable_item its \<Longrightarrow>
   decode_loop (frame_decoder to_client_msg limit) (concat (map wire_item its)) =
     (map received_message (sent_messages its), [], None)"
proof (induction its)
  case Nil
  show ?case by (simp add: decode_loop.simps frame_decoder_Nil sent_messages_def)
next
  case (Cons it its)
  show ?case
  proof (cases it)
    case Heartbeat
    with Cons show ?thesis by (simp add: reader_heartbeat sent_messages_def)
  next
    case (Message m)
    with Cons.prems have m: "sendable_message m" by simp
    have "decode_loop (frame_decoder to_client_msg limit)
        (wire (message_to_frame m) @ concat (map wire_item its)) =
      prepend [received_message m]
        (decode_loop (frame_decoder to_client_msg limit) (concat (map wire_item its)))"
      by (intro reader_wire sendable_message_ok to_client_msg_wire_extra m)
    with Cons Message show ?thesis by (simp add: sent_messages_def)
  qed
qed

text \<open>The same bytes in whatever reads.\<close>

lemma session_read_chunks:
  assumes "list_all sendable_item its" and "concat chunks = concat (map wire_item its)"
    and "length (concat chunks) \<le> limit"
  shows "items (read_chunks (frame_decoder to_client_msg limit) [] chunks) = map received_message (sent_messages its) \<and>
    failure (read_chunks (frame_decoder to_client_msg limit) [] chunks) = None"
  using server_reader.read_chunks_concat [of "[]" chunks limit "[]"]
    session_read_back [OF assms(1), of limit] assms(2,3)
  by (simp add: frame_decoder_Nil)

lemma sent_messages_simps [simp]:
  "sent_messages [] = []" "sent_messages (Message m # its) = m # sent_messages its"
  "sent_messages (Heartbeat # its) = sent_messages its"
  "sent_messages (xs @ ys) = sent_messages xs @ sent_messages ys"
  by (simp_all add: sent_messages_def)

section \<open>What a server sends\<close>

text \<open>
  The frame of a server message, as the STOMP 1.2 specification lays it out: it is
  the counterpart of \<open>to_server_to_frame\<close> that the crate does not contain. A MESSAGE
  is given by all of its headers.
\<close>

fun server_frame :: "from_server \<Rightarrow> frame" where
  "server_frame (Connected v s r h) =
     frame_new ''CONNECTED''
       [(''version'', Some v), (''session'', s), (''server'', r), (''heart-beat'', h)] None"
| "server_frame (Msg d m s a hs b) = \<lparr>fr_command = ''MESSAGE'', fr_headers = hs, fr_body = b\<rparr>"
| "server_frame (Receipt r) = frame_new ''RECEIPT'' [(''receipt-id'', Some r)] None"
| "server_frame (Error m b) = frame_new ''ERROR'' [(''message'', m)] b"

fun server_extra :: "from_server \<Rightarrow> header list" where
  "server_extra (Msg d m s a hs b) =
     map (escape_header True)
       (filter (\<lambda>(k, _). k \<notin> set [''destination'', ''message-id'', ''subscription'', ''ack'']) hs)"
| "server_extra m = []"

fun server_ok :: "from_server \<Rightarrow> bool" where
  "server_ok (Connected v s r h) \<longleftrightarrow> no_eol v \<and> opt_no_eol s \<and> opt_no_eol r \<and> opt_no_eol h"
| "server_ok (Msg d m s a hs b) \<longleftrightarrow>
     list_all (\<lambda>(k, v). plain_name k) hs \<and>
     map_of hs ''destination'' = Some d \<and> map_of hs ''message-id'' = Some m \<and>
     map_of hs ''subscription'' = Some s \<and> map_of hs ''ack'' = a \<and>
     body_ok (map (escape_header True) hs) b"
| "server_ok (Receipt r) \<longleftrightarrow> True"
| "server_ok (Error m b) \<longleftrightarrow> (case b of None \<Rightarrow> True | Some x \<Rightarrow> x \<noteq> [] \<and> NUL \<notin> set x)"

lemma plain_names_server [simp]:
  "plain_name ''version''" "plain_name ''session''" "plain_name ''server''"
  by (simp_all add: plain_name_def)

lemma server_frame_ok: "server_ok m \<Longrightarrow> frame_ok (server_frame m)"
  by (cases m)
    (auto simp: frame_ok_def wire_headers_def body_ok_def opt_no_eol_def no_eol_value_ok is_alpha_def
      list_all_iff split: option.splits)

lemma fetch_escaped_header:
  assumes "list_all (\<lambda>(k, v). plain_name k) hs" "headers_utf8 hs"
  shows "fetch_header (map (escape_header True) hs) n = map_of hs n"
proof -
  have "map_of hs n = Some v \<Longrightarrow> utf8_valid v" for v
    using assms(2) by (auto simp: headers_utf8_def dest: map_of_SomeD)
  then show ?thesis
    by (cases "map_of hs n")
      (simp_all add: fetch_header_eq map_of_escape_headers [OF assms(1)] unescape_escape_text)
qed

lemma all_headers_escaped:
  "list_all (\<lambda>(k, v). plain_name k) hs \<Longrightarrow> headers_utf8 hs \<Longrightarrow>
   all_headers (map (escape_header True) hs) = Inr hs"
  by (simp add: all_headers_Inr unescape_headers del: map_map)

lemma filter_escape_headers:
  "list_all (\<lambda>(k, v). plain_name k) hs \<Longrightarrow>
   filter (\<lambda>(k, _). k \<notin> K) (map (escape_header True) hs) =
   map (escape_header True) (filter (\<lambda>(k, _). k \<notin> K) hs)"
  by (induction hs) auto

lemma to_server_msg_wire:
  assumes "server_ok m" "from_server_utf8 m"
  shows "to_server_msg (wire_frame (server_frame m)) =
    Inr \<lparr>content = m, extra_headers = server_extra m\<rparr>"
proof (cases m)
  case (Msg d i s a hs b)
  with assms have hs: "list_all (\<lambda>(k, v). plain_name k) hs" "headers_utf8 hs" by simp_all
  have wh: "wire_headers (server_frame m) = map (escape_header True) hs"
    by (simp add: Msg wire_headers_def)
  show ?thesis
    using assms fetch_escaped_header [OF hs] all_headers_escaped [OF hs] filter_escape_headers [OF hs(1)]
    by (simp add: to_server_msg_def to_server_content_def wh Let_def expect_header_def)
      (simp add: Msg)
qed (use assms in \<open>auto simp: to_server_msg_def to_server_content_def wire_headers_def Let_def
      unescape_escape_text split: option.splits\<close>)

lemma frame_decoder_server:
  "server_ok m \<Longrightarrow> from_server_utf8 m \<Longrightarrow>
   frame_decoder to_server_msg limit (wire (server_frame m) @ r) =
     (skip_eol r, Inr (Some \<lparr>content = m, extra_headers = server_extra m\<rparr>))"
  by (intro frame_decoder_wire server_frame_ok to_server_msg_wire)

section \<open>A session of the server, read by the client\<close>

text \<open>A server message after some heart-beats, as bytes and as what the client gets.\<close>

definition server_item :: "bytes \<times> from_server \<Rightarrow> bytes" where
  "server_item p = (case p of (es, m) \<Rightarrow> es @ wire (server_frame m))"

definition server_item_ok :: "bytes \<times> from_server \<Rightarrow> bool" where
  "server_item_ok p \<longleftrightarrow> (case p of (es, m) \<Rightarrow> list_all is_eol es \<and> server_ok m \<and> from_server_utf8 m)"

definition delivered :: "bytes \<times> from_server \<Rightarrow> from_server message" where
  "delivered p = (case p of (es, m) \<Rightarrow> \<lparr>content = m, extra_headers = server_extra m\<rparr>)"

lemma server_item_pair [simp]:
  "server_item (es, m) = es @ wire (server_frame m)"
  "server_item_ok (es, m) \<longleftrightarrow> list_all is_eol es \<and> server_ok m \<and> from_server_utf8 m"
  "delivered (es, m) = \<lparr>content = m, extra_headers = server_extra m\<rparr>"
  by (simp_all add: server_item_def server_item_ok_def delivered_def)

lemma reader_eols:
  assumes "list_all is_eol es"
  shows "decode_loop (frame_decoder conv limit) (es @ i) = decode_loop (frame_decoder conv limit) i"
proof (rule stream_decoder.loop_norm [OF frame_decoder_stream [of conv limit]])
  show "dropWhile is_eol (es @ i) = dropWhile is_eol i" using assms by (rule dropWhile_skip_all)
qed

lemma server_session:
  "list_all server_item_ok ps \<Longrightarrow> list_all is_eol es \<Longrightarrow>
   decode_loop (frame_decoder to_server_msg limit) (concat (map server_item ps) @ es) =
     (map delivered ps, [], None)"
proof (induction ps)
  case Nil
  then show ?case
    using reader_eols [of es to_server_msg limit "[]"]
    by (simp add: decode_loop.simps [of _ "[]"] frame_decoder_Nil)
next
  case (Cons p ps)
  obtain hs m where p: "p = (hs, m)" by (cases p)
  with Cons.prems have m: "list_all is_eol hs" "server_ok m" "from_server_utf8 m"
    by simp_all
  have "decode_loop (frame_decoder to_server_msg limit)
      (wire (server_frame m) @ concat (map server_item ps) @ es) =
    prepend [delivered p] (decode_loop (frame_decoder to_server_msg limit)
      (concat (map server_item ps) @ es))"
    unfolding p server_item_pair
    by (intro reader_wire server_frame_ok to_server_msg_wire m)
  with Cons p m show ?case by (simp add: reader_eols)
qed

text \<open>At the end of a stream of line ends there is nothing to read.\<close>

lemma read_first_eols:
  "dropWhile is_eol (buf @ concat cs) = [] \<Longrightarrow>
   read_first (frame_decoder conv limit) buf cs = (([], []), Inr None)"
proof (induction cs arbitrary: buf)
  case Nil
  then show ?case by (simp add: frame_decoder_def del: dropWhile_eq_Nil_conv)
next
  case (Cons c cs)
  then have "dropWhile is_eol buf = []" "dropWhile is_eol (c @ concat cs) = []" by auto
  with Cons.IH [of c] show ?case by (simp add: frame_decoder_def del: dropWhile_eq_Nil_conv)
qed

end
