(* ===== verification/Codec_Properties.thy ===== *)
theory Codec_Properties
  imports Codec
begin

text \<open>
  What the frame layer and the codec promise, stated over every parser library with
  the behaviour of \<open>winnow_lib\<close> and every buffer with that of \<open>bytes_mut_lib\<close>. The
  closed examples run the definitions on the reference library and a vector buffer.
\<close>

section \<open>Serialization and parsing\<close>

lemma empty_buffer_wire:
  "bytes_mut_lib B \<Longrightarrow> bm_bytes B buf = [] \<Longrightarrow> bm_bytes B (serialize B f buf) = wire f"
  by (simp add: bytes_mut_lib.serialize_bytes)

lemma ascii_texts [simp]:
  "utf8_valid ''q''" "utf8_valid ''a:b''" "utf8_valid ''1''" "utf8_valid ''s''" "utf8_valid ''m''"
  "utf8_valid ''k''"
  by (rule utf8_valid_ascii, simp add: ascii_def byte_in_def)+



text \<open>
  Escaping. What \<open>write_escaped\<close> writes of a text with escaping on contains no
  line end and no colon, and \<open>unescape_header_value\<close> gives the text back, whatever
  bytes it had; with escaping off the text is written as it is.
\<close>

theorem escaping_roundtrip:
  assumes "bytes_mut_lib B" and "bm_bytes B buf = []"
  shows "unescape_header_value (bm_bytes B (write_text B True s buf)) = s \<and>
    set (bm_bytes B (write_text B True s buf)) \<inter> {CR, LF, COLON} = {} \<and>
    bm_bytes B (write_text B False s buf) = s"
  using escape_text_clean [of _ s]
  by (auto simp: bytes_mut_lib.write_text_bytes [OF assms(1)] assms(2) unescape_escape_text is_eol_def)

theorem escaping_roundtrip_witness:
  "unescape_header_value (bm_bytes vec_bytes_mut (write_text vec_bytes_mut True ''a:b'' (vec_of []))) =
     ''a:b'' \<and>
   set (bm_bytes vec_bytes_mut (write_text vec_bytes_mut True ''a:b'' (vec_of []))) \<inter> {CR, LF, COLON} = {} \<and>
   bm_bytes vec_bytes_mut (write_text vec_bytes_mut False ''a:b'' (vec_of [])) = ''a:b''"
  by (rule escaping_roundtrip [OF vec.bytes_mut_lib_axioms]) simp



section \<open>The decoder\<close>

lemma decode_frame_decoder:
  assumes "winnow_lib W" "bytes_mut_lib B"
  obtains src' where
    "decode W B self src =
       Some (src', snd (frame_decoder to_server_msg (max_frame_size self) (bm_bytes B src)))"
    "bm_bytes B src' = fst (frame_decoder to_server_msg (max_frame_size self) (bm_bytes B src))"
  using codec_libs.decode_refines [OF codec_libs.intro [OF assms]] by blast

lemma decode_SomeE:
  assumes "winnow_lib W" "bytes_mut_lib B" "decode W B self src = Some (src', x)"
  shows "frame_decoder to_server_msg (max_frame_size self) (bm_bytes B src) = (bm_bytes B src', x)"
proof -
  obtain s where
    "decode W B self src =
       Some (s, snd (frame_decoder to_server_msg (max_frame_size self) (bm_bytes B src)))"
    "bm_bytes B s = fst (frame_decoder to_server_msg (max_frame_size self) (bm_bytes B src))"
    by (rule decode_frame_decoder [OF assms(1,2)])
  with assms(3) show ?thesis by (auto intro: prod_eqI)
qed

text \<open>
  C16: the decoder refines its specification and never panics. For every buffer and
  parser library the result and the bytes left in the buffer are those of
  \<open>frame_decoder\<close>: drop leading line ends; nothing left, or a frame still incomplete
  and not longer than the bound, asks for more; an incomplete frame beyond the bound
  and a malformed one are errors; a complete frame is converted and consumed.
\<close>

theorem decode_refines_spec:
  assumes "winnow_lib W" and "bytes_mut_lib B"
  shows "\<exists>src'. decode W B self src =
      Some (src', snd (frame_decoder to_server_msg (max_frame_size self) (bm_bytes B src))) \<and>
    bm_bytes B src' = fst (frame_decoder to_server_msg (max_frame_size self) (bm_bytes B src))"
  by (rule codec_libs.decode_refines [OF codec_libs.intro [OF assms]])

theorem decode_refines_spec_witness:
  "\<exists>src'. decode winnow_ref vec_bytes_mut codec_new (vec_of ''m'') =
      Some (src', snd (frame_decoder to_server_msg (max_frame_size codec_new)
        (bm_bytes vec_bytes_mut (vec_of ''m'')))) \<and>
    bm_bytes vec_bytes_mut src' = fst (frame_decoder to_server_msg (max_frame_size codec_new)
        (bm_bytes vec_bytes_mut (vec_of ''m'')))"
  by (rule decode_refines_spec [OF wref.winnow_lib_axioms vec.bytes_mut_lib_axioms])

text \<open>
  C19: what a conforming server sends is received. After any number of heart-beats the
  frame of a server message decodes to that message, its header values unescaped, and
  exactly the frame (with one line end after it) leaves the buffer. This holds for
  every bound: a complete frame is never refused for its size.
\<close>

theorem server_message_decoded:
  assumes "winnow_lib W" and "bytes_mut_lib B" and "list_all is_eol es"
    and "server_ok m" and "from_server_utf8 m"
    and "bm_bytes B src = es @ wire (server_frame m) @ r"
  shows "\<exists>src'. decode W B self src =
      Some (src', Inr (Some \<lparr>content = m, extra_headers = server_extra m\<rparr>)) \<and>
    bm_bytes B src' = skip_eol r"
proof -
  have "dropWhile is_eol (es @ wire (server_frame m) @ r) = dropWhile is_eol (wire (server_frame m) @ r)"
    using assms(3) by (rule dropWhile_skip_all)
  then have "frame_decoder to_server_msg (max_frame_size self) (bm_bytes B src) =
    (skip_eol r, Inr (Some \<lparr>content = m, extra_headers = server_extra m\<rparr>))"
    unfolding assms(6)
    using frame_decoder_norm frame_decoder_wire [OF server_frame_ok [OF assms(4)], of to_server_msg]
      to_server_msg_wire [OF assms(4,5)] by metis
  then show ?thesis
    using decode_frame_decoder [OF assms(1,2), of self src] by (metis fst_conv snd_conv)
qed

theorem server_message_decoded_witness:
  "\<exists>src'. decode winnow_ref vec_bytes_mut (with_max_frame_size 1)
        (vec_of ([LF, CR] @ wire (server_frame (Error (Some ''m'') (Some ''q''))) @ [LF])) =
      Some (src', Inr (Some \<lparr>content = Error (Some ''m'') (Some ''q''),
                             extra_headers = server_extra (Error (Some ''m'') (Some ''q''))\<rparr>)) \<and>
    bm_bytes vec_bytes_mut src' = skip_eol [LF]"
  by (rule server_message_decoded [OF wref.winnow_lib_axioms vec.bytes_mut_lib_axioms])
    (simp_all add: is_eol_def)



text \<open>
  C22: the bound on buffered data. When the decoder asks for more bytes, what stays in
  the buffer is the input without its leading line ends and is no longer than the
  bound; it refuses a frame for its size exactly when what is buffered is longer than
  the bound and still not a complete frame.
\<close>

theorem decode_bounds_buffer:
  assumes "winnow_lib W" and "bytes_mut_lib B" and "decode W B self src = Some (src', x)"
  shows "(x = Inr None \<longrightarrow>
      bm_bytes B src' = dropWhile is_eol (bm_bytes B src) \<and>
      length (bm_bytes B src') \<le> max_frame_size self) \<and>
    ((\<exists>n. x = Inl (Frame_Exceeds_Maximum n)) \<longleftrightarrow>
      max_frame_size self < length (dropWhile is_eol (bm_bytes B src)) \<and>
      frame_core (dropWhile is_eol (bm_bytes B src)) = PIncomplete)"
  using decode_SomeE [OF assms]
  by (auto simp: frame_decoder_def Let_def rbind_eq_Inr rbind_eq_Inl
      split: pres.splits if_splits simp del: dropWhile_eq_Nil_conv)

theorem decode_bounds_buffer_witness:
  "\<exists>src'. decode winnow_ref vec_bytes_mut codec_new (vec_of [LF, CHR ''M'']) = Some (src', Inr None) \<and>
    bm_bytes vec_bytes_mut src' = [CHR ''M''] \<and>
    length (bm_bytes vec_bytes_mut src') \<le> max_frame_size codec_new"
proof -
  have "frame_core [CHR ''M''] = PIncomplete" by code_simp
  then have "frame_decoder to_server_msg (max_frame_size codec_new) [LF, CHR ''M''] =
      ([CHR ''M''], Inr None)"
    by (simp add: frame_decoder_def is_eol_def codec_new_def codec_default_def DEFAULT_MAX_FRAME_SIZE_def)
  moreover obtain s where "decode winnow_ref vec_bytes_mut codec_new (vec_of [LF, CHR ''M'']) =
      Some (s, snd (frame_decoder to_server_msg (max_frame_size codec_new)
        (bm_bytes vec_bytes_mut (vec_of [LF, CHR ''M'']))))"
    by (rule decode_frame_decoder [OF wref.winnow_lib_axioms vec.bytes_mut_lib_axioms])
  ultimately have d: "decode winnow_ref vec_bytes_mut codec_new (vec_of [LF, CHR ''M'']) =
      Some (s, Inr None)" by simp
  from decode_bounds_buffer [OF wref.winnow_lib_axioms vec.bytes_mut_lib_axioms this]
  show ?thesis using d by (intro exI [of _ s]) (auto simp: is_eol_def)
qed

text \<open>
  C23: progress and well-typedness. Every message the decoder yields has taken at least
  one byte from the front of the buffer and left the rest untouched, so a reader
  cannot spin; and every text field of the message is valid UTF-8, as \<open>String\<close>
  requires.
\<close>

theorem decode_progress_utf8:
  assumes "winnow_lib W" and "bytes_mut_lib B"
    and "decode W B self src = Some (src', Inr (Some m))"
  shows "strict_suffix (bm_bytes B src') (bm_bytes B src) \<and> from_server_utf8 (content m)"
proof -
  obtain f t where t: "frame_core (dropWhile is_eol (bm_bytes B src)) = POk f t"
    "bm_bytes B src' = skip_eol t" "to_server_msg f = Inr m"
    using frame_decoder_item [OF decode_SomeE [OF assms]] by metis
  have "from_server_utf8 (content m)"
    using t(3) to_server_content_utf8 by (auto simp: to_server_msg_def rbind_eq_Inr)
  moreover have "strict_suffix (bm_bytes B src') (bm_bytes B src)"
    using frame_core_skip_suffix [OF t(1)] suffix_dropWhile [of is_eol "bm_bytes B src"] t(2)
    by (auto intro: suffix_order.less_le_trans)
  ultimately show ?thesis by blast
qed

lemma receipt_decodes:
  obtains s where "decode winnow_ref vec_bytes_mut codec_new
      (vec_of ([] @ wire (server_frame (Receipt ''1'')) @ [])) =
    Some (s, Inr (Some \<lparr>content = Receipt ''1'', extra_headers = []\<rparr>))"
proof -
  have "frame_decoder to_server_msg (max_frame_size codec_new)
      ([] @ wire (server_frame (Receipt ''1'')) @ []) =
    (skip_eol [], Inr (Some \<lparr>content = Receipt ''1'', extra_headers = server_extra (Receipt ''1'')\<rparr>))"
    using frame_decoder_wire [OF server_frame_ok, of "Receipt ''1''" to_server_msg _ _ "[]"]
      to_server_msg_wire [of "Receipt ''1''"] by simp
  then show thesis
    using that decode_frame_decoder [OF wref.winnow_lib_axioms vec.bytes_mut_lib_axioms,
        of codec_new "vec_of ([] @ wire (server_frame (Receipt ''1'')) @ [])"]
    by (metis snd_conv server_extra.simps(3) vec_bytes)
qed

theorem decode_progress_utf8_witness:
  "\<exists>s m. decode winnow_ref vec_bytes_mut codec_new
        (vec_of ([] @ wire (server_frame (Receipt ''1'')) @ [])) = Some (s, Inr (Some m)) \<and>
    strict_suffix (bm_bytes vec_bytes_mut s)
      (bm_bytes vec_bytes_mut (vec_of ([] @ wire (server_frame (Receipt ''1'')) @ []))) \<and>
    from_server_utf8 (content m)"
proof -
  obtain s where "decode winnow_ref vec_bytes_mut codec_new
      (vec_of ([] @ wire (server_frame (Receipt ''1'')) @ [])) =
    Some (s, Inr (Some \<lparr>content = Receipt ''1'', extra_headers = []\<rparr>))"
    by (rule receipt_decodes)
  with decode_progress_utf8 [OF wref.winnow_lib_axioms vec.bytes_mut_lib_axioms this]
  show ?thesis by blast
qed

text \<open>
  Heart-beats are silent. A buffer of line ends only is emptied and yields nothing,
  and line ends in front of anything else change neither the result nor what is left.
\<close>

theorem heartbeats_are_silent:
  assumes "winnow_lib W" and "bytes_mut_lib B" and "list_all is_eol es"
    and "bm_bytes B src = es @ i" and "bm_bytes B src0 = i"
  shows "\<exists>s s0 x. decode W B self src = Some (s, x) \<and> decode W B self src0 = Some (s0, x) \<and>
    bm_bytes B s = bm_bytes B s0 \<and> (i = [] \<longrightarrow> x = Inr None \<and> bm_bytes B s = [])"
proof -
  have "dropWhile is_eol (es @ i) = dropWhile is_eol i"
    using assms(3) by (rule dropWhile_skip_all)
  then have eq: "frame_decoder to_server_msg (max_frame_size self) (bm_bytes B src) =
      frame_decoder to_server_msg (max_frame_size self) (bm_bytes B src0)"
    unfolding assms(4,5) by (rule frame_decoder_norm)
  obtain s where s: "decode W B self src =
       Some (s, snd (frame_decoder to_server_msg (max_frame_size self) (bm_bytes B src)))"
    "bm_bytes B s = fst (frame_decoder to_server_msg (max_frame_size self) (bm_bytes B src))"
    by (rule decode_frame_decoder [OF assms(1,2)])
  obtain s0 where s0: "decode W B self src0 =
       Some (s0, snd (frame_decoder to_server_msg (max_frame_size self) (bm_bytes B src0)))"
    "bm_bytes B s0 = fst (frame_decoder to_server_msg (max_frame_size self) (bm_bytes B src0))"
    by (rule decode_frame_decoder [OF assms(1,2)])
  from s s0 eq show ?thesis by (auto simp: assms(5) frame_decoder_Nil)
qed

theorem heartbeats_are_silent_witness:
  "\<exists>s s0 x. decode winnow_ref vec_bytes_mut codec_new (vec_of ([CR, LF, LF] @ [])) = Some (s, x) \<and>
    decode winnow_ref vec_bytes_mut codec_new (vec_of []) = Some (s0, x) \<and>
    bm_bytes vec_bytes_mut s = bm_bytes vec_bytes_mut s0 \<and> x = Inr None \<and>
    bm_bytes vec_bytes_mut s = []"
  using heartbeats_are_silent [OF wref.winnow_lib_axioms vec.bytes_mut_lib_axioms,
        of "[CR, LF, LF]" "vec_of ([CR, LF, LF] @ [])" "[]" "vec_of []" codec_new]
  by (fastforce simp: is_eol_def)

section \<open>Sessions\<close>

text \<open>
  C4: a server's session reaches the client. Any sequence of conforming messages, with
  any heart-beats before, between and after them, cut into reads in any way, is
  decoded to exactly those messages in order, without an error.
\<close>

theorem server_session_received:
  assumes "winnow_lib W" and "list_all server_item_ok ps" and "list_all is_eol es"
    and "concat chunks = concat (map server_item ps) @ es"
    and "length (concat chunks) \<le> max_frame_size self"
  shows "items (read_chunks (decode_bytes W self) [] chunks) = map delivered ps \<and>
    failure (read_chunks (decode_bytes W self) [] chunks) = None"
  using client_reader.read_chunks_concat [of "[]" chunks "max_frame_size self" "[]"]
    server_session [OF assms(2,3), of "max_frame_size self"] assms(4,5)
  by (simp add: decode_bytes_eq [OF assms(1)] frame_decoder_Nil)

theorem server_session_received_witness:
  "items (read_chunks (decode_bytes winnow_ref (with_max_frame_size 100)) []
      [[LF], server_item ([LF], Receipt ''1'') @ [LF]]) = map delivered [([LF, LF], Receipt ''1'')] \<and>
    failure (read_chunks (decode_bytes winnow_ref (with_max_frame_size 100)) []
      [[LF], server_item ([LF], Receipt ''1'') @ [LF]]) = None"
  by (rule server_session_received [OF wref.winnow_lib_axioms, where es = "[LF]"])
    (simp_all add: is_eol_def with_max_frame_size_def wire_def
      headers_are_escaped_def wire_header_def List.map_filter_def escape_byte_def)



end
