(* ===== verification/Message_Properties.thy ===== *)
theory Message_Properties
  imports Codec
begin

text \<open>
  Properties of single frames and messages that are not about the stream: the merge
  of extra headers, bodies, the heart-beat header, which server frames are accepted,
  and what the wire format does not protect.
\<close>

lemma short_texts [simp]:
  "utf8_valid ''q''" "utf8_valid ''a:b''" "utf8_valid ''v''" "ascii ''a:b''"
proof -
  show "ascii ''a:b''" by (simp add: ascii_def byte_in_def)
  show "utf8_valid ''q''" "utf8_valid ''a:b''" "utf8_valid ''v''"
    by (rule utf8_valid_ascii, simp add: ascii_def byte_in_def)+
qed

lemma message_from_frame [simp]: "message_to_frame (message_from c) = to_server_to_frame c"
  by (simp add: message_to_frame_def add_extra_headers_def)

lemma encode_parses:
  assumes "winnow_lib W" "bytes_mut_lib B" "bm_bytes B dst = []" "frame_ok f"
    "wire f = wire (message_to_frame m)"
  shows "parse_frame W (bm_bytes B (snd (encode_message B m dst)) @ r) = POk (wire_frame f) (skip_eol r)"
  using frame_parser_wire [OF assms(4), of r] assms(5)
  by (simp add: encode_message_def bytes_mut_lib.serialize_bytes [OF assms(2)] assms(3)
      winnow_lib.parse_frame_ref [OF assms(1)])

section \<open>Extra headers\<close>

text \<open>
  Extra headers never override. Looking a name up in the frame of a message gives
  the header its content produced, if there is one, and otherwise the first extra
  header of that name; command and body are those of the content.
\<close>

theorem extra_headers_never_override:
  "map_of (fr_headers (message_to_frame m)) k =
     (case map_of (fr_headers (to_server_to_frame (content m))) k of
        Some v \<Rightarrow> Some v | None \<Rightarrow> map_of (extra_headers m) k) \<and>
   fr_command (message_to_frame m) = fr_command (to_server_to_frame (content m)) \<and>
   fr_body (message_to_frame m) = fr_body (to_server_to_frame (content m))"
proof -
  let ?f = "to_server_to_frame (content m)"
  have none: "map_of (fr_headers ?f) k = None \<longleftrightarrow> k \<notin> fst ` set (fr_headers ?f)"
    by (rule map_of_eq_None_iff)
  show ?thesis
    by (cases "map_of (fr_headers ?f) k")
      (use none in \<open>simp_all add: message_to_frame_def map_add_def map_of_filter_fst
        split: option.split\<close>)
qed

section \<open>Bodies\<close>

text \<open>
  A body of a SEND arrives byte for byte, NULL octets and line ends included, as
  long as it is shorter than 4 GiB. An empty body arrives as no body.
\<close>

theorem send_body_preserved:
  assumes "winnow_lib W" and "bytes_mut_lib B" and "bm_bytes B dst = []" and "length b < 2 ^ 32"
  shows "\<exists>f. parse_frame W
      (bm_bytes B (snd (encode_message B (message_from (Send d t None (Some b))) dst)) @ r) =
      POk f (skip_eol r) \<and> fr_command f = ''SEND'' \<and> fr_body f = (if b = [] then None else Some b)"
proof -
  define c where "c = Send d t None (if b = [] then None else Some b)"
  have ok: "frame_ok (to_server_to_frame c)"
    using assms(4) by (intro sendable_frame_ok)
      (simp add: c_def send_body_ok_def user_headers_def has_header_def)
  have "wire (to_server_to_frame c) = wire (to_server_to_frame (Send d t None (Some b)))"
    by (simp add: c_def wire_def send_headers_def)
  then have "wire (to_server_to_frame c) = wire (message_to_frame (message_from (Send d t None (Some b))))"
    by simp
  from encode_parses [OF assms(1-3) ok this] show ?thesis
    by (simp add: c_def)
qed

theorem send_body_preserved_witness:
  "\<exists>f. parse_frame winnow_ref
      (bm_bytes vec_bytes_mut
        (snd (encode_message vec_bytes_mut (message_from (Send ''q'' None None (Some [NUL, LF]))) (vec_of []))) @ [LF]) =
      POk f (skip_eol [LF]) \<and> fr_command f = ''SEND'' \<and>
      fr_body f = (if [NUL, LF] = [] then None else Some [NUL, LF])"
  by (rule send_body_preserved [OF wref.winnow_lib_axioms vec.bytes_mut_lib_axioms]) simp_all

section \<open>The heart-beat header\<close>

lemma splitn2_cases:
  obtains "sep \<notin> set s" "splitn2 sep s = [s]"
  | l r where "s = l @ sep # r" "sep \<notin> set l" "splitn2 sep s = [l, r]"
proof (cases "sep \<in> set s")
  case True
  then obtain l r where "s = l @ sep # r" "sep \<notin> set l" by (meson split_list_first)
  with that(2) show thesis by simp
next
  case False
  with that(1) show thesis by simp
qed

text \<open>
  The heart-beat header. \<open>parse_heartbeat\<close> reads back what the CONNECT frame
  writes, and accepts exactly two decimal \<open>u32\<close>s around the first comma.
\<close>

theorem parse_heartbeat_exact:
  "parse_heartbeat (heartbeat_value p) = Inr p \<and>
   (parse_heartbeat hb = Inr p \<longleftrightarrow>
     (\<exists>l r. hb = l @ CHR '','' # r \<and> CHR '','' \<notin> set l \<and>
            parse_u32 l = Some (fst p) \<and> parse_u32 r = Some (snd p)))"
proof
  show "parse_heartbeat (heartbeat_value p) = Inr p"
    by (cases p) (simp add: parse_heartbeat_value)
  show "parse_heartbeat hb = Inr p \<longleftrightarrow>
     (\<exists>l r. hb = l @ CHR '','' # r \<and> CHR '','' \<notin> set l \<and>
            parse_u32 l = Some (fst p) \<and> parse_u32 r = Some (snd p))"
  proof (cases rule: splitn2_cases [of "CHR '',''" hb])
    case 1
    then show ?thesis by (auto simp: parse_heartbeat_def)
  next
    case (2 l r)
    have unique: "l' = l \<and> r' = r" if "hb = l' @ CHR '','' # r'" "CHR '','' \<notin> set l'" for l' r'
      using 2(1,2) that by (simp add: append_eq_append_conv2) (auto simp: Cons_eq_append_conv append_eq_Cons_conv)
    have "parse_heartbeat hb = Inr p \<longleftrightarrow> parse_u32 l = Some (fst p) \<and> parse_u32 r = Some (snd p)"
      by (cases p) (auto simp: parse_heartbeat_def 2(3) rbind_eq_Inr ok_or_eq)
    with unique 2 show ?thesis by blast
  qed
qed

section \<open>Which frames a server message is read from\<close>

text \<open>
  C38: acceptance. A parsed frame becomes a server message exactly when it is a
  CONNECTED with a version, a MESSAGE with its three required headers whose headers
  are all valid UTF-8 (names as they are, values unescaped), a RECEIPT with its id, or
  any ERROR; the command may be written in upper or in lower case.
\<close>

theorem server_frame_accepted:
  "(\<exists>m. to_server_msg f = Inr m) \<longleftrightarrow>
    fr_command f \<in> {''CONNECTED'', ''connected''} \<and> fetch_raw_header (fr_headers f) ''version'' \<noteq> None \<or>
    fr_command f \<in> {''MESSAGE'', ''message''} \<and>
      fetch_header (fr_headers f) ''destination'' \<noteq> None \<and>
      fetch_header (fr_headers f) ''message-id'' \<noteq> None \<and>
      fetch_header (fr_headers f) ''subscription'' \<noteq> None \<and>
      headers_utf8 (map (\<lambda>(k, v). (k, unescape_header_value v)) (fr_headers f)) \<or>
    fr_command f \<in> {''RECEIPT'', ''receipt''} \<and> fetch_header (fr_headers f) ''receipt-id'' \<noteq> None \<or>
    fr_command f \<in> {''ERROR'', ''error''}"
  unfolding to_server_msg_def to_server_content_def
  by (auto simp: Let_def conversion_Inr)

section \<open>What the wire format does not protect\<close>

lemma ascii_escape: "ascii k \<Longrightarrow> ascii (escape_text True k)"
  by (induction k) (auto simp: ascii_def byte_in_def escape_byte_def)

lemma escape_text_grows: "COLON \<in> set k \<Longrightarrow> length k < length (escape_text True k)"
proof (induction k)
  case (Cons b k)
  have "length k \<le> length (escape_text True k)" for k :: bytes
    by (induction k) (auto simp: escape_byte_def)
  from this [of k] Cons show ?case by (auto simp: escape_byte_def)
qed simp

lemma escaped_colon: "COLON \<in> set k \<Longrightarrow> BACKSLASH \<in> set (escape_text True k)"
  by (induction k) (auto simp: escape_byte_def)

text \<open>
  C39: header names are escaped but never unescaped. A SEND header whose name holds a
  colon is written as the STOMP specification asks, but reading the frame gives the
  name with its escape sequences, so the header the application set does not arrive
  under its name.
\<close>

theorem header_names_stay_escaped:
  assumes "winnow_lib W" and "bytes_mut_lib B" and "bm_bytes B dst = []"
    and "ascii k" and "COLON \<in> set k" and "utf8_valid v"
  shows "\<exists>f ex. parse_frame W
      (bm_bytes B (snd (encode_message B (message_from (Send ''q'' None (Some [(k, v)]) None)) dst)) @ r) =
      POk f (skip_eol r) \<and>
    to_client_msg f = Inr \<lparr>content = Send ''q'' None (Some [(escape_text True k, v)]) None,
                           extra_headers = ex\<rparr> \<and>
    escape_text True k \<noteq> k"
proof -
  define f where "f = to_server_to_frame (Send ''q'' None (Some [(k, v)]) None)"
  have slash: "BACKSLASH \<in> set (escape_text True k)" by (rule escaped_colon [OF assms(5)])
  then have other: "escape_text True k \<noteq> ''destination''" "escape_text True k \<noteq> ''transaction''"
    "escape_text True k \<noteq> ''content-length''" by auto
  have f: "fr_command f = ''SEND''" "fr_headers f = [(''destination'', ''q''), (k, v)]" "fr_body f = None"
    by (simp_all add: f_def send_headers_def List.map_filter_def)
  then have wh: "wire_headers f = [(''destination'', ''q''), (escape_text True k, escape_text True v)]"
    by (simp add: wire_headers_def escape_header_def escape_byte_def)
  have "frame_ok f"
    using assms(5) other f(1,3) wh
    by (auto simp: frame_ok_def f(2) is_alpha_def body_ok_def name_ok_def)
  then have "parse_frame W
      (bm_bytes B (snd (encode_message B (message_from (Send ''q'' None (Some [(k, v)]) None)) dst)) @ r) =
      POk (wire_frame f) (skip_eol r)"
    by (rule encode_parses [OF assms(1-3)]) (simp add: f_def)
  moreover have "utf8_valid (escape_text True k)"
    by (rule utf8_valid_ascii [OF ascii_escape [OF assms(4)]])
  then have "to_client_msg (wire_frame f) =
      Inr \<lparr>content = Send ''q'' None (Some [(escape_text True k, v)]) None,
           extra_headers = [(escape_text True k, escape_text True v)]\<rparr>"
    using other assms(6)
    by (simp add: to_client_msg_def to_client_content_def f wh Let_def optional_headers_def
        header_to_string_def from_utf8_def unescape_escape_text expect_header_def unescape_id)
  moreover have "escape_text True k \<noteq> k" using escape_text_grows [OF assms(5)] by auto
  ultimately show ?thesis by blast
qed

theorem header_names_stay_escaped_witness:
  "\<exists>f ex. parse_frame winnow_ref
      (bm_bytes vec_bytes_mut
        (snd (encode_message vec_bytes_mut
          (message_from (Send ''q'' None (Some [(''a:b'', ''v'')]) None)) (vec_of []))) @ []) =
      POk f (skip_eol []) \<and>
    to_client_msg f = Inr \<lparr>content = Send ''q'' None (Some [(escape_text True ''a:b'', ''v'')]) None,
                           extra_headers = ex\<rparr> \<and>
    escape_text True ''a:b'' \<noteq> ''a:b''"
  by (rule header_names_stay_escaped [OF wref.winnow_lib_axioms vec.bytes_mut_lib_axioms]) simp_all

text \<open>
  C40: a CONNECT does not protect its headers. Its values are written as they are, so a
  login with a line end in it gives the very bytes of a CONNECT with another header,
  here a passcode.
\<close>

theorem connect_header_injection:
  assumes "bytes_mut_lib B" and "bm_bytes B dst = []"
  shows "bm_bytes B (snd (encode_message B
      (message_from (Connect v h (Some (l @ LF # ''passcode:'' @ p)) None None)) dst)) =
    bm_bytes B (snd (encode_message B (message_from (Connect v h (Some l) (Some p) None)) dst))"
  by (simp add: encode_message_def bytes_mut_lib.serialize_bytes [OF assms(1)] wire_def
      wire_header_def List.map_filter_def headers_are_escaped_def)

theorem connect_header_injection_witness:
  "bm_bytes vec_bytes_mut (snd (encode_message vec_bytes_mut
      (message_from (Connect ''1.2'' ''h'' (Some (''u'' @ LF # ''passcode:'' @ ''p'')) None None)) (vec_of []))) =
    bm_bytes vec_bytes_mut (snd (encode_message vec_bytes_mut
      (message_from (Connect ''1.2'' ''h'' (Some ''u'') (Some ''p'') None)) (vec_of [])))"
  by (rule connect_header_injection [OF vec.bytes_mut_lib_axioms]) simp

end
