(* ===== verification/Handshake.thy ===== *)
theory Handshake
  imports Codec
begin

text \<open>
  The handshake of \<open>src/client.rs\<close>: heart-beat negotiation (\<open>negotiate\<close>), the check of
  the server's answer (\<open>accept_connected\<close>), and \<open>establish\<close>, which sends CONNECT,
  reads the answer and wires up the transport. The socket and the framing adapters
  of \<open>tokio\<close> and \<open>tokio_util\<close> are the record \<open>N\<close> over a world of type \<open>'w\<close>.
\<close>

section \<open>Negotiation\<close>

definition negotiate :: "u32 \<Rightarrow> u32 \<Rightarrow> duration option" where
  "negotiate sender receiver =
    (if sender \<noteq> 0 \<and> receiver \<noteq> 0
     then Some (from_millis (unat (max sender receiver))) else None)"

type_synonym intervals = "duration option \<times> duration option"

definition accept_connected ::
    "from_server message option \<Rightarrow> (u32 \<times> u32) option \<Rightarrow> intervals result" where
  "accept_connected reply requested =
    (case map_option content reply of
       Some (Connected version session server heartbeat) \<Rightarrow>
         if version \<noteq> ''1.2'' then Inl (Unsupported_Version version)
         else
           (let (cx, cy) = (case requested of None \<Rightarrow> (0, 0) | Some r \<Rightarrow> r)
            in rbind (case heartbeat of Some hb \<Rightarrow> parse_heartbeat hb | None \<Rightarrow> Inr (0, 0))
                 (\<lambda>(sx, sy). Inr (negotiate cx sy, negotiate sx cy)))
     | _ \<Rightarrow> Inl Unexpected_Reply)"

lemma negotiate_commute: "negotiate a b = negotiate b a"
  by (simp add: negotiate_def max.commute)

lemma negotiate_None: "negotiate a b = None \<longleftrightarrow> a = 0 \<or> b = 0"
  by (simp add: negotiate_def)

lemma unat_max: "unat (max a b) = max (unat a) (unat b)"
  by (simp add: max_def word_le_nat_alt)

lemma negotiate_Some: "negotiate a b = Some d \<longleftrightarrow>
  a \<noteq> 0 \<and> b \<noteq> 0 \<and> d = from_millis (max (unat a) (unat b))"
  by (auto simp: negotiate_def unat_max)

section \<open>Effects\<close>

text \<open>
  An asynchronous function, awaited to its end: it changes the world and returns a
  result; \<open>?\<close> stops it at the first error.
\<close>

type_synonym ('w, 'a) io = "'w \<Rightarrow> 'w \<times> 'a result"

definition ireturn :: "'a \<Rightarrow> ('w, 'a) io" where
  "ireturn x w = (w, Inr x)"

definition ifail :: "stomp_error \<Rightarrow> ('w, 'a) io" where
  "ifail e w = (w, Inl e)"

definition ilift :: "'a result \<Rightarrow> ('w, 'a) io" where
  "ilift r w = (w, r)"

definition ibind :: "('w, 'a) io \<Rightarrow> ('a \<Rightarrow> ('w, 'b) io) \<Rightarrow> ('w, 'b) io" where
  "ibind p f w = (case p w of (w1, Inl e) \<Rightarrow> (w1, Inl e) | (w1, Inr x) \<Rightarrow> f x w1)"

definition ieffect :: "('w \<Rightarrow> 'w) \<Rightarrow> ('w, unit) io" where
  "ieffect g w = (g w, Inr ())"

lemma io_simps [simp, result_simps]:
  "ireturn x w = (w, Inr x)" "ifail e w = (w, Inl e)" "ilift r w = (w, r)"
  "ieffect g w = (g w, Inr ())"
  by (simp_all add: ireturn_def ifail_def ilift_def ieffect_def)

lemma ibind_Inr: "ibind p f w = (w2, Inr y) \<longleftrightarrow> (\<exists>w1 x. p w = (w1, Inr x) \<and> f x w1 = (w2, Inr y))"
  by (auto simp: ibind_def split: prod.splits sum.splits)

lemma ibind_step [result_simps]:
  "p w = (w1, Inr x) \<Longrightarrow> ibind p f w = f x w1"
  "p w = (w1, Inl e) \<Longrightarrow> ibind p f w = (w1, Inl e)"
  by (simp_all add: ibind_def)

lemma ibind_simps [simp]:
  "ibind (ireturn x) f w = f x w" "ibind (ifail e) f w = (w, Inl e)"
  "ibind (ieffect g) f w = f () (g w)"
  by (simp_all add: ibind_def)

section \<open>Establishing the session\<close>

text \<open>
  \<open>Framed\<close>, \<open>FramedRead\<close> and \<open>FramedWrite\<close> are generic in the codec: sending takes
  what the encoder does to a buffer, reading takes the decoder. Reading yields
  \<open>None\<close> when the peer has closed the stream.
\<close>

record ('w, 'b) framing =
  fr_split :: "'w \<Rightarrow> 'w"
  fr_send :: "('b \<Rightarrow> unit result \<times> 'b) \<Rightarrow> ('w, unit) io"
  fr_next :: "('b \<Rightarrow> ('b \<times> from_server message option result) option) \<Rightarrow>
              ('w, from_server message option) io"
  fr_spawn_pump :: "duration option \<Rightarrow> 'w \<Rightarrow> 'w"

datatype wiring = Direct client_codec | Pumped client_codec

definition establish :: "winnow \<Rightarrow> 'b bytes_mut \<Rightarrow> ('w, 'b) framing \<Rightarrow>
    to_server message \<Rightarrow> (u32 \<times> u32) option \<Rightarrow> bool \<Rightarrow> nat \<Rightarrow>
    ('w, wiring \<times> intervals) io" where
  "establish W B N connect requested beats max_frame =
    (let codec = with_max_frame_size max_frame in
     if \<not> beats then
       ibind (fr_send N (encode_message B connect)) (\<lambda>_.
       ibind (fr_next N (decode W B codec)) (\<lambda>reply.
       ibind (ilift (accept_connected reply requested)) (\<lambda>(outgoing, incoming).
       ireturn (Direct codec, outgoing, incoming))))
     else
       ibind (ieffect (fr_split N)) (\<lambda>_.
       ibind (fr_send N (encode_message B connect)) (\<lambda>_.
       ibind (fr_next N (decode W B codec)) (\<lambda>reply.
       ibind (ilift (accept_connected reply requested)) (\<lambda>(outgoing, incoming).
       ibind (ieffect (fr_spawn_pump N outgoing)) (\<lambda>_.
       ireturn (Pumped codec, outgoing, incoming)))))))"

text \<open>A decoder over buffers that does on the unread bytes what a decoder on byte strings does.\<close>

definition decodes_as :: "'b bytes_mut \<Rightarrow> ('b \<Rightarrow> ('b \<times> 'm option result) option) \<Rightarrow> 'm decoder \<Rightarrow> bool" where
  "decodes_as B dec d \<longleftrightarrow>
    (\<forall>b. \<exists>b'. dec b = Some (b', snd (d (bm_bytes B b))) \<and> bm_bytes B b' = fst (d (bm_bytes B b)))"

text \<open>
  What the framing adapters promise: sending writes exactly what the encoder put
  into the buffer (\<open>sent\<close> is everything written so far), the other operations
  write nothing, and only spawning starts a task. While the socket is \<open>healthy\<close>
  sending succeeds, and reading decodes the bytes buffered (\<open>unread\<close>) followed by
  the reads to come (\<open>inbox\<close>), one read at a time; after a decoding error, which ends
  the stream, nothing is promised.
\<close>

locale framing_lib = bytes_mut_lib B for B :: "'b bytes_mut" +
  fixes N :: "('w, 'b) framing" and sent :: "'w \<Rightarrow> bytes" and pumps :: "'w \<Rightarrow> duration option list"
    and healthy :: "'w \<Rightarrow> bool" and unread :: "'w \<Rightarrow> bytes" and inbox :: "'w \<Rightarrow> bytes list"
  assumes send_writes: "fr_send N enc w = (w', Inr ()) \<Longrightarrow>
        \<exists>buf. bm_bytes B buf = [] \<and> fst (enc buf) = Inr () \<and>
              sent w' = sent w @ bm_bytes B (snd (enc buf))"
    and send_pumps: "fr_send N enc w = (w', r) \<Longrightarrow> pumps w' = pumps w"
    and send_succeeds: "healthy w \<Longrightarrow> (\<And>buf. fst (enc buf) = Inr ()) \<Longrightarrow>
        \<exists>w'. fr_send N enc w = (w', Inr ()) \<and> healthy w' \<and>
             unread w' = unread w \<and> inbox w' = inbox w"
    and next_quiet: "fr_next N dec w = (w', m) \<Longrightarrow> sent w' = sent w \<and> pumps w' = pumps w"
    and next_reads: "healthy w \<Longrightarrow> decodes_as B dec dc \<Longrightarrow> fr_next N dec w = (w', m) \<Longrightarrow>
        read_first dc (unread w) (inbox w) = ((unread w', inbox w'), m)"
    and next_healthy: "healthy w \<Longrightarrow> fr_next N dec w = (w', Inr y) \<Longrightarrow> healthy w'"
    and split_quiet: "sent (fr_split N w) = sent w" "pumps (fr_split N w) = pumps w"
    and split_keeps: "healthy (fr_split N w) = healthy w" "unread (fr_split N w) = unread w"
        "inbox (fr_split N w) = inbox w"
    and spawn: "sent (fr_spawn_pump N d w) = sent w" "pumps (fr_spawn_pump N d w) = pumps w @ [d]"
        "unread (fr_spawn_pump N d w) = unread w" "inbox (fr_spawn_pump N d w) = inbox w"
        "healthy (fr_spawn_pump N d w) = healthy w"
begin

text \<open>
  A successful handshake has written the CONNECT frame and nothing else, has read a
  CONNECTED for 1.2, and runs a pump exactly when the connection is to beat.
\<close>

lemma establish_ok:
  assumes "establish W B N connect requested beats limit w = (w', Inr (tr, outgoing, incoming))"
  shows "sent w' = sent w @ wire (message_to_frame connect) \<and>
    (\<exists>reply. accept_connected reply requested = Inr (outgoing, incoming)) \<and>
    tr = (if beats then Pumped else Direct) (with_max_frame_size limit) \<and>
    pumps w' = pumps w @ (if beats then [outgoing] else [])"
proof -
  have enc: "sent w2 = sent w1 @ wire (message_to_frame connect) \<and> pumps w2 = pumps w1"
    if "fr_send N (encode_message B connect) w1 = (w2, Inr ())" for w1 w2
    using send_writes [OF that] send_pumps [OF that]
    by (auto simp: encode_message_def serialize_bytes)
  show ?thesis
  proof (cases beats)
    case True
    with assms obtain w1 w2 reply where
      "fr_send N (encode_message B connect) (fr_split N w) = (w1, Inr ())"
      "fr_next N (decode W B (with_max_frame_size limit)) w1 = (w2, Inr reply)"
      "accept_connected reply requested = Inr (outgoing, incoming)"
      "tr = Pumped (with_max_frame_size limit)" "w' = fr_spawn_pump N outgoing w2"
      by (auto simp: establish_def ibind_Inr Let_def)
    with True show ?thesis using enc next_quiet split_quiet spawn by fastforce
  next
    case False
    with assms obtain w1 reply where
      "fr_send N (encode_message B connect) w = (w1, Inr ())"
      "fr_next N (decode W B (with_max_frame_size limit)) w1 = (w', Inr reply)"
      "accept_connected reply requested = Inr (outgoing, incoming)"
      "tr = Direct (with_max_frame_size limit)"
      by (auto simp: establish_def ibind_Inr Let_def)
    with False show ?thesis using enc next_quiet by fastforce
  qed
qed

text \<open>A handshake that fails starts no task.\<close>

lemma establish_failed:
  assumes "establish W B N connect requested beats limit w = (w', Inl e)"
  shows "pumps w' = pumps w"
  using assms
  by (auto simp: establish_def Let_def ibind_def split_quiet spawn split: prod.splits sum.splits if_splits
      dest!: send_pumps next_quiet)

lemma decode_decodes_as:
  assumes "winnow_lib W"
  shows "decodes_as B (decode W B self) (frame_decoder to_server_msg (max_frame_size self))"
  unfolding decodes_as_def
  using codec_libs.decode_refines [OF codec_libs.intro [OF assms bytes_mut_lib_axioms], of self]
  by blast

text \<open>
  However its answer is cut into reads, the server's answer is what the handshake judges,
  and no byte sent after the answer is lost.
\<close>

lemma establish_reply:
  assumes "winnow_lib W" "healthy w" "unread w = []" "list_all is_eol es"
    and "server_ok m" "from_server_utf8 m"
    and "concat (inbox w) = es @ wire (server_frame m) @ rest"
    and "length (concat (inbox w)) \<le> limit"
  shows "\<exists>w'. establish W B N connect requested beats limit w =
      (case accept_connected (Some \<lparr>content = m, extra_headers = server_extra m\<rparr>) requested of
         Inr iv \<Rightarrow> (w', Inr ((if beats then Pumped else Direct) (with_max_frame_size limit), iv))
       | Inl e \<Rightarrow> (w', Inl e)) \<and>
    dropWhile is_eol (unread w' @ concat (inbox w')) = dropWhile is_eol rest \<and>
    healthy w' \<and> length (unread w' @ concat (inbox w')) \<le> limit \<and>
    sent w' = sent w @ wire (message_to_frame connect) \<and>
    pumps w' = pumps w @
      (case accept_connected (Some \<lparr>content = m, extra_headers = server_extra m\<rparr>) requested of
         Inr iv \<Rightarrow> if beats then [fst iv] else [] | Inl e \<Rightarrow> [])"
proof -
  let ?m = "\<lparr>content = m, extra_headers = server_extra m\<rparr>"
  let ?d = "frame_decoder to_server_msg limit"
  let ?w0 = "if beats then fr_split N w else w"
  obtain w1 where w1: "fr_send N (encode_message B connect) ?w0 = (w1, Inr ())" "healthy w1"
    "unread w1 = []" "inbox w1 = inbox w"
    using send_succeeds [of ?w0 "encode_message B connect"] assms(2,3)
    by (cases beats) (auto simp: split_keeps encode_message_def)
  have s1: "sent w1 = sent w @ wire (message_to_frame connect)" "pumps w1 = pumps w"
    using send_writes [OF w1(1)] send_pumps [OF w1(1)]
    by (auto simp: encode_message_def serialize_bytes split_quiet)
  obtain w2 r where w2: "fr_next N (decode W B (with_max_frame_size limit)) w1 = (w2, r)"
    by (cases "fr_next N (decode W B (with_max_frame_size limit)) w1")
  have "decodes_as B (decode W B (with_max_frame_size limit)) ?d"
    using decode_decodes_as [OF assms(1), of "with_max_frame_size limit"]
    by (simp add: with_max_frame_size_def)
  from next_reads [OF w1(2) this w2]
  have rd: "read_first ?d [] (inbox w) = ((unread w2, inbox w2), r)" by (simp add: w1)
  have "dropWhile is_eol (es @ wire (server_frame m) @ rest) =
      dropWhile is_eol (wire (server_frame m) @ rest)"
    using assms(4) by (rule dropWhile_skip_all)
  then have "?d (concat (inbox w)) = ?d (wire (server_frame m) @ rest)"
    unfolding assms(7) by (rule frame_decoder_norm)
  also have "\<dots> = (skip_eol rest, Inr (Some ?m))"
    using frame_decoder_server [OF assms(5,6)] by simp
  finally have "?d ([] @ concat (inbox w)) = (skip_eol rest, Inr (Some ?m))" by simp
  from client_reader.read_first_item [OF _ this] assms(8) rd
  have r: "r = Inr (Some ?m)"
    "dropWhile is_eol (unread w2 @ concat (inbox w2)) = dropWhile is_eol rest"
    "length (unread w2 @ concat (inbox w2)) \<le> limit"
    by auto
  have "healthy w2" by (rule next_healthy [OF w1(2) w2 [unfolded r(1)]])
  have s2: "sent w2 = sent w @ wire (message_to_frame connect)" "pumps w2 = pumps w"
    using next_quiet [OF w2] s1 by simp_all
  let ?w3 = "case accept_connected (Some ?m) requested of
    Inr iv \<Rightarrow> if beats then fr_spawn_pump N (fst iv) w2 else w2 | Inl e \<Rightarrow> w2"
  have "establish W B N connect requested beats limit w =
      (case accept_connected (Some ?m) requested of
         Inr iv \<Rightarrow> (?w3, Inr ((if beats then Pumped else Direct) (with_max_frame_size limit), iv))
       | Inl e \<Rightarrow> (?w3, Inl e))"
    using w1(1) w2 r(1)
    by (cases beats) (auto simp: establish_def Let_def ibind_def split: sum.split)
  with r(2,3) s2 \<open>healthy w2\<close> show ?thesis
    by (intro exI [of _ ?w3]) (simp add: spawn split: sum.split)
qed

text \<open>A server that answers with a CONNECTED for 1.2 is accepted.\<close>

lemma establish_succeeds:
  assumes "winnow_lib W" "healthy w" "unread w = []" "list_all is_eol es"
    and "server_ok (Connected ''1.2'' s sv hb)" "from_server_utf8 (Connected ''1.2'' s sv hb)"
    and "concat (inbox w) = es @ wire (server_frame (Connected ''1.2'' s sv hb)) @ rest"
    and "length (concat (inbox w)) \<le> limit"
    and "accept_connected (Some \<lparr>content = Connected ''1.2'' s sv hb, extra_headers = []\<rparr>) requested = Inr iv"
  shows "\<exists>w'. establish W B N connect requested beats limit w =
      (w', Inr ((if beats then Pumped else Direct) (with_max_frame_size limit), iv)) \<and>
    dropWhile is_eol (unread w' @ concat (inbox w')) = dropWhile is_eol rest \<and>
    healthy w' \<and> length (unread w' @ concat (inbox w')) \<le> limit"
  using establish_reply [OF assms(1-8), of connect requested beats] assms(9) by auto

end

end
