(* ===== verification/Builders.thy ===== *)
theory Builders
  imports Handshake
begin

text \<open>
  The two builders of \<open>src/client.rs\<close>: \<open>Connector\<close>, whose typestate parameters say
  which required fields are set, with its setters, \<open>msg\<close> and \<open>connect\<close>, and
  \<open>Subscriber\<close>. The network below \<open>connect\<close> (TCP, TLS, the parsing of addresses and
  of DNS names) is the record \<open>net\<close>.
\<close>

datatype unset = Unset

section \<open>Connector\<close>

record ('s, 'v) connector =
  cn_server :: 's
  cn_virtualhost :: 'v
  cn_login :: "rstring option"
  cn_passcode :: "rstring option"
  cn_headers :: "(rstring \<times> rstring) list"
  cn_use_tls :: bool
  cn_tls_server_name :: "rstring option"
  cn_max_frame_size :: nat
  cn_heartbeat :: "(u32 \<times> u32) option"
  cn_auto_heartbeat :: bool

definition connector_builder :: "(unset, unset) connector" where
  "connector_builder =
    \<lparr>cn_server = Unset, cn_virtualhost = Unset, cn_login = None, cn_passcode = None,
     cn_headers = [], cn_use_tls = False, cn_tls_server_name = None,
     cn_max_frame_size = DEFAULT_MAX_FRAME_SIZE, cn_heartbeat = None, cn_auto_heartbeat = True\<rparr>"

definition set_server :: "'t \<Rightarrow> ('s, 'v) connector \<Rightarrow> ('t, 'v) connector" where
  "set_server server self =
    \<lparr>cn_server = server, cn_virtualhost = cn_virtualhost self, cn_login = cn_login self,
     cn_passcode = cn_passcode self, cn_headers = cn_headers self, cn_use_tls = cn_use_tls self,
     cn_tls_server_name = cn_tls_server_name self, cn_max_frame_size = cn_max_frame_size self,
     cn_heartbeat = cn_heartbeat self, cn_auto_heartbeat = cn_auto_heartbeat self\<rparr>"

definition set_virtualhost :: "'t \<Rightarrow> ('s, 'v) connector \<Rightarrow> ('s, 't) connector" where
  "set_virtualhost virtualhost self =
    \<lparr>cn_server = cn_server self, cn_virtualhost = virtualhost, cn_login = cn_login self,
     cn_passcode = cn_passcode self, cn_headers = cn_headers self, cn_use_tls = cn_use_tls self,
     cn_tls_server_name = cn_tls_server_name self, cn_max_frame_size = cn_max_frame_size self,
     cn_heartbeat = cn_heartbeat self, cn_auto_heartbeat = cn_auto_heartbeat self\<rparr>"

definition set_login :: "rstring \<Rightarrow> ('s, 'v) connector \<Rightarrow> ('s, 'v) connector" where
  "set_login login self = self\<lparr>cn_login := Some login\<rparr>"

definition set_passcode :: "rstring \<Rightarrow> ('s, 'v) connector \<Rightarrow> ('s, 'v) connector" where
  "set_passcode passcode self = self\<lparr>cn_passcode := Some passcode\<rparr>"

definition set_headers :: "(rstring \<times> rstring) list \<Rightarrow> ('s, 'v) connector \<Rightarrow> ('s, 'v) connector" where
  "set_headers headers self = self\<lparr>cn_headers := headers\<rparr>"

definition set_use_tls :: "bool \<Rightarrow> ('s, 'v) connector \<Rightarrow> ('s, 'v) connector" where
  "set_use_tls use_tls self = self\<lparr>cn_use_tls := use_tls\<rparr>"

definition set_max_frame_size :: "nat \<Rightarrow> ('s, 'v) connector \<Rightarrow> ('s, 'v) connector" where
  "set_max_frame_size n self = self\<lparr>cn_max_frame_size := n\<rparr>"

definition set_tls_server_name :: "rstring \<Rightarrow> ('s, 'v) connector \<Rightarrow> ('s, 'v) connector" where
  "set_tls_server_name name self = self\<lparr>cn_tls_server_name := Some name\<rparr>"

definition set_heartbeat :: "u32 \<Rightarrow> u32 \<Rightarrow> ('s, 'v) connector \<Rightarrow> ('s, 'v) connector" where
  "set_heartbeat outgoing incoming self = self\<lparr>cn_heartbeat := Some (outgoing, incoming)\<rparr>"

definition set_auto_heartbeat :: "bool \<Rightarrow> ('s, 'v) connector \<Rightarrow> ('s, 'v) connector" where
  "set_auto_heartbeat b self = self\<lparr>cn_auto_heartbeat := b\<rparr>"

text \<open>\<open>Connector::msg\<close>; \<open>into\<close> is the \<open>Into<String>\<close> of the virtual host's type.\<close>

definition connector_msg :: "('v \<Rightarrow> rstring) \<Rightarrow> ('s, 'v) connector \<Rightarrow> to_server message" where
  "connector_msg into self =
    (let extra = map (\<lambda>(k, v). (k, v)) (cn_headers self)
     in \<lparr>content = Connect ''1.2'' (into (cn_virtualhost self)) (cn_login self) (cn_passcode self)
                     (cn_heartbeat self),
         extra_headers = extra\<rparr>)"

section \<open>Connecting\<close>

datatype ('ip, 'dns) server_name = IpAddress 'ip | DnsName 'dns

datatype ('tcp, 'tls) transport_stream = Plain 'tcp | Tls 'tls

text \<open>
  What \<open>rustls\<close> is configured with: the trust anchors a certificate chain must end in (subject,
  public key, name constraints), and whether the client presents a certificate of its own.
\<close>

type_synonym trust_anchor = "bytes \<times> bytes \<times> bytes option"

record tls_config =
  tc_roots :: "trust_anchor list"
  tc_client_auth :: bool

record ('w, 's, 'tcp, 'tls, 'ip, 'dns) net =
  net_tcp_connect :: "'s \<Rightarrow> ('w, 'tcp) io"
  net_peer_ip :: "'tcp \<Rightarrow> ('w, rstring) io"
  net_parse_ip :: "rstring \<Rightarrow> 'ip option"
  net_parse_dns :: "rstring \<Rightarrow> 'dns option"
  net_server_roots :: "trust_anchor list"
  net_tls_connect :: "tls_config \<Rightarrow> ('ip, 'dns) server_name \<Rightarrow> 'tcp \<Rightarrow> ('w, 'tls) io"

text \<open>Which name the certificate is checked against.\<close>

definition tls_host :: "('w, 's, 'tcp, 'tls, 'ip, 'dns) net \<Rightarrow> ('s, 'v) connector \<Rightarrow> 'tcp \<Rightarrow>
    ('w, rstring) io" where
  "tls_host net self tcp =
    (case cn_tls_server_name self of
       Some name \<Rightarrow> ireturn name
     | None \<Rightarrow>
         ibind (net_peer_ip net tcp) (\<lambda>hostname.
         if hostname = [] then ifail No_Tls_Hostname else ireturn hostname))"

definition tls_name :: "('w, 's, 'tcp, 'tls, 'ip, 'dns) net \<Rightarrow> rstring \<Rightarrow>
    ('w, ('ip, 'dns) server_name) io" where
  "tls_name net name =
    (case net_parse_ip net name of
       Some ip \<Rightarrow> ireturn (IpAddress ip)
     | None \<Rightarrow>
         (case net_parse_dns net name of
            Some d \<Rightarrow> ireturn (DnsName d)
          | None \<Rightarrow> ifail (Invalid_Dns_Name name)))"

text \<open>\<open>create_tls_connector\<close>: the roots of the \<open>webpki_roots\<close> crate, no client certificate.\<close>

definition create_tls_connector :: "('w, 's, 'tcp, 'tls, 'ip, 'dns) net \<Rightarrow> ('w, tls_config) io" where
  "create_tls_connector net =
    (let root_store = net_server_roots net
     in ireturn \<lparr>tc_roots = root_store, tc_client_auth = False\<rparr>)"

definition open_stream :: "('w, 's, 'tcp, 'tls, 'ip, 'dns) net \<Rightarrow> ('s, 'v) connector \<Rightarrow>
    ('w, ('tcp, 'tls) transport_stream) io" where
  "open_stream net self =
    ibind (net_tcp_connect net (cn_server self)) (\<lambda>tcp.
    if cn_use_tls self then
      ibind (tls_host net self tcp) (\<lambda>server_name.
      ibind (create_tls_connector net) (\<lambda>tls_connector.
      ibind (tls_name net server_name) (\<lambda>dns_name.
      ibind (net_tls_connect net tls_connector dns_name tcp) (\<lambda>tls_stream.
      ireturn (Tls tls_stream)))))
    else ireturn (Plain tcp))"

text \<open>Whether this connection beats on its own.\<close>

definition connector_beats :: "('s, 'v) connector \<Rightarrow> bool" where
  "connector_beats self \<longleftrightarrow>
    cn_auto_heartbeat self \<and>
    (case cn_heartbeat self of Some (offer, _) \<Rightarrow> 0 < offer | None \<Rightarrow> False)"

text \<open>
  \<open>ClientTransport\<close>: how it is wired, the negotiated intervals, and, where the
  client supervises the server, the tolerance and the period of the ticker.
\<close>

record client_transport =
  ct_transport :: wiring
  ct_outgoing :: "duration option"
  ct_incoming :: "duration option"
  ct_supervise :: "(duration \<times> duration) option"

definition client_transport_new ::
    "wiring \<Rightarrow> duration option \<Rightarrow> duration option \<Rightarrow> bool \<Rightarrow> client_transport" where
  "client_transport_new transport outgoing incoming automatic =
    (let supervise =
       map_option (\<lambda>period. (times_duration period 2, period))
         (Option.bind (if automatic then Some incoming else None) (\<lambda>x. x))
     in \<lparr>ct_transport = transport, ct_outgoing = outgoing, ct_incoming = incoming,
         ct_supervise = supervise\<rparr>)"

definition transport_heartbeat :: "client_transport \<Rightarrow> intervals" where
  "transport_heartbeat self = (ct_outgoing self, ct_incoming self)"

text \<open>
  \<open>Connector::connect\<close>. The framing adapters work on the stream that was opened,
  so they are a function of it.
\<close>

definition connect :: "winnow \<Rightarrow> 'b bytes_mut \<Rightarrow> ('w, 's, 'tcp, 'tls, 'ip, 'dns) net \<Rightarrow>
    (('tcp, 'tls) transport_stream \<Rightarrow> ('w, 'b) framing) \<Rightarrow> ('v \<Rightarrow> rstring) \<Rightarrow>
    ('s, 'v) connector \<Rightarrow> ('w, client_transport) io" where
  "connect W B net adapters into self =
    ibind (open_stream net self) (\<lambda>stream.
    let heartbeat = cn_heartbeat self;
        automatic = cn_auto_heartbeat self;
        beats = connector_beats self
    in ibind (establish W B (adapters stream) (connector_msg into self) heartbeat beats
                (cn_max_frame_size self)) (\<lambda>(transport, outgoing, incoming).
       ireturn (client_transport_new transport outgoing incoming automatic)))"

section \<open>Subscriber\<close>

record ('d, 'i) subscriber =
  sb_destination :: 'd
  sb_id :: 'i
  sb_ack :: "ack_mode option"
  sb_headers :: "(rstring \<times> rstring) list"

definition subscriber_builder :: "(unset, unset) subscriber" where
  "subscriber_builder = \<lparr>sb_destination = Unset, sb_id = Unset, sb_ack = None, sb_headers = []\<rparr>"

definition sub_destination :: "'t \<Rightarrow> ('d, 'i) subscriber \<Rightarrow> ('t, 'i) subscriber" where
  "sub_destination destination self =
    \<lparr>sb_destination = destination, sb_id = sb_id self, sb_ack = sb_ack self,
     sb_headers = sb_headers self\<rparr>"

definition sub_id :: "'t \<Rightarrow> ('d, 'i) subscriber \<Rightarrow> ('d, 't) subscriber" where
  "sub_id i self =
    \<lparr>sb_destination = sb_destination self, sb_id = i, sb_ack = sb_ack self,
     sb_headers = sb_headers self\<rparr>"

definition sub_ack :: "ack_mode \<Rightarrow> ('d, 'i) subscriber \<Rightarrow> ('d, 'i) subscriber" where
  "sub_ack a self = self\<lparr>sb_ack := Some a\<rparr>"

definition sub_headers :: "(rstring \<times> rstring) list \<Rightarrow> ('d, 'i) subscriber \<Rightarrow> ('d, 'i) subscriber" where
  "sub_headers headers self = self\<lparr>sb_headers := headers\<rparr>"

definition subscribe :: "('d \<Rightarrow> rstring) \<Rightarrow> ('i \<Rightarrow> rstring) \<Rightarrow> ('d, 'i) subscriber \<Rightarrow> to_server message" where
  "subscribe into_d into_i self =
    (message_from (Subscribe (into_d (sb_destination self)) (into_i (sb_id self)) (sb_ack self)))
      \<lparr>extra_headers := map (\<lambda>(k, v). (k, v)) (sb_headers self)\<rparr>"

end
