(* ===== verification/Sim_Net.thy ===== *)
theory Sim_Net
  imports Handshake
begin

text \<open>
  An executable socket with the framing adapters around it: the bytes the server
  will send, in the pieces they arrive in, and a record of what was written. It
  keeps the promises of \<open>framing_lib\<close>, and the closed examples run on it. At the
  end of the stream left-over bytes are an error, as \<open>Decoder::decode_eof\<close> has it.
\<close>

record sim =
  sim_in :: "bytes list"
  sim_buf :: vec_buf
  sim_sent :: bytes
  sim_pumps :: "duration option list"
  sim_closed :: bool

definition sim_of :: "bytes list \<Rightarrow> sim" where
  "sim_of chunks =
    \<lparr>sim_in = chunks, sim_buf = vec_of [], sim_sent = [], sim_pumps = [], sim_closed = False\<rparr>"

primrec sim_read :: "bytes list \<Rightarrow> (vec_buf \<Rightarrow> (vec_buf \<times> 'm option result) option) \<Rightarrow> vec_buf \<Rightarrow>
    (bytes list \<times> vec_buf) \<times> 'm option result" where
  "sim_read [] dec buf =
    (case dec buf of
       None \<Rightarrow> (([], buf), Inl (Io_Error ''panic''))
     | Some (b, Inr (Some m)) \<Rightarrow> (([], b), Inr (Some m))
     | Some (b, Inr None) \<Rightarrow>
         (([], b), if vb_data b = [] then Inr None else Inl (Io_Error ''bytes remaining on stream''))
     | Some (b, Inl e) \<Rightarrow> (([], b), Inl e))"
| "sim_read (c # cs) dec buf =
    (case dec buf of
       None \<Rightarrow> ((c # cs, buf), Inl (Io_Error ''panic''))
     | Some (b, Inr (Some m)) \<Rightarrow> ((c # cs, b), Inr (Some m))
     | Some (b, Inr None) \<Rightarrow> sim_read cs dec (vec_put b c)
     | Some (b, Inl e) \<Rightarrow> ((c # cs, b), Inl e))"

definition sim_next :: "(vec_buf \<Rightarrow> (vec_buf \<times> 'm option result) option) \<Rightarrow> (sim, 'm option) io" where
  "sim_next dec w =
    (case sim_read (sim_in w) dec (sim_buf w) of
       ((cs, buf), r) \<Rightarrow> (w\<lparr>sim_in := cs, sim_buf := buf\<rparr>, r))"

definition sim_send :: "(vec_buf \<Rightarrow> unit result \<times> vec_buf) \<Rightarrow> (sim, unit) io" where
  "sim_send enc w =
    (case enc (vec_of []) of
       (Inl e, _) \<Rightarrow> (w, Inl e)
     | (Inr _, buf) \<Rightarrow>
         if sim_closed w then (w, Inl (Io_Error ''broken pipe''))
         else (w\<lparr>sim_sent := sim_sent w @ vb_data buf\<rparr>, Inr ()))"

definition sim_net :: "(sim, vec_buf) framing" where
  "sim_net =
    \<lparr>fr_split = (\<lambda>w. w),
     fr_send = sim_send,
     fr_next = sim_next,
     fr_spawn_pump = (\<lambda>d w. w\<lparr>sim_pumps := sim_pumps w @ [d]\<rparr>)\<rparr>"

lemma sim_send_ok: "sim_send enc w = (w', Inr u) \<Longrightarrow>
    fst (enc (vec_of [])) = Inr () \<and> sim_sent w' = sim_sent w @ vb_data (snd (enc (vec_of []))) \<and>
    sim_pumps w' = sim_pumps w"
  by (auto simp: sim_send_def split: prod.splits sum.splits if_splits)

lemma sim_send_pumps: "sim_send enc w = (w', r) \<Longrightarrow> sim_pumps w' = sim_pumps w"
  by (auto simp: sim_send_def split: prod.splits sum.splits if_splits)

lemma sim_next_quiet: "sim_next dec w = (w', r) \<Longrightarrow>
    sim_sent w' = sim_sent w \<and> sim_pumps w' = sim_pumps w \<and> sim_closed w' = sim_closed w"
  by (auto simp: sim_next_def split: prod.splits)

lemma sim_send_healthy: "\<not> sim_closed w \<Longrightarrow> (\<And>buf. fst (enc buf) = Inr ()) \<Longrightarrow>
    \<exists>w'. sim_send enc w = (w', Inr ()) \<and> \<not> sim_closed w' \<and>
         sim_buf w' = sim_buf w \<and> sim_in w' = sim_in w"
proof -
  assume "\<not> sim_closed w" and "\<And>buf. fst (enc buf) = Inr ()"
  moreover obtain x b where "enc (vec_of []) = (x, b)" by (cases "enc (vec_of [])")
  moreover from calculation have "x = Inr ()" by (metis fst_conv)
  ultimately show ?thesis by (simp add: sim_send_def)
qed

lemma sim_read_first:
  assumes "decodes_as vec_bytes_mut dec d"
  shows "sim_read cs dec buf = ((cs', buf'), r) \<Longrightarrow> read_first d (vb_data buf) cs = ((vb_data buf', cs'), r)"
proof (induction cs arbitrary: buf)
  case Nil
  obtain b where "dec buf = Some (b, snd (d (vb_data buf)))" "vb_data b = fst (d (vb_data buf))"
    using assms by (auto simp: decodes_as_def)
  with Nil show ?case
    by (cases "d (vb_data buf)") (auto split: sum.splits option.splits)
next
  case (Cons c cs)
  obtain b where b: "dec buf = Some (b, snd (d (vb_data buf)))" "vb_data b = fst (d (vb_data buf))"
    using assms by (auto simp: decodes_as_def)
  have "vb_data (vec_put b c) = vb_data b @ c" by (simp add: vec_put_def)
  with Cons.prems Cons.IH [of "vec_put b c"] b show ?case
    by (cases "d (vb_data buf)") (auto split: sum.splits option.splits)
qed

lemma sim_next_first:
  assumes "decodes_as vec_bytes_mut dec d" "sim_next dec w = (w', r)"
  shows "read_first d (vb_data (sim_buf w)) (sim_in w) = ((vb_data (sim_buf w'), sim_in w'), r)"
  using assms(2) sim_read_first [OF assms(1), of "sim_in w" "sim_buf w"]
  by (auto simp: sim_next_def split: prod.splits)

interpretation sim: framing_lib vec_bytes_mut sim_net sim_sent sim_pumps "\<lambda>w. \<not> sim_closed w"
  "\<lambda>w. vb_data (sim_buf w)" sim_in
proof (unfold_locales, goal_cases)
  case (1 enc w w')
  then have "sim_send enc w = (w', Inr ())" by (simp add: sim_net_def)
  from sim_send_ok [OF this] show ?case
    by (intro exI [of _ "vec_of []"]) simp
next
  case (3 w enc)
  then show ?case using sim_send_healthy [of w enc] by (auto simp: sim_net_def)
qed (auto simp: sim_net_def dest: sim_send_pumps sim_next_quiet sim_next_first)

end
