(* ===== verification/Connection_Properties.thy ===== *)
theory Connection_Properties
  imports Builders Sim_Net
begin

text \<open>
  Properties of the handshake and of the two builders, over every framing library
  that keeps the promises of \<open>framing_lib\<close>; the closed examples run on the simulated
  socket of \<open>Sim_Net\<close>.
\<close>

section \<open>The server's answer\<close>

definition interval_of :: "nat \<Rightarrow> nat \<Rightarrow> duration option" where
  "interval_of a b = (if a = 0 \<or> b = 0 then None else Some (from_millis (max a b)))"

lemma negotiate_interval: "negotiate a b = interval_of (unat a) (unat b)"
  by (auto simp: negotiate_def interval_of_def unat_max unat_eq_0)

lemma accept_connected_Inr: "accept_connected reply req = Inr (p, q) \<longleftrightarrow>
  (\<exists>s sv hb ex sx sy. reply = Some \<lparr>content = Connected ''1.2'' s sv hb, extra_headers = ex\<rparr> \<and>
     (case hb of None \<Rightarrow> Inr (0, 0) | Some h \<Rightarrow> parse_heartbeat h) = Inr (sx, sy) \<and>
     p = negotiate (case req of None \<Rightarrow> 0 | Some (cx, cy) \<Rightarrow> cx) sy \<and>
     q = negotiate sx (case req of None \<Rightarrow> 0 | Some (cx, cy) \<Rightarrow> cy))"
proof (cases reply)
  case None
  then show ?thesis by (simp add: accept_connected_def)
next
  case (Some m)
  show ?thesis
  proof (cases "content m")
    case (Connected v s sv hb)
    obtain ex where m: "m = \<lparr>content = Connected v s sv hb, extra_headers = ex\<rparr>"
      using Connected by (cases m) simp
    show ?thesis
      by (cases "v = ''1.2''")
        (auto simp: accept_connected_def Some m Let_def rbind_eq_Inr split: option.splits prod.splits)
  qed (auto simp: accept_connected_def Some)
qed

text \<open>
  C36: the answer to a CONNECT. It is accepted exactly when it is a CONNECTED for
  STOMP 1.2 whose heart-beat header, if any, holds two numbers; then each direction is
  off if either side declines it and otherwise runs at the slower of the two
  intervals, in milliseconds, the client's own offer being the sender's for what goes
  out and the receiver's for what comes in.
\<close>

theorem answer_accepted:
  "accept_connected reply req = Inr (p, q) \<longleftrightarrow>
   (\<exists>s sv hb ex sx sy. reply = Some \<lparr>content = Connected ''1.2'' s sv hb, extra_headers = ex\<rparr> \<and>
     (case hb of None \<Rightarrow> Inr (0, 0) | Some h \<Rightarrow> parse_heartbeat h) = Inr (sx, sy) \<and>
     p = interval_of (unat (case req of None \<Rightarrow> 0 | Some (cx, cy) \<Rightarrow> cx)) (unat sy) \<and>
     q = interval_of (unat sx) (unat (case req of None \<Rightarrow> 0 | Some (cx, cy) \<Rightarrow> cy)))"
  by (simp add: accept_connected_Inr negotiate_interval)

text \<open>
  A \<open>Duration\<close> has 64 bits of seconds, and multiplying it panics beyond: the tolerance that
  \<open>client_transport_new\<close> makes of an agreed interval is far below that.
\<close>

lemma tolerance_in_range:
  assumes "accept_connected reply req = Inr (p, q)" "q = Some d"
  shows "as_nanos (times_duration d 2) < 2 ^ 64 * 10 ^ 9"
proof -
  obtain x :: u32 where "d = from_millis (unat x)"
    using assms by (auto simp: accept_connected_Inr negotiate_def split: if_splits)
  moreover have "unat x < 2 ^ LENGTH(32)" by (rule unsigned_less)
  ultimately show ?thesis by simp
qed

text \<open>\<open>tokio::time::interval\<close> panics on a period of zero, which is never agreed on.\<close>

lemma intervals_positive:
  assumes "accept_connected reply req = Inr (p, q)" "p = Some d \<or> q = Some d"
  shows "0 < as_nanos d"
proof -
  obtain x :: u32 where "x \<noteq> 0" "d = from_millis (unat x)"
    using assms by (auto simp: accept_connected_Inr negotiate_def max_def split: if_splits)
  then show ?thesis by (simp add: unat_gt_0)
qed

section \<open>The handshake\<close>

text \<open>
  The handshake succeeds. On a working socket a server that answers (after any
  heart-beats) with a CONNECTED for 1.2 is accepted, however the answer is cut into
  reads; the connection has the wiring asked for and the negotiated intervals, and the
  bytes the server sent after its answer are all still there to be read.
\<close>

theorem handshake_succeeds:
  assumes "winnow_lib W" and "framing_lib B N sent pumps healthy unread inbox"
    and "healthy w" and "unread w = []" and "list_all is_eol es"
    and "server_ok (Connected ''1.2'' s sv hb)" and "from_server_utf8 (Connected ''1.2'' s sv hb)"
    and "concat (inbox w) = es @ wire (server_frame (Connected ''1.2'' s sv hb)) @ rest"
    and "length (concat (inbox w)) \<le> limit"
    and "accept_connected (Some \<lparr>content = Connected ''1.2'' s sv hb, extra_headers = []\<rparr>) requested = Inr iv"
  shows "\<exists>w'. establish W B N cmsg requested beats limit w =
      (w', Inr ((if beats then Pumped else Direct) (with_max_frame_size limit), iv)) \<and>
    dropWhile is_eol (unread w' @ concat (inbox w')) = dropWhile is_eol rest \<and>
    healthy w' \<and> length (unread w' @ concat (inbox w')) \<le> limit"
  by (rule framing_lib.establish_succeeds [OF assms(2,1,3-10)])

text \<open>A run of the handshake on the simulated socket.\<close>

abbreviation sample_connected :: from_server where
  "sample_connected \<equiv> Connected ''1.2'' None None (Some ''7,9'')"

definition sample_reads :: "bytes list" where
  "sample_reads =
    (let answer = wire (server_frame sample_connected)
     in [[LF], take 3 answer, drop 3 answer @ ''M''])"

lemma sample_accepted:
  "accept_connected (Some \<lparr>content = sample_connected, extra_headers = []\<rparr>) (Some (5, 8)) =
   Inr (Some (from_millis 9), Some (from_millis 8))"
proof -
  have "decimal 7 @ CHR '','' # decimal 9 = ''7,9''" by code_simp
  then have "heartbeat_value (7, 9) = ''7,9''"
    by (simp add: heartbeat_value_def display_u32_def)
  then have "parse_heartbeat ''7,9'' = Inr (7, 9)"
    using parse_heartbeat_value [of 7 9] by simp
  then show ?thesis by (simp add: accept_connected_def negotiate_def)
qed

lemma sample_facts:
  "server_ok sample_connected" "from_server_utf8 sample_connected" "list_all is_eol [LF]"
  by (simp_all add: no_eol_def opt_no_eol_def is_eol_def ascii_def byte_in_def utf8_valid_ascii)

lemma sample_concat: "concat sample_reads = [LF] @ wire (server_frame sample_connected) @ ''M''"
  by (simp add: sample_reads_def Let_def)

lemma sample_length: "length (concat sample_reads) \<le> 100"
  unfolding sample_concat
  by (simp add: wire_def wire_header_def List.map_filter_def headers_are_escaped_def)

lemma sample_sim [simp]:
  "\<not> sim_closed (sim_of cs)" "vb_data (sim_buf (sim_of cs)) = []" "sim_in (sim_of cs) = cs"
  "sim_sent (sim_of cs) = []" "sim_pumps (sim_of cs) = []"
  by (simp_all add: sim_of_def)

lemma sample_run:
  obtains w' where "establish winnow_ref vec_bytes_mut sim_net cmsg (Some (5, 8)) True 100
      (sim_of sample_reads) =
    (w', Inr (Pumped (with_max_frame_size 100), Some (from_millis 9), Some (from_millis 8)))"
proof -
  have "\<exists>w'. establish winnow_ref vec_bytes_mut sim_net cmsg (Some (5, 8)) True 100
      (sim_of sample_reads) =
      (w', Inr ((if True then Pumped else Direct) (with_max_frame_size 100),
                Some (from_millis 9), Some (from_millis 8))) \<and>
    dropWhile is_eol (vb_data (sim_buf w') @ concat (sim_in w')) = dropWhile is_eol ''M'' \<and>
    \<not> sim_closed w' \<and> length (vb_data (sim_buf w') @ concat (sim_in w')) \<le> 100"
    by (rule sim.establish_succeeds [OF wref.winnow_lib_axioms, where es = "[LF]" and s = None and sv = None and hb = "Some ''7,9''"])
      (use sample_facts sample_concat sample_length sample_accepted in simp_all)
  then show thesis using that by auto
qed

theorem handshake_succeeds_witness:
  "\<exists>w'. establish winnow_ref vec_bytes_mut sim_net (message_from (Connect ''1.2'' ''h'' None None (Some (5, 8))))
      (Some (5, 8)) True 100 (sim_of sample_reads) =
      (w', Inr ((if True then Pumped else Direct) (with_max_frame_size 100),
                Some (from_millis 9), Some (from_millis 8))) \<and>
    dropWhile is_eol (vb_data (sim_buf w') @ concat (sim_in w')) = dropWhile is_eol ''M'' \<and>
    \<not> sim_closed w' \<and> length (vb_data (sim_buf w') @ concat (sim_in w')) \<le> 100"
  by (rule handshake_succeeds [OF wref.winnow_lib_axioms sim.framing_lib_axioms, where es = "[LF]" and s = None and sv = None and hb = "Some ''7,9''"])
    (use sample_facts sample_concat sample_length sample_accepted in simp_all)

text \<open>
  C20: the server's first frame decides the handshake, whatever it is. Any conforming frame
  that the server sends first (after any heart-beats, cut into reads in any way) gives
  exactly the verdict of \<open>accept_connected\<close>: the negotiated intervals, or the error. In
  either case the CONNECT frame, and nothing else, has been written, the bytes after the
  frame are all still there to be read, and a pump has been started only for a beating
  connection that was accepted.
\<close>

theorem handshake_decided:
  assumes "winnow_lib W" and "framing_lib B N sent pumps healthy unread inbox"
    and "healthy w" and "unread w = []" and "list_all is_eol es"
    and "server_ok m" and "from_server_utf8 m"
    and "concat (inbox w) = es @ wire (server_frame m) @ rest"
    and "length (concat (inbox w)) \<le> limit"
  shows "\<exists>w'. establish W B N cmsg requested beats limit w =
      (case accept_connected (Some \<lparr>content = m, extra_headers = server_extra m\<rparr>) requested of
         Inr iv \<Rightarrow> (w', Inr ((if beats then Pumped else Direct) (with_max_frame_size limit), iv))
       | Inl e \<Rightarrow> (w', Inl e)) \<and>
    dropWhile is_eol (unread w' @ concat (inbox w')) = dropWhile is_eol rest \<and>
    healthy w' \<and> length (unread w' @ concat (inbox w')) \<le> limit \<and>
    sent w' = sent w @ wire (message_to_frame cmsg) \<and>
    pumps w' = pumps w @
      (case accept_connected (Some \<lparr>content = m, extra_headers = server_extra m\<rparr>) requested of
         Inr iv \<Rightarrow> if beats then [fst iv] else [] | Inl e \<Rightarrow> [])"
  by (rule framing_lib.establish_reply [OF assms(2,1,3-9)])

theorem handshake_decided_witness:
  "\<exists>w' :: sim. establish winnow_ref vec_bytes_mut sim_net (message_from (Begin ''q'')) (Some (5, 8)) True 100
      (sim_of [[LF], wire (server_frame (Error (Some ''no'') None)) @ ''M'']) =
      (case accept_connected (Some \<lparr>content = Error (Some ''no'') None, extra_headers = server_extra (Error (Some ''no'') None)\<rparr>)
          (Some (5, 8)) of
         Inr iv \<Rightarrow> (w', Inr ((if True then Pumped else Direct) (with_max_frame_size 100), iv))
       | Inl e \<Rightarrow> (w', Inl e)) \<and>
    dropWhile is_eol (vb_data (sim_buf w') @ concat (sim_in w')) = dropWhile is_eol ''M'' \<and>
    \<not> sim_closed w' \<and> length (vb_data (sim_buf w') @ concat (sim_in w')) \<le> 100 \<and>
    sim_sent w' = sim_sent (sim_of [[LF], wire (server_frame (Error (Some ''no'') None)) @ ''M'']) @
      wire (message_to_frame (message_from (Begin ''q''))) \<and>
    sim_pumps w' = sim_pumps (sim_of [[LF], wire (server_frame (Error (Some ''no'') None)) @ ''M'']) @
      (case accept_connected (Some \<lparr>content = Error (Some ''no'') None, extra_headers = server_extra (Error (Some ''no'') None)\<rparr>)
          (Some (5, 8)) of
         Inr iv \<Rightarrow> if True then [fst iv] else [] | Inl e \<Rightarrow> [])"
  by (rule handshake_decided [OF wref.winnow_lib_axioms sim.framing_lib_axioms, where es = "[LF]"])
    (simp_all add: is_eol_def wire_def wire_header_def List.map_filter_def headers_are_escaped_def escape_byte_def
      ascii_def byte_in_def utf8_valid_ascii)

text \<open>
  What a successful handshake has done. The CONNECT frame, and nothing else, has
  been written; the server's answer was accepted with the intervals returned; and a
  write pump runs exactly when the connection is to beat on its own.
\<close>

theorem handshake_outcome:
  assumes "framing_lib B N sent pumps healthy unread inbox"
    and "establish W B N cmsg requested beats limit w = (w', Inr (tr, p, q))"
  shows "sent w' = sent w @ wire (message_to_frame cmsg) \<and>
    (\<exists>reply. accept_connected reply requested = Inr (p, q)) \<and>
    tr = (if beats then Pumped else Direct) (with_max_frame_size limit) \<and>
    pumps w' = pumps w @ (if beats then [p] else [])"
  by (rule framing_lib.establish_ok [OF assms])

theorem handshake_outcome_witness:
  "\<exists>w' :: sim. sim_sent w' =
      wire (message_to_frame (message_from (Connect ''1.2'' ''h'' None None (Some (5, 8))))) \<and>
    sim_pumps w' = [Some (from_millis 9)]"
proof -
  obtain w' where "establish winnow_ref vec_bytes_mut sim_net
      (message_from (Connect ''1.2'' ''h'' None None (Some (5, 8)))) (Some (5, 8)) True 100
      (sim_of sample_reads) =
    (w', Inr (Pumped (with_max_frame_size 100), Some (from_millis 9), Some (from_millis 8)))"
    by (rule sample_run)
  note handshake_outcome [OF sim.framing_lib_axioms this]
  then have "sim_sent w' =
      wire (message_to_frame (message_from (Connect ''1.2'' ''h'' None None (Some (5, 8)))))"
    "sim_pumps w' = [Some (from_millis 9)]"
    unfolding sample_sim by simp_all
  then show ?thesis by blast
qed

text \<open>
  A handshake that fails, for whatever reason, leaves no write pump behind.
\<close>

theorem failed_handshake_spawns_nothing:
  assumes "framing_lib B N sent pumps healthy unread inbox"
    and "establish W B N cmsg requested beats limit w = (w', Inl e)"
  shows "pumps w' = pumps w"
  by (rule framing_lib.establish_failed [OF assms])

theorem failed_handshake_spawns_nothing_witness:
  "\<exists>w' e. establish winnow_ref vec_bytes_mut sim_net (message_from (Begin ''1'')) None True 10
        ((sim_of [])\<lparr>sim_closed := True\<rparr>) = (w', Inl e) \<and>
      sim_pumps w' = sim_pumps ((sim_of [])\<lparr>sim_closed := True\<rparr>)"
proof -
  have "establish winnow_ref vec_bytes_mut sim_net (message_from (Begin ''1'')) None True 10
        ((sim_of [])\<lparr>sim_closed := True\<rparr>) =
      ((sim_of [])\<lparr>sim_closed := True\<rparr>, Inl (Io_Error ''broken pipe''))"
    by (simp add: establish_def Let_def ibind_def sim_net_def sim_send_def encode_message_def)
  with failed_handshake_spawns_nothing [OF sim.framing_lib_axioms this] show ?thesis by blast
qed

section \<open>Connecting\<close>

lemma accept_outgoing:
  "accept_connected reply req = Inr (p, q) \<Longrightarrow> p \<noteq> None \<Longrightarrow> (\<exists>cx cy. req = Some (cx, cy) \<and> 0 < cx)"
  by (cases req) (auto simp: accept_connected_Inr negotiate_def word_neq_0_conv split: if_splits)

lemma connect_Inr:
  assumes "connect W B net adapters into self w = (w', Inr ct)"
  obtains w1 st tr p q where "open_stream net self w = (w1, Inr st)"
    "establish W B (adapters st) (connector_msg into self) (cn_heartbeat self) (connector_beats self)
       (cn_max_frame_size self) w1 = (w', Inr (tr, p, q))"
    "ct = client_transport_new tr p q (cn_auto_heartbeat self)"
  using assms by (auto simp: connect_def ibind_Inr Let_def)

text \<open>A network for the closed examples: TCP always connects, TLS wraps the same socket.\<close>

definition sample_net :: "(sim, rstring, unit, unit, unit, rstring) net" where
  "sample_net =
    \<lparr>net_tcp_connect = (\<lambda>_. ireturn ()),
     net_peer_ip = (\<lambda>_. ireturn ''::1''),
     net_parse_ip = (\<lambda>_. None),
     net_parse_dns = (\<lambda>s. Some s),
     net_server_roots = [(''r'', ''k'', None)],
     net_tls_connect = (\<lambda>_ _ _. ireturn ())\<rparr>"

definition sample_connector :: "(rstring, rstring) connector" where
  "sample_connector =
    set_use_tls True (set_tls_server_name ''q'' (set_max_frame_size 100
      (set_heartbeat 5 8 (set_virtualhost ''h'' (set_server ''a'' connector_builder)))))"

lemma sample_connector_simps:
  "cn_heartbeat sample_connector = Some (5, 8)" "cn_auto_heartbeat sample_connector"
  "cn_max_frame_size sample_connector = 100" "connector_beats sample_connector"
  "cn_use_tls sample_connector" "cn_tls_server_name sample_connector = Some ''q''"
  by (simp_all add: sample_connector_def connector_builder_def set_server_def set_virtualhost_def
      set_heartbeat_def set_max_frame_size_def set_use_tls_def set_tls_server_name_def connector_beats_def)

lemma sample_open: "open_stream sample_net sample_connector w = (w, Inr (Tls ()))"
  by (simp add: open_stream_def sample_net_def ibind_def tls_host_def tls_name_def
      create_tls_connector_def sample_connector_simps)

lemma sample_connect:
  obtains w' where "connect winnow_ref vec_bytes_mut sample_net (\<lambda>_. sim_net) (\<lambda>v. v) sample_connector
      (sim_of sample_reads) =
    (w', Inr (client_transport_new (Pumped (with_max_frame_size 100)) (Some (from_millis 9))
                (Some (from_millis 8)) True))"
proof -
  obtain w' where "establish winnow_ref vec_bytes_mut sim_net (connector_msg (\<lambda>v. v) sample_connector)
      (Some (5, 8)) True 100 (sim_of sample_reads) =
    (w', Inr (Pumped (with_max_frame_size 100), Some (from_millis 9), Some (from_millis 8)))"
    by (rule sample_run)
  then show thesis
    by (intro that [of w']) (simp add: connect_def ibind_def sample_open sample_connector_simps)
qed

text \<open>
  What \<open>connect\<close> has done when it returns a transport. The stream was opened as
  configured; on it exactly the CONNECT frame of the connector was written; the
  transport carries the intervals negotiated from the connector's own request, and the
  wiring and the background task follow from its options.
\<close>

theorem connect_outcome:
  assumes "\<And>st. framing_lib B (adapters st) sent pumps healthy unread inbox"
    and "connect W B net adapters into self w = (w', Inr ct)"
  shows "\<exists>w1 st reply. open_stream net self w = (w1, Inr st) \<and>
    sent w' = sent w1 @ wire (message_to_frame (connector_msg into self)) \<and>
    accept_connected reply (cn_heartbeat self) = Inr (transport_heartbeat ct) \<and>
    ct_transport ct =
      (if connector_beats self then Pumped else Direct) (with_max_frame_size (cn_max_frame_size self)) \<and>
    pumps w' = pumps w1 @ (if connector_beats self then [ct_outgoing ct] else [])"
proof -
  from assms(2) obtain w1 st tr p q where c: "open_stream net self w = (w1, Inr st)"
    "establish W B (adapters st) (connector_msg into self) (cn_heartbeat self) (connector_beats self)
       (cn_max_frame_size self) w1 = (w', Inr (tr, p, q))"
    "ct = client_transport_new tr p q (cn_auto_heartbeat self)"
    by (rule connect_Inr)
  from framing_lib.establish_ok [OF assms(1) c(2)] c(1,3) show ?thesis
    by (auto simp: client_transport_new_def transport_heartbeat_def)
qed

theorem connect_outcome_witness:
  "\<exists>(w' :: sim) ct. connect winnow_ref vec_bytes_mut sample_net (\<lambda>_. sim_net) (\<lambda>v. v) sample_connector
      (sim_of sample_reads) = (w', Inr ct) \<and>
    sim_sent w' = wire (message_to_frame (connector_msg (\<lambda>v. v) sample_connector))"
proof -
  obtain w' where r: "connect winnow_ref vec_bytes_mut sample_net (\<lambda>_. sim_net) (\<lambda>v. v) sample_connector
      (sim_of sample_reads) =
    (w', Inr (client_transport_new (Pumped (with_max_frame_size 100)) (Some (from_millis 9))
                (Some (from_millis 8)) True))"
    by (rule sample_connect)
  from connect_outcome [OF sim.framing_lib_axioms this] have
    "sim_sent w' = wire (message_to_frame (connector_msg (\<lambda>v. v) sample_connector))"
    by (auto simp: sample_open)
  with r show ?thesis by blast
qed

text \<open>
  C21: a connection that has to beat has a pump to do it. If automatic beating is on and
  the handshake settled on an outgoing interval, the transport is a pumped one and the
  task was started with that interval, although the choice was made before the server
  answered; and the server is watched exactly when automatic beating is on and there
  is an incoming interval, with a tolerance of twice that interval.
\<close>

theorem beating_connection_has_pump:
  assumes "\<And>st. framing_lib B (adapters st) sent pumps healthy unread inbox"
    and "connect W B net adapters into self w = (w', Inr ct)"
  shows "(if cn_auto_heartbeat self \<and> ct_outgoing ct \<noteq> None
      then (\<exists>codec. ct_transport ct = Pumped codec) \<and> ct_outgoing ct \<in> set (pumps w')
      else True) \<and>
    ct_supervise ct =
      (if cn_auto_heartbeat self
       then map_option (\<lambda>period. (times_duration period 2, period)) (ct_incoming ct) else None)"
proof -
  from assms(2) obtain w1 st tr p q where c: "open_stream net self w = (w1, Inr st)"
    "establish W B (adapters st) (connector_msg into self) (cn_heartbeat self) (connector_beats self)
       (cn_max_frame_size self) w1 = (w', Inr (tr, p, q))"
    "ct = client_transport_new tr p q (cn_auto_heartbeat self)"
    by (rule connect_Inr)
  note e = framing_lib.establish_ok [OF assms(1) c(2)]
  then obtain reply where "accept_connected reply (cn_heartbeat self) = Inr (p, q)" by blast
  then have "p \<noteq> None \<Longrightarrow> cn_auto_heartbeat self \<Longrightarrow> connector_beats self"
    by (auto simp: connector_beats_def dest!: accept_outgoing)
  with e c(3) show ?thesis by (auto simp: client_transport_new_def)
qed

theorem beating_connection_has_pump_witness:
  "\<exists>(w' :: sim) ct. connect winnow_ref vec_bytes_mut sample_net (\<lambda>_. sim_net) (\<lambda>v. v) sample_connector
      (sim_of sample_reads) = (w', Inr ct) \<and>
    ct_outgoing ct = Some (from_millis 9) \<and> Some (from_millis 9) \<in> set (sim_pumps w') \<and>
    ct_supervise ct = Some (times_duration (from_millis 8) 2, from_millis 8)"
proof -
  let ?ct = "client_transport_new (Pumped (with_max_frame_size 100)) (Some (from_millis 9))
                (Some (from_millis 8)) True"
  obtain w' where r: "connect winnow_ref vec_bytes_mut sample_net (\<lambda>_. sim_net) (\<lambda>v. v) sample_connector
      (sim_of sample_reads) = (w', Inr ?ct)"
    by (rule sample_connect)
  from beating_connection_has_pump [OF sim.framing_lib_axioms this] have
    "Some (from_millis 9) \<in> set (sim_pumps w')"
    "ct_supervise ?ct = Some (times_duration (from_millis 8) 2, from_millis 8)"
    by (simp_all add: client_transport_new_def sample_connector_simps)
  with r show ?thesis
    by (intro exI [of _ w'] exI [of _ ?ct]) (simp add: client_transport_new_def)
qed

section \<open>TLS\<close>

text \<open>
  C37: no silent fall-back to plain text, and no unverified name. The stream is a TLS
  stream exactly when TLS was asked for, and then the handshake was done with a name
  that is the configured one or, without one, the address of the peer, against the
  built-in roots; a name that is neither an address nor a valid DNS name opens nothing.
\<close>

theorem tls_as_configured:
  assumes "open_stream net self w = (w', Inr st)"
  shows "cn_use_tls self = (\<exists>t. st = Tls t) \<and>
    (cn_use_tls self = False \<or>
     (\<exists>w1 w2 tcp host name t. net_tcp_connect net (cn_server self) w = (w1, Inr tcp) \<and>
        (case cn_tls_server_name self of
           Some n \<Rightarrow> host = n \<and> w2 = w1
         | None \<Rightarrow> net_peer_ip net tcp w1 = (w2, Inr host) \<and> host \<noteq> []) \<and>
        name = (case net_parse_ip net host of Some ip \<Rightarrow> IpAddress ip
                | None \<Rightarrow> DnsName (the (net_parse_dns net host))) \<and>
        (net_parse_ip net host \<noteq> None \<or> net_parse_dns net host \<noteq> None) \<and>
        net_tls_connect net \<lparr>tc_roots = net_server_roots net, tc_client_auth = False\<rparr> name tcp w2 = (w', Inr t) \<and>
        st = Tls t))"
proof (cases "cn_use_tls self")
  case False
  with assms show ?thesis by (auto simp: open_stream_def ibind_Inr)
next
  case True
  with assms obtain w1 tcp w2 host w3 name t where s: "net_tcp_connect net (cn_server self) w = (w1, Inr tcp)"
    "tls_host net self tcp w1 = (w2, Inr host)" "tls_name net host w2 = (w3, Inr name)"
    "net_tls_connect net \<lparr>tc_roots = net_server_roots net, tc_client_auth = False\<rparr> name tcp w3 = (w', Inr t)"
    "st = Tls t"
    by (auto simp: open_stream_def create_tls_connector_def ibind_Inr)
  from s(2) have "case cn_tls_server_name self of
      Some n \<Rightarrow> host = n \<and> w2 = w1
    | None \<Rightarrow> net_peer_ip net tcp w1 = (w2, Inr host) \<and> host \<noteq> []"
    by (auto simp: tls_host_def ibind_Inr split: option.splits if_splits)
  moreover from s(3) have "w3 = w2" "name = (case net_parse_ip net host of Some ip \<Rightarrow> IpAddress ip
      | None \<Rightarrow> DnsName (the (net_parse_dns net host)))"
    "net_parse_ip net host \<noteq> None \<or> net_parse_dns net host \<noteq> None"
    by (auto simp: tls_name_def split: option.splits)
  ultimately show ?thesis using s True by blast
qed

theorem tls_as_configured_witness:
  "cn_use_tls sample_connector = (\<exists>t. Tls () = (Tls t :: (unit, unit) transport_stream)) \<and>
   (\<exists>w1 w2 tcp host. net_tcp_connect sample_net (cn_server sample_connector) (sim_of []) = (w1, Inr tcp) \<and>
      host = ''q'' \<and> w2 = w1 \<and>
      net_tls_connect sample_net \<lparr>tc_roots = [(''r'', ''k'', None)], tc_client_auth = False\<rparr> (DnsName host) tcp w2 =
        (sim_of [], Inr ()))"
  using tls_as_configured [OF sample_open [of "sim_of []"]]
  by (simp add: sample_connector_simps sample_net_def)

text \<open>
  The name a certificate is checked against does not depend on \<open>server\<close>. Without a
  configured name it is the numeric address of the peer, whatever host name the
  connector was given.
\<close>

theorem tls_name_ignores_server:
  "tls_host net self tcp w =
    (case cn_tls_server_name self of
       Some name \<Rightarrow> (w, Inr name)
     | None \<Rightarrow>
         (case net_peer_ip net tcp w of
            (w1, Inr ip) \<Rightarrow> (w1, if ip = [] then Inl No_Tls_Hostname else Inr ip)
          | (w1, Inl e) \<Rightarrow> (w1, Inl e))) \<and>
   tls_host net (set_server s self) tcp w = tls_host net self tcp w"
  by (auto simp: tls_host_def set_server_def ibind_def split: option.splits prod.splits sum.splits)

section \<open>The builders\<close>

text \<open>
  The CONNECT frame of a connector. It asks for STOMP 1.2 and carries the virtual
  host, the credentials and the heart-beat offer that were configured, in this order;
  of the extra headers those that would repeat one of these are left out.
\<close>

theorem connector_frame:
  "message_to_frame (connector_msg into self) =
   (let fixed = [(''accept-version'', ''1.2''), (''host'', into (cn_virtualhost self))] @
          (case cn_login self of None \<Rightarrow> [] | Some l \<Rightarrow> [(''login'', l)]) @
          (case cn_heartbeat self of None \<Rightarrow> [] | Some hb \<Rightarrow> [(''heart-beat'', heartbeat_value hb)]) @
          (case cn_passcode self of None \<Rightarrow> [] | Some p \<Rightarrow> [(''passcode'', p)])
    in \<lparr>fr_command = ''CONNECT'',
        fr_headers = fixed @ filter (\<lambda>(k, _). k \<notin> fst ` set fixed) (cn_headers self),
        fr_body = None\<rparr>)"
  by (cases "cn_login self"; cases "cn_heartbeat self"; cases "cn_passcode self"; rule frame.equality)
    (simp_all add: message_to_frame_def connector_msg_def List.map_filter_def Let_def)

text \<open>
  The setters of \<open>Connector\<close> that change its type keep every other option, and each
  option set is the option used: the configuration read back after setting everything
  is the one that was set.
\<close>

theorem connector_keeps_options:
  "(let c = set_server s (set_virtualhost v self)
    in connector_msg into (set_server s self) = connector_msg into self \<and>
       connector_beats c = connector_beats self \<and> cn_server c = s \<and> cn_virtualhost c = v \<and>
       cn_login c = cn_login self \<and> cn_passcode c = cn_passcode self \<and> cn_headers c = cn_headers self \<and>
       cn_use_tls c = cn_use_tls self \<and> cn_tls_server_name c = cn_tls_server_name self \<and>
       cn_max_frame_size c = cn_max_frame_size self \<and> cn_heartbeat c = cn_heartbeat self \<and>
       cn_auto_heartbeat c = cn_auto_heartbeat self) \<and>
   set_server s (set_virtualhost v (set_login l (set_passcode p (set_headers hs (set_use_tls t
     (set_tls_server_name n (set_max_frame_size m (set_heartbeat x y (set_auto_heartbeat a
       connector_builder))))))))) =
   \<lparr>cn_server = s, cn_virtualhost = v, cn_login = Some l, cn_passcode = Some p, cn_headers = hs,
    cn_use_tls = t, cn_tls_server_name = Some n, cn_max_frame_size = m, cn_heartbeat = Some (x, y),
    cn_auto_heartbeat = a\<rparr>"
  by (simp add: Let_def connector_msg_def connector_beats_def connector_builder_def set_server_def
      set_virtualhost_def set_login_def set_passcode_def set_headers_def set_use_tls_def
      set_tls_server_name_def set_max_frame_size_def set_heartbeat_def set_auto_heartbeat_def)

text \<open>
  The SUBSCRIBE frame of a subscriber: destination, id and, only if one was
  chosen, the acknowledgment mode, then the extra headers that repeat none of these.
\<close>

theorem subscriber_frame:
  "message_to_frame (subscribe into_d into_i self) =
   (let fixed = [(''destination'', into_d (sb_destination self)), (''id'', into_i (sb_id self))] @
          (case sb_ack self of None \<Rightarrow> [] | Some a \<Rightarrow> [(''ack'', ack_mode_bytes a)])
    in \<lparr>fr_command = ''SUBSCRIBE'',
        fr_headers = fixed @ filter (\<lambda>(k, _). k \<notin> fst ` set fixed) (sb_headers self),
        fr_body = None\<rparr>)"
  by (cases "sb_ack self"; rule frame.equality)
    (simp_all add: message_to_frame_def subscribe_def List.map_filter_def Let_def)

end
