(* ===== verification/Channels.thy ===== *)
theory Channels
  imports Codec
begin

text \<open>
  The asynchronous libraries under the write pump of \<open>src/client.rs\<close>: polling, the
  bounded channel (\<open>futures::channel::mpsc\<close>), the one-shot channel that carries a
  write result back, and the framed write half of the socket. None of them is part
  of the repository: the records \<open>C\<close> and \<open>X\<close> of their operations, over a world of
  type \<open>'w\<close>, are arguments of the definitions that use them. What their
  documentation promises is stated in the locale \<open>pump_lib\<close> on the part of the
  world it is about, the record \<open>link\<close>.
\<close>

section \<open>Polling\<close>

datatype 'a poll = Pending | Ready 'a

text \<open>
  Awaiting \<open>poll_fn\<close>: poll; while the answer is pending let the other tasks \<open>run\<close> and
  poll again. A future that is never ready is \<open>None\<close>.
\<close>

partial_function (option) await ::
    "('w \<Rightarrow> 'w) \<Rightarrow> ('p \<Rightarrow> 'w \<Rightarrow> 'p \<times> 'w \<times> 'a poll) \<Rightarrow> 'p \<Rightarrow> 'w \<Rightarrow> ('p \<times> 'w \<times> 'a) option" where
  "await run f p w =
    (case f p w of (p', w', y) \<Rightarrow>
       (case y of
          Ready x \<Rightarrow> Some (p', w', x)
        | Pending \<Rightarrow> await run f p' (run w')))"

lemma await_ready: "f p w = (p', w', Ready x) \<Longrightarrow> await run f p w = Some (p', w', x)"
  by (subst await.simps) simp

lemma await_pending: "f p w = (p', w', Pending) \<Longrightarrow> await run f p w = await run f p' (run w')"
  by (subst await.simps) simp

section \<open>Channels and the framed writer\<close>

text \<open>
  \<open>'k\<close> names a one-shot channel, both of its ends. \<open>ch_poll_ready\<close> gives \<open>None\<close> and
  \<open>ch_start_send\<close> gives \<open>False\<close> when the channel is closed, \<open>os_poll\<close> gives \<open>None\<close>
  when the other end was dropped, \<open>ch_recv\<close> gives \<open>None\<close> when the channel is closed
  and drained. \<open>ch_drop_rx\<close> is the end of the task that holds the receiver.
\<close>

record ('w, 'k) channels =
  ch_poll_ready :: "'w \<Rightarrow> 'w \<times> unit option poll"
  ch_start_send :: "outgoing \<times> 'k \<Rightarrow> 'w \<Rightarrow> 'w \<times> bool"
  ch_close :: "'w \<Rightarrow> 'w"
  ch_recv :: "'w \<Rightarrow> 'w \<times> (outgoing \<times> 'k) option poll"
  ch_drop_rx :: "'w \<Rightarrow> 'w"
  os_channel :: "'w \<Rightarrow> 'w \<times> 'k"
  os_send :: "'k \<Rightarrow> unit result \<Rightarrow> 'w \<Rightarrow> 'w"
  os_poll :: "'k \<Rightarrow> 'w \<Rightarrow> 'w \<times> unit result option poll"

record ('w, 'b) framed_writer =
  fw_send :: "('b \<Rightarrow> unit result \<times> 'b) \<Rightarrow> 'w \<Rightarrow> 'w \<times> unit result"
  fw_close :: "'w \<Rightarrow> 'w \<times> unit result"

text \<open>What the promises are about.\<close>

datatype slot = Unused | Waiting | Answered "unit result" | Cancelled

record 'k link =
  lk_queue :: "(outgoing \<times> 'k) list"
  lk_tx :: bool
  lk_rx :: bool
  lk_slot :: "'k \<Rightarrow> slot"
  lk_sent :: bytes
  lk_shut :: bool

text \<open>
  The promises. A channel is first in, first out; sending fails exactly when an end
  is closed, for an empty channel; receiving waits while the channel is empty and open;
  a one-shot delivers the value sent on it, or a cancellation when its sender was
  dropped unsent. Sending a frame writes what the encoder made of an empty buffer, if it
  succeeds, and otherwise some bytes.
\<close>

locale pump_lib = bytes_mut_lib B for B :: "'b bytes_mut" +
  fixes C :: "('w, 'k) channels" and X :: "('w, 'b) framed_writer" and view :: "'w \<Rightarrow> 'k link"
  assumes new_oneshot: "os_channel C w = (w', k) \<Longrightarrow> lk_slot (view w) k = Unused \<and>
        view w' = (view w)\<lparr>lk_slot := (lk_slot (view w))(k := Waiting)\<rparr>"
    and poll_ready_view: "ch_poll_ready C w = (w', y) \<Longrightarrow> view w' = view w \<and>
        (y = Ready (Some ()) \<longrightarrow> lk_tx (view w))"
    and poll_ready_open: "lk_queue (view w) = [] \<Longrightarrow> lk_tx (view w) \<Longrightarrow> lk_rx (view w) \<Longrightarrow>
        snd (ch_poll_ready C w) = Ready (Some ())"
    and poll_ready_gone: "\<not> lk_tx (view w) \<or> \<not> lk_rx (view w) \<Longrightarrow>
        snd (ch_poll_ready C w) = Ready None"
    and start_send_ok: "ch_start_send C (it, k) w = (w', True) \<Longrightarrow> lk_rx (view w) \<and> lk_tx (view w) \<and>
        view w' = (view w)\<lparr>lk_queue := lk_queue (view w) @ [(it, k)]\<rparr>"
    and start_send_failed: "ch_start_send C (it, k) w = (w', False) \<Longrightarrow>
        view w' = (view w)\<lparr>lk_slot := (lk_slot (view w))(k := Cancelled)\<rparr>"
    and start_send_open: "lk_queue (view w) = [] \<Longrightarrow> lk_tx (view w) \<Longrightarrow> lk_rx (view w) \<Longrightarrow>
        snd (ch_start_send C (it, k) w)"
    and close_view: "view (ch_close C w) = (view w)\<lparr>lk_tx := False\<rparr>"
    and recv_item: "lk_queue (view w) = x # q \<Longrightarrow>
        \<exists>w'. ch_recv C w = (w', Ready (Some x)) \<and> view w' = (view w)\<lparr>lk_queue := q\<rparr>"
    and recv_wait: "lk_queue (view w) = [] \<Longrightarrow> lk_tx (view w) \<Longrightarrow>
        \<exists>w'. ch_recv C w = (w', Pending) \<and> view w' = view w"
    and recv_end: "lk_queue (view w) = [] \<Longrightarrow> \<not> lk_tx (view w) \<Longrightarrow>
        \<exists>w'. ch_recv C w = (w', Ready None) \<and> view w' = view w"
    and drop_rx_view: "view (ch_drop_rx C w) = (view w)\<lparr>lk_rx := False, lk_queue := [],
        lk_slot := (\<lambda>k. if k \<in> snd ` set (lk_queue (view w)) then Cancelled else lk_slot (view w) k)\<rparr>"
    and os_send_view: "lk_slot (view w) k = Waiting \<Longrightarrow>
        view (os_send C k r w) = (view w)\<lparr>lk_slot := (lk_slot (view w))(k := Answered r)\<rparr>"
    and os_poll_view: "os_poll C k w = (w', ack) \<Longrightarrow> view w' = view w"
    and os_poll_waiting: "lk_slot (view w) k = Waiting \<Longrightarrow> snd (os_poll C k w) = Pending"
    and os_poll_answered: "lk_slot (view w) k = Answered r \<Longrightarrow> snd (os_poll C k w) = Ready (Some r)"
    and os_poll_cancelled: "lk_slot (view w) k = Cancelled \<Longrightarrow> snd (os_poll C k w) = Ready None"
    and fw_send_ok: "fw_send X enc w = (w', Inr u) \<Longrightarrow> \<exists>buf. bm_bytes B buf = [] \<and>
        fst (enc buf) = Inr () \<and>
        view w' = (view w)\<lparr>lk_sent := lk_sent (view w) @ bm_bytes B (snd (enc buf))\<rparr>"
    and fw_send_failed: "fw_send X enc w = (w', Inl e) \<Longrightarrow>
        \<exists>bs. view w' = (view w)\<lparr>lk_sent := lk_sent (view w) @ bs\<rparr>"
    and fw_close_view: "fw_close X w = (w', r) \<Longrightarrow> view w' = (view w)\<lparr>lk_shut := True\<rparr>"

end
