(* ===== verification/Write_Pump.thy ===== *)
theory Write_Pump
  imports Channels
begin

text \<open>
  \<open>Pump\<close> and \<open>write_pump\<close> of \<open>src/client.rs\<close>: the caller's end of a pumped connection
  and the task that owns the write half. \<open>pump_step\<close> is the interleaving of the two.
\<close>

section \<open>The caller's end\<close>

text \<open>The sender \<open>tx\<close> is the one channel of the world.\<close>

record 'k pump =
  pu_pending :: "'k option"

definition pump_poll_flush :: "('w, 'k) channels \<Rightarrow> 'k pump \<Rightarrow> 'w \<Rightarrow> 'k pump \<times> 'w \<times> unit result poll" where
  "pump_poll_flush C self w =
    (case pu_pending self of
       None \<Rightarrow> (self, w, Ready (Inr ()))
     | Some ack \<Rightarrow>
         (case os_poll C ack w of
            (w, Pending) \<Rightarrow> (self, w, Pending)
          | (w, Ready result) \<Rightarrow>
              (self\<lparr>pu_pending := None\<rparr>, w,
               Ready (case result of Some r \<Rightarrow> r | None \<Rightarrow> Inl Connection_Closed))))"

definition pump_poll_ready :: "('w, 'k) channels \<Rightarrow> 'k pump \<Rightarrow> 'w \<Rightarrow> 'k pump \<times> 'w \<times> unit result poll" where
  "pump_poll_ready C self w =
    (case pump_poll_flush C self w of
       (self, w, Pending) \<Rightarrow> (self, w, Pending)
     | (self, w, Ready (Inl e)) \<Rightarrow> (self, w, Ready (Inl e))
     | (self, w, Ready (Inr u)) \<Rightarrow>
         (case ch_poll_ready C w of
            (w, Pending) \<Rightarrow> (self, w, Pending)
          | (w, Ready None) \<Rightarrow> (self, w, Ready (Inl Connection_Closed))
          | (w, Ready (Some v)) \<Rightarrow> (self, w, Ready (Inr ()))))"

definition pump_start_send :: "('w, 'k) channels \<Rightarrow> outgoing \<Rightarrow> 'k pump \<Rightarrow> 'w \<Rightarrow> 'k pump \<times> 'w \<times> unit result" where
  "pump_start_send C item self w =
    (case os_channel C w of
       (w, ack) \<Rightarrow>
         (case ch_start_send C (item, ack) w of
            (w, sent) \<Rightarrow>
              if sent then (self\<lparr>pu_pending := Some ack\<rparr>, w, Inr ())
              else (self, w, Inl Connection_Closed)))"

text \<open>\<open>Pump::send\<close>; \<open>None\<close> is a send that never completes.\<close>

definition pump_send :: "('w \<Rightarrow> 'w) \<Rightarrow> ('w, 'k) channels \<Rightarrow> outgoing \<Rightarrow> 'k pump \<Rightarrow> 'w \<Rightarrow>
    ('k pump \<times> 'w \<times> unit result) option" where
  "pump_send run C item self w =
    (case await run (pump_poll_ready C) self w of
       None \<Rightarrow> None
     | Some (self, w, Inl e) \<Rightarrow> Some (self, w, Inl e)
     | Some (self, w, Inr u) \<Rightarrow>
         (case pump_start_send C item self w of
            (self, w, Inl e) \<Rightarrow> Some (self, w, Inl e)
          | (self, w, Inr v) \<Rightarrow> await run (pump_poll_flush C) self w))"

text \<open>\<open>Sink::poll_close\<close> of a pumped transport.\<close>

definition pump_poll_close :: "('w, 'k) channels \<Rightarrow> 'k pump \<Rightarrow> 'w \<Rightarrow> 'k pump \<times> 'w \<times> unit result poll" where
  "pump_poll_close C self w =
    (case pump_poll_flush C self w of
       (self, w, Pending) \<Rightarrow> (self, w, Pending)
     | (self, w, Ready (Inl e)) \<Rightarrow> (self, w, Ready (Inl e))
     | (self, w, Ready (Inr u)) \<Rightarrow> (self, ch_close C w, Ready (Inr ())))"

section \<open>The task\<close>

text \<open>What waiting on the channel ends with: the interval elapsed, or what \<open>rx.next()\<close> gave.\<close>

datatype 'k pump_event = Elapsed | Next "(outgoing \<times> 'k) option"

text \<open>One turn of the loop after the wait, and whether the loop goes on.\<close>

definition pump_turn :: "'b bytes_mut \<Rightarrow> ('w, 'k) channels \<Rightarrow> ('w, 'b) framed_writer \<Rightarrow>
    'k pump_event \<Rightarrow> 'w \<Rightarrow> 'w \<times> bool" where
  "pump_turn B C X ev w =
    (case ev of
       Elapsed \<Rightarrow>
         (case fw_send X (encode_heartbeat B) w of
            (w, Inl e) \<Rightarrow> (w, False)
          | (w, Inr u) \<Rightarrow> (w, True))
     | Next None \<Rightarrow> (w, False)
     | Next (Some (item, ack)) \<Rightarrow>
         (case fw_send X (encode_outgoing B item) w of
            (w, result) \<Rightarrow> (os_send C ack result w, (case result of Inl e \<Rightarrow> False | Inr u \<Rightarrow> True))))"

text \<open>After the loop: close the socket, ignoring the result, and drop the receiver.\<close>

definition pump_exit :: "('w, 'k) channels \<Rightarrow> ('w, 'b) framed_writer \<Rightarrow> 'w \<Rightarrow> 'w" where
  "pump_exit C X w = ch_drop_rx C (fst (fw_close X w))"

text \<open>
  The whole task. \<open>timeout_next\<close> and \<open>next\<close> are the two waits, with and without an
  interval, during which the other tasks run; a task that never ends is \<open>None\<close>.
\<close>

partial_function (option) write_pump :: "'b bytes_mut \<Rightarrow> ('w, 'k) channels \<Rightarrow> ('w, 'b) framed_writer \<Rightarrow>
    (duration \<Rightarrow> 'w \<Rightarrow> 'w \<times> 'k pump_event) \<Rightarrow> ('w \<Rightarrow> 'w \<times> (outgoing \<times> 'k) option) \<Rightarrow>
    duration option \<Rightarrow> 'w \<Rightarrow> 'w option" where
  "write_pump B C X timeout_next next interval w =
    (case (case interval of
             Some period \<Rightarrow> timeout_next period w
           | None \<Rightarrow> (case next w of (w, n) \<Rightarrow> (w, Next n))) of
       (w, ev) \<Rightarrow>
         (case pump_turn B C X ev w of
            (w, go) \<Rightarrow>
              if go then write_pump B C X timeout_next next interval w
              else Some (pump_exit C X w)))"

section \<open>The two of them interleaved\<close>

text \<open>
  What can be observed: an item accepted from the caller, a write result reported to
  the caller, an item written with its result, a heart-beat of the task's own, and the
  end of the task.
\<close>

datatype pump_obs =
    Accepted outgoing
  | Settled "unit result"
  | Wrote outgoing "unit result"
  | Beat "unit result"
  | Exited

text \<open>The result that polling for completion hands to the caller, if it does.\<close>

definition settlement :: "('w, 'k) channels \<Rightarrow> 'k pump \<Rightarrow> 'w \<Rightarrow> pump_obs list" where
  "settlement C p w =
    (case (pu_pending p, snd (snd (pump_poll_flush C p w))) of
       (Some k, Ready r) \<Rightarrow> [Settled r]
     | _ \<Rightarrow> [])"

text \<open>
  What the task's wait can end with now: the channel has an item or is closed; or it
  has neither, and there is an interval, which may elapse.
\<close>

definition task_event :: "('w, 'k) channels \<Rightarrow> duration option \<Rightarrow> 'w \<Rightarrow> ('w \<times> 'k pump_event) option" where
  "task_event C interval w =
    (case ch_recv C w of
       (w, Ready n) \<Rightarrow> Some (w, Next n)
     | (w, Pending) \<Rightarrow> (case interval of None \<Rightarrow> None | Some period \<Rightarrow> Some (w, Elapsed)))"

definition turn_obs :: "'b bytes_mut \<Rightarrow> ('w, 'b) framed_writer \<Rightarrow> 'k pump_event \<Rightarrow> 'w \<Rightarrow> pump_obs list" where
  "turn_obs B X ev w =
    (case ev of
       Elapsed \<Rightarrow> [Beat (snd (fw_send X (encode_heartbeat B) w))]
     | Next None \<Rightarrow> []
     | Next (Some (item, ack)) \<Rightarrow> [Wrote item (snd (fw_send X (encode_outgoing B item) w))])"

text \<open>
  World, the caller's end, whether the task runs, and whether the sink has said that it
  is ready. The caller follows the contract of \<open>Sink\<close>: an item only after
  \<open>poll_ready\<close>.
\<close>

type_synonym ('w, 'k) pumped = "'w \<times> 'k pump \<times> bool \<times> bool"

inductive pump_step :: "'b bytes_mut \<Rightarrow> ('w, 'k) channels \<Rightarrow> ('w, 'b) framed_writer \<Rightarrow>
    duration option \<Rightarrow> ('w, 'k) pumped \<Rightarrow> pump_obs list \<Rightarrow> ('w, 'k) pumped \<Rightarrow> bool"
  for B C X interval where
  Ready_Step: "pump_poll_ready C p w = (p', w', y) \<Longrightarrow>
    pump_step B C X interval (w, p, run, rdy) (settlement C p w) (w', p', run, y = Ready (Inr ()))"
| Start_Step: "pump_start_send C item p w = (p', w', y) \<Longrightarrow>
    pump_step B C X interval (w, p, run, True)
      (if y = Inr () then [Accepted item] else []) (w', p', run, False)"
| Flush_Step: "pump_poll_flush C p w = (p', w', y) \<Longrightarrow>
    pump_step B C X interval (w, p, run, rdy) (settlement C p w) (w', p', run, rdy)"
| Close_Step: "pump_poll_close C p w = (p', w', y) \<Longrightarrow>
    pump_step B C X interval (w, p, run, rdy) (settlement C p w) (w', p', run, False)"
| Turn_Step: "task_event C interval w = Some (w1, ev) \<Longrightarrow> pump_turn B C X ev w1 = (w2, go) \<Longrightarrow>
    pump_step B C X interval (w, p, True, rdy)
      (turn_obs B X ev w1 @ (if go then [] else [Exited]))
      (if go then w2 else pump_exit C X w2, p, go, rdy)"

inductive pump_run :: "'b bytes_mut \<Rightarrow> ('w, 'k) channels \<Rightarrow> ('w, 'b) framed_writer \<Rightarrow>
    duration option \<Rightarrow> ('w, 'k) pumped \<Rightarrow> pump_obs list \<Rightarrow> ('w, 'k) pumped \<Rightarrow> bool"
  for B C X interval where
  Run_Refl: "pump_run B C X interval s [] s"
| Run_Step: "pump_run B C X interval s es s1 \<Longrightarrow> pump_step B C X interval s1 fs s2 \<Longrightarrow>
    pump_run B C X interval s (es @ fs) s2"

inductive_cases pump_stepE: "pump_step B C X interval s fs s2"

text \<open>A scheduler that lets the task take a turn whenever it can.\<close>

definition task_run :: "'b bytes_mut \<Rightarrow> ('w, 'k) channels \<Rightarrow> ('w, 'b) framed_writer \<Rightarrow>
    duration option \<Rightarrow> 'w \<Rightarrow> 'w" where
  "task_run B C X interval w =
    (case task_event C interval w of
       None \<Rightarrow> w
     | Some (w1, ev) \<Rightarrow>
         (case pump_turn B C X ev w1 of (w2, go) \<Rightarrow> if go then w2 else pump_exit C X w2))"

text \<open>Receiving from a channel that is known not to make the task wait.\<close>

definition recv_now :: "('w, 'k) channels \<Rightarrow> 'w \<Rightarrow> 'w \<times> (outgoing \<times> 'k) option" where
  "recv_now C w = (case ch_recv C w of (w, Ready n) \<Rightarrow> (w, n) | (w, Pending) \<Rightarrow> (w, None))"

subsection \<open>Reading a history\<close>

primrec obs_accepted :: "pump_obs \<Rightarrow> outgoing list" where
  "obs_accepted (Accepted it) = [it]" | "obs_accepted (Settled r) = []"
| "obs_accepted (Wrote it r) = []" | "obs_accepted (Beat r) = []" | "obs_accepted Exited = []"

primrec obs_settled :: "pump_obs \<Rightarrow> unit result list" where
  "obs_settled (Accepted it) = []" | "obs_settled (Settled r) = [r]"
| "obs_settled (Wrote it r) = []" | "obs_settled (Beat r) = []" | "obs_settled Exited = []"

primrec obs_writes :: "pump_obs \<Rightarrow> (outgoing \<times> unit result) list" where
  "obs_writes (Accepted it) = []" | "obs_writes (Settled r) = []"
| "obs_writes (Wrote it r) = [(it, r)]" | "obs_writes (Beat r) = []" | "obs_writes Exited = []"

primrec obs_wire :: "pump_obs \<Rightarrow> bytes" where
  "obs_wire (Accepted it) = []" | "obs_wire (Settled r) = []"
| "obs_wire (Wrote it r) = wire_item it" | "obs_wire (Beat r) = [LF]" | "obs_wire Exited = []"

primrec obs_ok :: "pump_obs \<Rightarrow> bool" where
  "obs_ok (Accepted it) \<longleftrightarrow> True" | "obs_ok (Settled r) \<longleftrightarrow> True"
| "obs_ok (Wrote it r) \<longleftrightarrow> r = Inr ()" | "obs_ok (Beat r) \<longleftrightarrow> r = Inr ()" | "obs_ok Exited \<longleftrightarrow> True"

definition accepted :: "pump_obs list \<Rightarrow> outgoing list" where "accepted es = concat (map obs_accepted es)"
definition settled :: "pump_obs list \<Rightarrow> unit result list" where "settled es = concat (map obs_settled es)"
definition writes :: "pump_obs list \<Rightarrow> (outgoing \<times> unit result) list" where "writes es = concat (map obs_writes es)"
definition on_wire :: "pump_obs list \<Rightarrow> bytes" where "on_wire es = concat (map obs_wire es)"

lemma history_simps [simp]:
  "accepted [] = []" "accepted (e # es) = obs_accepted e @ accepted es"
  "accepted (es @ fs) = accepted es @ accepted fs"
  "settled [] = []" "settled (e # es) = obs_settled e @ settled es"
  "settled (es @ fs) = settled es @ settled fs"
  "writes [] = []" "writes (e # es) = obs_writes e @ writes es"
  "writes (es @ fs) = writes es @ writes fs"
  "on_wire [] = []" "on_wire (e # es) = obs_wire e @ on_wire es"
  "on_wire (es @ fs) = on_wire es @ on_wire fs"
  by (simp_all add: accepted_def settled_def writes_def on_wire_def)

text \<open>
  The invariant. Either everything accepted is written and reported, or one item is in
  flight: still queued, or written with its result waiting to be reported. \<open>s0\<close> is what
  had been sent before.
\<close>

definition pump_phase :: "'k link \<Rightarrow> 'k pump \<Rightarrow> bool \<Rightarrow> pump_obs list \<Rightarrow> bool" where
  "pump_phase v p rdy es \<longleftrightarrow>
    (case pu_pending p of
       None \<Rightarrow> lk_queue v = [] \<and> accepted es = map fst (writes es) \<and> settled es = map snd (writes es)
     | Some k \<Rightarrow> \<not> rdy \<and>
         ((\<exists>it. lk_slot v k = Waiting \<and> lk_rx v \<and> lk_queue v = [(it, k)] \<and>
            accepted es = map fst (writes es) @ [it] \<and> settled es = map snd (writes es)) \<or>
          (\<exists>r. lk_slot v k = Answered r \<and> lk_queue v = [] \<and>
            accepted es = map fst (writes es) \<and> map snd (writes es) = settled es @ [r])))"

definition pump_task_ok :: "bytes \<Rightarrow> 'k link \<Rightarrow> bool \<Rightarrow> pump_obs list \<Rightarrow> bool" where
  "pump_task_ok s0 v run es \<longleftrightarrow>
    lk_rx v = run \<and> run = (Exited \<notin> set es) \<and> (run \<longrightarrow> list_all obs_ok es) \<and>
    (run \<or> lk_shut v) \<and> (list_all obs_ok es \<longrightarrow> lk_sent v = s0 @ on_wire es)"

definition pump_inv :: "('w \<Rightarrow> 'k link) \<Rightarrow> bytes \<Rightarrow> ('w, 'k) pumped \<Rightarrow> pump_obs list \<Rightarrow> bool" where
  "pump_inv view s0 s es \<longleftrightarrow> (case s of (w, p, run, rdy) \<Rightarrow>
     pump_phase (view w) p rdy es \<and> pump_task_ok s0 (view w) run es)"

text \<open>A fresh connection: the task runs, nothing is queued or pending.\<close>

definition pump_fresh :: "('w \<Rightarrow> 'k link) \<Rightarrow> ('w, 'k) pumped \<Rightarrow> bool" where
  "pump_fresh view s \<longleftrightarrow> (case s of (w, p, run, rdy) \<Rightarrow>
     pu_pending p = None \<and> run \<and> lk_queue (view w) = [] \<and> lk_rx (view w))"

context pump_lib
begin

lemma encode_outgoing_wire:
  "bm_bytes B buf = [] \<Longrightarrow> bm_bytes B (snd (encode_outgoing B it buf)) = wire_item it"
  by (cases it) (simp_all add: encode_message_def encode_heartbeat_def serialize_bytes)

subsection \<open>What each operation does to the invariant\<close>

lemma flush_None: "pu_pending p = None \<Longrightarrow> pump_poll_flush C p w = (p, w, Ready (Inr ()))"
  by (simp add: pump_poll_flush_def)

lemma flush_Waiting:
  assumes "pu_pending p = Some k" "lk_slot (view w) k = Waiting"
  obtains w' where "pump_poll_flush C p w = (p, w', Pending)" "view w' = view w"
proof -
  obtain w' a where o: "os_poll C k w = (w', a)" by (cases "os_poll C k w")
  with os_poll_waiting [OF assms(2)] have "a = Pending" by simp
  with o os_poll_view [OF o] that assms(1) show thesis by (simp add: pump_poll_flush_def)
qed

lemma flush_Answered:
  assumes "pu_pending p = Some k" "lk_slot (view w) k = Answered r"
  obtains w' where "pump_poll_flush C p w = (p\<lparr>pu_pending := None\<rparr>, w', Ready r)" "view w' = view w"
proof -
  obtain w' a where o: "os_poll C k w = (w', a)" by (cases "os_poll C k w")
  with os_poll_answered [OF assms(2)] have "a = Ready (Some r)" by simp
  with o os_poll_view [OF o] that assms(1) show thesis by (simp add: pump_poll_flush_def)
qed

lemma phase_flush:
  assumes "pump_phase (view w) p rdy es" "pump_poll_flush C p w = (p', w', y)"
  shows "view w' = view w \<and> pump_phase (view w) p' rdy (es @ settlement C p w) \<and>
    (y = Pending \<longrightarrow> p' = p \<and> \<not> rdy) \<and> (y \<noteq> Pending \<longrightarrow> pu_pending p' = None) \<and>
    settlement C p w = (if pu_pending p \<noteq> None \<and> y \<noteq> Pending then [Settled (case y of Ready r \<Rightarrow> r)] else [])"
proof (cases "pu_pending p")
  case None
  with assms show ?thesis by (auto simp: flush_None settlement_def)
next
  case (Some k)
  with assms(1) consider "lk_slot (view w) k = Waiting" | r where "lk_slot (view w) k = Answered r"
    by (auto simp: pump_phase_def)
  then show ?thesis
  proof cases
    case 1
    obtain w1 where "pump_poll_flush C p w = (p, w1, Pending)" "view w1 = view w"
      by (rule flush_Waiting [OF Some 1])
    with assms Some show ?thesis by (auto simp: settlement_def pump_phase_def)
  next
    case (2 r)
    obtain w1 where w1: "pump_poll_flush C p w = (p\<lparr>pu_pending := None\<rparr>, w1, Ready r)" "view w1 = view w"
      by (rule flush_Answered [OF Some 2])
    have "settlement C p w = [Settled r]" using w1(1) Some by (simp add: settlement_def)
    moreover from assms(1) Some 2 have "pump_phase (view w) (p\<lparr>pu_pending := None\<rparr>) rdy (es @ [Settled r])"
      by (auto simp: pump_phase_def)
    ultimately show ?thesis using w1 assms(2) Some by auto
  qed
qed

lemma task_ok_settlement: "pump_task_ok s0 v run es \<Longrightarrow> pump_task_ok s0 v run (es @ settlement C p w)"
  by (auto simp: pump_task_ok_def settlement_def split: option.splits poll.splits)

lemma phase_idle:
  "pu_pending p = None \<Longrightarrow> pump_phase v p b es \<longleftrightarrow> pump_phase v p c es"
  by (simp add: pump_phase_def)

lemma phase_ready:
  assumes "pump_phase (view w) p rdy es" "pump_poll_ready C p w = (p', w', y)"
  shows "view w' = view w \<and> pump_phase (view w) p' (y = Ready (Inr ())) (es @ settlement C p w)"
proof -
  obtain p1 w1 y1 where f: "pump_poll_flush C p w = (p1, w1, y1)" by (cases "pump_poll_flush C p w")
  from phase_flush [OF assms(1) f]
  have pf: "view w1 = view w" "pump_phase (view w) p1 rdy (es @ settlement C p w)"
    "y1 = Pending \<Longrightarrow> \<not> rdy" "y1 \<noteq> Pending \<Longrightarrow> pu_pending p1 = None"
    by blast+
  have idle: "pump_phase (view w) p1 b (es @ settlement C p w)" if "y1 \<noteq> Pending" for b
    using phase_idle [OF pf(4) [OF that]] pf(2) by blast
  consider "y1 = Pending" | e where "y1 = Ready (Inl e)" | "y1 = Ready (Inr ())"
    by (cases y1) (simp, metis (full_types) sum.exhaust unit.exhaust)
  then show ?thesis
  proof cases
    case 1
    with f assms(2) pf show ?thesis by (auto simp: pump_poll_ready_def)
  next
    case (2 e)
    with f assms(2) have "p' = p1" "w' = w1" "y = Ready (Inl e)"
      by (simp_all add: pump_poll_ready_def)
    with 2 pf(1) idle show ?thesis by simp
  next
    case 3
    obtain w2 a where c: "ch_poll_ready C w1 = (w2, a)" by (cases "ch_poll_ready C w1")
    from 3 f c assms(2) have "p' = p1" "w' = w2"
      by (auto simp: pump_poll_ready_def split: poll.splits option.splits)
    with 3 pf(1) idle poll_ready_view [OF c] show ?thesis by simp
  qed
qed

lemma phase_close:
  assumes "pump_phase (view w) p rdy es" "pump_poll_close C p w = (p', w', y)"
  shows "pump_phase (view w') p' False (es @ settlement C p w) \<and>
    (view w' = view w \<or> view w' = (view w)\<lparr>lk_tx := False\<rparr>)"
proof -
  obtain p1 w1 y1 where f: "pump_poll_flush C p w = (p1, w1, y1)" by (cases "pump_poll_flush C p w")
  note pf = phase_flush [OF assms(1) f]
  then have "pump_phase (view w) p1 False (es @ settlement C p w)"
    by (auto simp: pump_phase_def split: option.splits)
  with pf f assms(2) show ?thesis
    by (auto simp: pump_poll_close_def pump_phase_def close_view split: sum.splits poll.splits option.splits)
qed

lemma phase_start:
  assumes "pump_phase (view w) p True es" "pump_start_send C item p w = (p', w', y)"
  shows "pump_phase (view w') p' False (es @ (if y = Inr () then [Accepted item] else [])) \<and>
    lk_rx (view w') = lk_rx (view w) \<and> lk_tx (view w') = lk_tx (view w) \<and>
    lk_sent (view w') = lk_sent (view w) \<and> lk_shut (view w') = lk_shut (view w)"
proof -
  have idle: "pu_pending p = None" "lk_queue (view w) = []" "accepted es = map fst (writes es)"
    "settled es = map snd (writes es)"
    using assms(1) by (simp_all add: pump_phase_def split: option.splits)
  obtain w1 k where o: "os_channel C w = (w1, k)" by (cases "os_channel C w")
  obtain w2 ok where c: "ch_start_send C (item, k) w1 = (w2, ok)" by (cases "ch_start_send C (item, k) w1")
  note v1 = new_oneshot [OF o]
  show ?thesis
  proof (cases ok)
    case True
    with o c assms(2) have r: "p' = p\<lparr>pu_pending := Some k\<rparr>" "w' = w2" "y = Inr ()"
      by (simp_all add: pump_start_send_def)
    from start_send_ok [of item k w1 w2] c True v1 idle(2)
    have "lk_rx (view w)" "view w2 = (view w)\<lparr>lk_queue := [(item, k)],
        lk_slot := (lk_slot (view w))(k := Waiting)\<rparr>" by simp_all
    with r idle show ?thesis by (auto simp: pump_phase_def)
  next
    case False
    with o c assms(2) have r: "p' = p" "w' = w2" "y = Inl Connection_Closed"
      by (simp_all add: pump_start_send_def)
    from start_send_failed [of item k w1 w2] c False v1
    have "view w2 = (view w)\<lparr>lk_slot := (lk_slot (view w))(k := Cancelled)\<rparr>" by simp
    with r idle show ?thesis by (simp add: pump_phase_def)
  qed
qed

lemma task_event_item:
  assumes "lk_queue (view w) = (it, k) # q" "task_event C interval w = Some (w1, ev)"
  shows "ev = Next (Some (it, k)) \<and> view w1 = (view w)\<lparr>lk_queue := q\<rparr>"
  using recv_item [OF assms(1)] assms(2) by (auto simp: task_event_def)

lemma task_event_idle:
  assumes "lk_queue (view w) = []" "task_event C interval w = Some (w1, ev)"
  shows "view w1 = view w \<and> (ev = Elapsed \<and> interval \<noteq> None \<and> lk_tx (view w) \<or>
    ev = Next None \<and> \<not> lk_tx (view w))"
  using recv_wait [OF assms(1)] recv_end [OF assms(1)] assms(2)
  by (cases "lk_tx (view w)") (auto simp: task_event_def split: option.splits)

text \<open>A write, whatever it writes: the queue and the one-shots are untouched.\<close>

lemma write_view:
  assumes "fw_send X (encode_outgoing B it) w = (w', r)"
  shows "\<exists>bs. view w' = (view w)\<lparr>lk_sent := lk_sent (view w) @ bs\<rparr> \<and> (r = Inr () \<longrightarrow> bs = wire_item it)"
proof (cases r)
  case (Inl e)
  with fw_send_failed [of "encode_outgoing B it" w w' e] assms show ?thesis by auto
next
  case (Inr u)
  with fw_send_ok [of "encode_outgoing B it" w w' u] assms encode_outgoing_wire [of _ it]
  show ?thesis by fastforce
qed

lemma exit_view:
  assumes "lk_queue (view w) = []"
  shows "view (pump_exit C X w) = (view w)\<lparr>lk_rx := False, lk_shut := True\<rparr>"
proof -
  obtain w1 r where c: "fw_close X w = (w1, r)" by (cases "fw_close X w")
  with fw_close_view [OF c] assms show ?thesis by (simp add: pump_exit_def drop_rx_view)
qed

text \<open>A turn that takes an item writes it and answers its one-shot.\<close>

lemma turn_item:
  assumes "lk_slot (view w) k = Waiting" "pump_turn B C X (Next (Some (it, k))) w = (w', go)"
  obtains r bs where "snd (fw_send X (encode_outgoing B it) w) = r" "go = (r = Inr ())"
    "view w' = (view w)\<lparr>lk_sent := lk_sent (view w) @ bs, lk_slot := (lk_slot (view w))(k := Answered r)\<rparr>"
    "r = Inr () \<longrightarrow> bs = wire_item it"
proof -
  obtain w1 r where f: "fw_send X (encode_outgoing B it) w = (w1, r)"
    by (cases "fw_send X (encode_outgoing B it) w")
  obtain bs where bs: "view w1 = (view w)\<lparr>lk_sent := lk_sent (view w) @ bs\<rparr>"
    "r = Inr () \<longrightarrow> bs = wire_item it" using write_view [OF f] by blast
  have "w' = os_send C k r w1" "go = (r = Inr ())"
    using assms(2) f by (auto simp: pump_turn_def split: sum.splits)
  with that f bs os_send_view [of w1 k r] assms(1) show thesis by simp
qed

lemma encode_heartbeat_outgoing: "encode_outgoing B Heartbeat = encode_heartbeat B"
  by (rule ext) simp

lemma turn_beat:
  assumes "pump_turn B C X Elapsed w = (w', go)"
  obtains r bs where "snd (fw_send X (encode_heartbeat B) w) = r" "go = (r = Inr ())"
    "view w' = (view w)\<lparr>lk_sent := lk_sent (view w) @ bs\<rparr>" "r = Inr () \<longrightarrow> bs = [LF]"
proof -
  obtain w1 r where f: "fw_send X (encode_heartbeat B) w = (w1, r)"
    by (cases "fw_send X (encode_heartbeat B) w")
  have "w' = w1" "go = (r = Inr ())"
    using assms f by (auto simp: pump_turn_def split: sum.splits)
  with that f write_view [of Heartbeat w w1 r] show thesis
    by (auto simp: encode_heartbeat_outgoing)
qed

lemma task_ok_cong:
  "pump_task_ok s0 v run es \<Longrightarrow> lk_rx v' = lk_rx v \<Longrightarrow> lk_sent v' = lk_sent v \<Longrightarrow> lk_shut v' = lk_shut v \<Longrightarrow>
   pump_task_ok s0 v' run es"
  unfolding pump_task_ok_def by auto

lemma phase_cong:
  assumes "lk_queue v = []" "lk_queue v' = []" "lk_slot v' = lk_slot v"
    "accepted hs = accepted es" "settled hs = settled es" "writes hs = writes es"
  shows "pump_phase v' p rdy hs = pump_phase v p rdy es"
  using assms by (simp add: pump_phase_def split: option.splits)

lemma task_ok_accept: "pump_task_ok s0 v run es \<Longrightarrow>
    pump_task_ok s0 v run (es @ (if b then [Accepted item] else []))"
  by (auto simp: pump_task_ok_def)

text \<open>A turn of the task keeps the invariant.\<close>

lemma inv_turn_item:
  assumes "pump_inv view s0 (w, p, True, rdy) es" "lk_queue (view w) \<noteq> []"
    "task_event C interval w = Some (w1, ev)" "pump_turn B C X ev w1 = (w2, go)"
  shows "pump_inv view s0 (if go then w2 else pump_exit C X w2, p, go, rdy)
    (es @ turn_obs B X ev w1 @ (if go then [] else [Exited]))"
proof -
  from assms(1) have ph: "pump_phase (view w) p rdy es" and tk: "pump_task_ok s0 (view w) True es"
    by (simp_all add: pump_inv_def)
  from ph assms(2) obtain k it where k: "pu_pending p = Some k" "\<not> rdy" "lk_slot (view w) k = Waiting"
    "lk_queue (view w) = [(it, k)]" "accepted es = map fst (writes es) @ [it]" "settled es = map snd (writes es)"
    by (auto simp: pump_phase_def split: option.splits)
  have ev: "ev = Next (Some (it, k))" "view w1 = (view w)\<lparr>lk_queue := []\<rparr>"
    using task_event_item [OF k(4) assms(3)] by simp_all
  obtain r bs where r: "snd (fw_send X (encode_outgoing B it) w1) = r" "go = (r = Inr ())"
    "view w2 = (view w1)\<lparr>lk_sent := lk_sent (view w1) @ bs, lk_slot := (lk_slot (view w1))(k := Answered r)\<rparr>"
    "r = Inr () \<longrightarrow> bs = wire_item it"
    using turn_item [of w1 k it w2 go] assms(4) ev k(3) by auto
  have obs: "turn_obs B X ev w1 = [Wrote it r]" by (simp add: turn_obs_def ev(1) r(1))
  have v2: "lk_queue (view w2) = []" using r(3) ev(2) by simp
  have tk': "list_all obs_ok es" "lk_sent (view w) = s0 @ on_wire es" "Exited \<notin> set es" "lk_rx (view w)"
    using tk by (simp_all add: pump_task_ok_def)
  show ?thesis
  proof (cases go)
    case True
    with r k obs ev tk' show ?thesis by (auto simp: pump_inv_def pump_phase_def pump_task_ok_def)
  next
    case False
    with r k obs ev tk' exit_view [OF v2] show ?thesis
      by (auto simp: pump_inv_def pump_phase_def pump_task_ok_def)
  qed
qed

lemma inv_turn_idle:
  assumes "pump_inv view s0 (w, p, True, rdy) es" "lk_queue (view w) = []"
    "task_event C interval w = Some (w1, ev)" "pump_turn B C X ev w1 = (w2, go)"
  shows "pump_inv view s0 (if go then w2 else pump_exit C X w2, p, go, rdy)
    (es @ turn_obs B X ev w1 @ (if go then [] else [Exited]))"
proof -
  from assms(1) have ph: "pump_phase (view w) p rdy es" and tk: "pump_task_ok s0 (view w) True es"
    by (simp_all add: pump_inv_def)
  from task_event_idle [OF assms(2,3)] have v1: "view w1 = view w" and ev: "ev = Elapsed \<or> ev = Next None"
    by auto
  have tk': "list_all obs_ok es" "lk_sent (view w) = s0 @ on_wire es" "Exited \<notin> set es" "lk_rx (view w)"
    using tk by (simp_all add: pump_task_ok_def)
  obtain r bs where t: "view w2 = (view w)\<lparr>lk_sent := lk_sent (view w) @ bs\<rparr>"
    "turn_obs B X ev w1 = [Beat r] \<and> go = (r = Inr ()) \<and> (r = Inr () \<longrightarrow> bs = [LF]) \<or>
     turn_obs B X ev w1 = [] \<and> \<not> go \<and> bs = []"
    using ev
  proof
    assume e: "ev = Elapsed"
    obtain r bs where "snd (fw_send X (encode_heartbeat B) w1) = r" "go = (r = Inr ())"
      "view w2 = (view w1)\<lparr>lk_sent := lk_sent (view w1) @ bs\<rparr>" "r = Inr () \<longrightarrow> bs = [LF]"
      using turn_beat [of w1 w2 go] assms(4) e by auto
    with that [of bs r] e v1 show thesis by (simp add: turn_obs_def)
  next
    assume e: "ev = Next None"
    with assms(4) have "w2 = w1" "\<not> go" by (simp_all add: pump_turn_def)
    with that [of "[]" "Inr ()"] e v1 show thesis by (simp add: turn_obs_def)
  qed
  have q2: "lk_queue (view w2) = []" using t(1) assms(2) by simp
  show ?thesis
  proof (cases go)
    case True
    then obtain "turn_obs B X ev w1 = [Beat (Inr ())]" "bs = [LF]" using t(2) by auto
    with True t(1) tk' phase_cong [OF assms(2) q2, of "es @ [Beat (Inr ())]" es p rdy] ph show ?thesis
      by (simp add: pump_inv_def pump_task_ok_def)
  next
    case False
    let ?hs = "es @ turn_obs B X ev w1 @ [Exited]"
    have same: "accepted ?hs = accepted es" "settled ?hs = settled es" "writes ?hs = writes es"
      using t(2) by auto
    have "pump_phase (view (pump_exit C X w2)) p rdy ?hs"
      using phase_cong [OF assms(2) _ _ same, of "view (pump_exit C X w2)" p rdy] exit_view [OF q2] t(1) ph q2
      by simp
    moreover have "pump_task_ok s0 (view (pump_exit C X w2)) False ?hs"
      using t False tk' exit_view [OF q2] by (auto simp: pump_task_ok_def)
    ultimately show ?thesis using False by (simp add: pump_inv_def)
  qed
qed

lemma inv_step:
  assumes "pump_inv view s0 s es" "pump_step B C X interval s fs s2"
  shows "pump_inv view s0 s2 (es @ fs)"
  using assms(2)
proof (cases rule: pump_step.cases)
  case (Ready_Step p w p' w' y run rdy)
  with assms(1) have "pump_phase (view w) p rdy es" "pump_task_ok s0 (view w) run es"
    by (simp_all add: pump_inv_def)
  with phase_ready [OF _ Ready_Step(4)] task_ok_settlement [of s0 _ run es p w] Ready_Step show ?thesis
    by (auto simp: pump_inv_def)
next
  case (Start_Step item p w p' w' y run)
  with assms(1) have ph: "pump_phase (view w) p True es" and "pump_task_ok s0 (view w) run es"
    by (simp_all add: pump_inv_def)
  then have tk: "pump_task_ok s0 (view w) run (es @ fs)"
    using task_ok_accept [of s0 "view w" run es "y = Inr ()" item] Start_Step(2) by simp
  note st = phase_start [OF ph Start_Step(4)]
  then have "pump_task_ok s0 (view w') run (es @ fs)"
    by (intro task_ok_cong [OF tk]) blast+
  with st Start_Step show ?thesis by (simp add: pump_inv_def)
next
  case (Flush_Step p w p' w' y run rdy)
  with assms(1) have ph: "pump_phase (view w) p rdy es" and tk: "pump_task_ok s0 (view w) run es"
    by (simp_all add: pump_inv_def)
  have "view w' = view w" "pump_phase (view w) p' rdy (es @ settlement C p w)"
    using phase_flush [OF ph Flush_Step(4)] by blast+
  with task_ok_settlement [OF tk] Flush_Step show ?thesis by (simp add: pump_inv_def)
next
  case (Close_Step p w p' w' y run rdy)
  with assms(1) have ph: "pump_phase (view w) p rdy es" and "pump_task_ok s0 (view w) run es"
    by (simp_all add: pump_inv_def)
  then have "pump_task_ok s0 (view w) run (es @ settlement C p w)"
    by (simp add: task_ok_settlement)
  then have "pump_task_ok s0 (view w') run (es @ settlement C p w)"
    using phase_close [OF ph Close_Step(4)] by (auto intro: task_ok_cong)
  with phase_close [OF ph Close_Step(4)] Close_Step show ?thesis by (simp add: pump_inv_def)
next
  case (Turn_Step w w1 ev w2 go p rdy)
  with assms(1) inv_turn_item inv_turn_idle show ?thesis by (cases "lk_queue (view w) = []") blast+
qed

lemma inv_run:
  assumes "pump_run B C X interval s es s2" "pump_fresh view s"
  shows "pump_inv view (lk_sent (view (fst s))) s2 es"
  using assms
proof (induction rule: pump_run.induct)
  case (Run_Refl s)
  then show ?case
    by (cases s) (simp add: pump_fresh_def pump_inv_def pump_phase_def pump_task_ok_def)
next
  case (Run_Step s es s1 fs s2)
  then show ?case using inv_step by blast
qed

subsection \<open>Sending\<close>

lemma ready_open:
  assumes "pu_pending p = None" "lk_queue (view w) = []" "lk_tx (view w)" "lk_rx (view w)"
  obtains w1 where "pump_poll_ready C p w = (p, w1, Ready (Inr ()))" "view w1 = view w"
proof -
  obtain w1 y where c: "ch_poll_ready C w = (w1, y)" by (cases "ch_poll_ready C w")
  with poll_ready_open [OF assms(2-4)] have "y = Ready (Some ())" by simp
  with c poll_ready_view [OF c] that assms(1) show thesis
    by (simp add: pump_poll_ready_def flush_None)
qed

lemma ready_gone:
  assumes "pu_pending p = None" "\<not> lk_tx (view w) \<or> \<not> lk_rx (view w)"
  obtains w1 where "pump_poll_ready C p w = (p, w1, Ready (Inl Connection_Closed))" "view w1 = view w"
proof -
  obtain w1 y where c: "ch_poll_ready C w = (w1, y)" by (cases "ch_poll_ready C w")
  with poll_ready_gone [OF assms(2)] have "y = Ready None" by simp
  with c poll_ready_view [OF c] that assms(1) show thesis
    by (simp add: pump_poll_ready_def flush_None)
qed

lemma start_open:
  assumes "lk_queue (view w) = []" "lk_tx (view w)" "lk_rx (view w)"
  obtains w1 k where "pump_start_send C item p w = (p\<lparr>pu_pending := Some k\<rparr>, w1, Inr ())"
    "view w1 = (view w)\<lparr>lk_queue := [(item, k)], lk_slot := (lk_slot (view w))(k := Waiting)\<rparr>"
proof -
  obtain w0 k where o: "os_channel C w = (w0, k)" by (cases "os_channel C w")
  note v0 = new_oneshot [OF o]
  obtain w1 ok where c: "ch_start_send C (item, k) w0 = (w1, ok)" by (cases "ch_start_send C (item, k) w0")
  with start_send_open [of w0 item k] v0 assms have ok by simp
  with c start_send_ok [of item k w0 w1] v0 assms that [of k w1] o show thesis
    by (simp add: pump_start_send_def)
qed

lemma run_item:
  assumes "lk_queue (view w) = [(item, k)]" "lk_slot (view w) k = Waiting" "lk_rx (view w)"
  obtains w1 r bs where "snd (fw_send X (encode_outgoing B item) w1) = r"
    "view (task_run B C X interval w) = (view w)\<lparr>lk_queue := [], lk_rx := (r = Inr ()),
       lk_slot := (lk_slot (view w))(k := Answered r), lk_sent := lk_sent (view w) @ bs,
       lk_shut := (lk_shut (view w) \<or> r \<noteq> Inr ())\<rparr>"
    "r = Inr () \<longrightarrow> bs = wire_item item"
proof -
  obtain w1 where e: "task_event C interval w = Some (w1, Next (Some (item, k)))"
    "view w1 = (view w)\<lparr>lk_queue := []\<rparr>"
    using recv_item [OF assms(1)] by (auto simp: task_event_def)
  obtain w2 go where t: "pump_turn B C X (Next (Some (item, k))) w1 = (w2, go)"
    by (cases "pump_turn B C X (Next (Some (item, k))) w1")
  obtain r bs where r: "snd (fw_send X (encode_outgoing B item) w1) = r" "go = (r = Inr ())"
    "view w2 = (view w1)\<lparr>lk_sent := lk_sent (view w1) @ bs, lk_slot := (lk_slot (view w1))(k := Answered r)\<rparr>"
    "r = Inr () \<longrightarrow> bs = wire_item item"
    using turn_item [OF _ t] e(2) assms(2) by auto
  have q: "lk_queue (view w2) = []" using r(3) e(2) by simp
  have run: "task_run B C X interval w = (if go then w2 else pump_exit C X w2)"
    by (simp add: task_run_def e(1) t)
  show thesis
  proof (rule that [OF r(1) _ r(4)])
    show "view (task_run B C X interval w) = (view w)\<lparr>lk_queue := [], lk_rx := (r = Inr ()),
       lk_slot := (lk_slot (view w))(k := Answered r), lk_sent := lk_sent (view w) @ bs,
       lk_shut := (lk_shut (view w) \<or> r \<noteq> Inr ())\<rparr>"
      unfolding run by (cases go) (use r(2,3) e(2) exit_view [OF q] assms(3) in simp_all)
  qed
qed

lemma send_open:
  assumes "pu_pending p = None" "lk_queue (view w) = []" "lk_tx (view w)" "lk_rx (view w)"
  shows "\<exists>p' w' r w1. pump_send (task_run B C X interval) C item p w = Some (p', w', r) \<and>
    r = snd (fw_send X (encode_outgoing B item) w1) \<and>
    pu_pending p' = None \<and> lk_queue (view w') = [] \<and> lk_tx (view w') \<and> lk_rx (view w') = (r = Inr ()) \<and>
    (if r = Inr () then lk_sent (view w') = lk_sent (view w) @ wire_item item else lk_shut (view w'))"
proof -
  let ?run = "task_run B C X interval"
  obtain w1 where w1: "pump_poll_ready C p w = (p, w1, Ready (Inr ()))" "view w1 = view w"
    by (rule ready_open [OF assms])
  have open1: "lk_queue (view w1) = []" "lk_tx (view w1)" "lk_rx (view w1)" using assms w1(2) by simp_all
  obtain w2 k where w2: "pump_start_send C item p w1 = (p\<lparr>pu_pending := Some k\<rparr>, w2, Inr ())"
    "view w2 = (view w1)\<lparr>lk_queue := [(item, k)], lk_slot := (lk_slot (view w1))(k := Waiting)\<rparr>"
    by (rule start_open [OF open1])
  let ?p = "p\<lparr>pu_pending := Some k\<rparr>"
  have k: "pu_pending ?p = Some k" by simp
  have s2: "lk_slot (view w2) k = Waiting" using w2(2) by simp
  obtain w3 where w3: "pump_poll_flush C ?p w2 = (?p, w3, Pending)" "view w3 = view w2"
    by (rule flush_Waiting [OF k s2])
  have q3: "lk_queue (view w3) = [(item, k)]" "lk_slot (view w3) k = Waiting" "lk_rx (view w3)"
    using w3(2) w2(2) open1 by simp_all
  obtain wa r bs where t: "snd (fw_send X (encode_outgoing B item) wa) = r"
    "view (?run w3) = (view w3)\<lparr>lk_queue := [], lk_rx := (r = Inr ()),
       lk_slot := (lk_slot (view w3))(k := Answered r), lk_sent := lk_sent (view w3) @ bs,
       lk_shut := (lk_shut (view w3) \<or> r \<noteq> Inr ())\<rparr>"
    "r = Inr () \<longrightarrow> bs = wire_item item"
    by (rule run_item [OF q3, of interval])
  have s4: "lk_slot (view (?run w3)) k = Answered r" using t(2) by simp
  obtain w5 where w5: "pump_poll_flush C ?p (?run w3) = (?p\<lparr>pu_pending := None\<rparr>, w5, Ready r)"
    "view w5 = view (?run w3)"
    by (rule flush_Answered [OF k s4])
  have "pump_send ?run C item p w = await ?run (pump_poll_flush C) ?p w2"
    by (simp add: pump_send_def await_ready [of "pump_poll_ready C", OF w1(1)] w2(1))
  also have "\<dots> = Some (?p\<lparr>pu_pending := None\<rparr>, w5, r)"
    by (simp add: await_pending [of "pump_poll_flush C", OF w3(1)] await_ready [of "pump_poll_flush C", OF w5(1)])
  finally show ?thesis
    using t w5(2) w3(2) w2(2) w1(2) assms(3) by (intro exI [of _ "?p\<lparr>pu_pending := None\<rparr>"] exI [of _ w5] exI [of _ r] exI [of _ wa]) simp
qed

lemma send_gone:
  assumes "pu_pending p = None" "\<not> lk_tx (view w) \<or> \<not> lk_rx (view w)"
  shows "\<exists>w'. pump_send run C item p w = Some (p, w', Inl Connection_Closed) \<and> view w' = view w"
proof -
  obtain w1 where "pump_poll_ready C p w = (p, w1, Ready (Inl Connection_Closed))" "view w1 = view w"
    by (rule ready_gone [OF assms])
  then show ?thesis by (simp add: pump_send_def await_ready [of "pump_poll_ready C"])
qed

subsection \<open>The task winds down\<close>

lemma write_pump_turn:
  assumes "recv_now C w = (w1, n)" "pump_turn B C X (Next n) w1 = (w2, go)"
  shows "write_pump B C X (\<lambda>_ w. case recv_now C w of (w, n) \<Rightarrow> (w, Next n)) (recv_now C) interval w =
    (if go then write_pump B C X (\<lambda>_ w. case recv_now C w of (w, n) \<Rightarrow> (w, Next n)) (recv_now C) interval w2
     else Some (pump_exit C X w2))"
  using assms by (subst write_pump.simps) (simp split: option.split)

lemma exit_shut: "lk_shut (view (pump_exit C X w)) \<and> \<not> lk_rx (view (pump_exit C X w)) \<and>
    lk_queue (view (pump_exit C X w)) = [] \<and> lk_sent (view (pump_exit C X w)) = lk_sent (view w)"
proof -
  obtain w1 r where c: "fw_close X w = (w1, r)" by (cases "fw_close X w")
  with fw_close_view [OF c] show ?thesis by (simp add: pump_exit_def drop_rx_view)
qed

text \<open>
  Once the channel is closed the task writes what is queued and ends, closing the socket;
  it ends at once when a write fails.
\<close>

lemma write_pump_winds_down:
  assumes "\<not> lk_tx (view w)" "distinct (map snd (lk_queue (view w)))"
    "\<And>k. k \<in> snd ` set (lk_queue (view w)) \<Longrightarrow> lk_slot (view w) k = Waiting"
  shows "\<exists>w'. write_pump B C X (\<lambda>_ w. case recv_now C w of (w, n) \<Rightarrow> (w, Next n)) (recv_now C) interval w =
      Some w' \<and> lk_shut (view w') \<and> \<not> lk_rx (view w') \<and> lk_queue (view w') = [] \<and>
    ((\<forall>it v. snd (fw_send X (encode_outgoing B it) v) = Inr ()) \<longrightarrow>
      lk_sent (view w') = lk_sent (view w) @ concat (map (wire_item \<circ> fst) (lk_queue (view w))))"
  using assms
proof (induction "lk_queue (view w)" arbitrary: w)
  case Nil
  obtain w1 where r: "ch_recv C w = (w1, Ready None)" "view w1 = view w"
    using recv_end [OF Nil(1) [symmetric] Nil(2)] by blast
  then have "recv_now C w = (w1, None)" by (simp add: recv_now_def)
  from write_pump_turn [OF this, of w1 False interval] exit_shut [of w1] r(2) Nil(1) show ?case
    by (simp add: pump_turn_def)
next
  case (Cons x q)
  obtain it k where x: "x = (it, k)" by (cases x)
  obtain w1 where r: "ch_recv C w = (w1, Ready (Some x))" "view w1 = (view w)\<lparr>lk_queue := q\<rparr>"
    using recv_item [OF Cons(2) [symmetric]] by blast
  then have rn: "recv_now C w = (w1, Some (it, k))" by (simp add: recv_now_def x)
  obtain w2 go where t: "pump_turn B C X (Next (Some (it, k))) w1 = (w2, go)"
    by (cases "pump_turn B C X (Next (Some (it, k))) w1")
  have "lk_slot (view w1) k = Waiting" using Cons.prems(3) [of k] Cons(2) r(2) x by (simp add: image_iff, metis list.set_intros(1) snd_conv)
  then obtain res bs where o: "snd (fw_send X (encode_outgoing B it) w1) = res" "go = (res = Inr ())"
    "view w2 = (view w1)\<lparr>lk_sent := lk_sent (view w1) @ bs, lk_slot := (lk_slot (view w1))(k := Answered res)\<rparr>"
    "res = Inr () \<longrightarrow> bs = wire_item it"
    by (rule turn_item [OF _ t])
  note step = write_pump_turn [OF rn t, of interval]
  show ?case
  proof (cases go)
    case False
    with step exit_shut [of w2] o(1,2) show ?thesis by auto
  next
    case True
    have "q = lk_queue (view w2)" "\<not> lk_tx (view w2)" "distinct (map snd (lk_queue (view w2)))"
      using o(3) r(2) Cons(2) Cons.prems(1,2) by (simp_all flip: Cons(2))
    moreover have "lk_slot (view w2) j = Waiting" if "j \<in> snd ` set (lk_queue (view w2))" for j
    proof -
      have j: "j \<in> snd ` set q" using that o(3) r(2) by simp
      moreover have "k \<notin> snd ` set q" using Cons.prems(2) Cons(2) [symmetric] x by simp
      ultimately have "j \<noteq> k" by blast
      with j o(3) r(2) Cons.prems(3) [of j] Cons(2) [symmetric] show ?thesis by simp
    qed
    ultimately obtain w' where
      "write_pump B C X (\<lambda>_ w. case recv_now C w of (w, n) \<Rightarrow> (w, Next n)) (recv_now C) interval w2 = Some w'"
      "lk_shut (view w')" "\<not> lk_rx (view w')" "lk_queue (view w') = []"
      "(\<forall>it v. snd (fw_send X (encode_outgoing B it) v) = Inr ()) \<longrightarrow>
        lk_sent (view w') = lk_sent (view w2) @ concat (map (wire_item \<circ> fst) (lk_queue (view w2)))"
      using Cons(1) [of w2] by blast
    with step True o r(2) Cons(2) [symmetric] x show ?thesis by simp
  qed
qed

end

end
