(* ===== verification/Transport.thy ===== *)
theory Transport
  imports Builders Write_Pump
begin

text \<open>
  The live connection of \<open>src/client.rs\<close>: \<open>TransportStream\<close> and \<open>Monitored\<close>, the two
  layers around the socket, and \<open>ClientTransport\<close> as a stream of server messages and a
  sink of client messages, with the supervision of the server. The socket, the framed
  halves, the clock and the ticker are parameters.
\<close>

section \<open>The layers around the socket\<close>

text \<open>
  \<open>AsyncRead\<close> and \<open>AsyncWrite\<close> over a socket state \<open>'s\<close>. A read gets the filled part of
  the caller's buffer and returns it as it is afterwards.
\<close>

record ('w, 's) async_io =
  io_poll_read :: "'s \<Rightarrow> bytes \<Rightarrow> 'w \<Rightarrow> 's \<times> bytes \<times> 'w \<times> unit result poll"
  io_poll_write :: "'s \<Rightarrow> bytes \<Rightarrow> 'w \<Rightarrow> 's \<times> 'w \<times> nat result poll"
  io_poll_flush :: "'s \<Rightarrow> 'w \<Rightarrow> 's \<times> 'w \<times> unit result poll"
  io_poll_shutdown :: "'s \<Rightarrow> 'w \<Rightarrow> 's \<times> 'w \<times> unit result poll"

text \<open>\<open>TransportStream\<close> hands everything to the stream it holds.\<close>

definition stream_poll_read :: "('w, 'tcp) async_io \<Rightarrow> ('w, 'tls) async_io \<Rightarrow>
    ('tcp, 'tls) transport_stream \<Rightarrow> bytes \<Rightarrow> 'w \<Rightarrow>
    ('tcp, 'tls) transport_stream \<times> bytes \<times> 'w \<times> unit result poll" where
  "stream_poll_read P T self buf w =
    (case self of
       Plain s \<Rightarrow> (case io_poll_read P s buf w of (s, buf, w, y) \<Rightarrow> (Plain s, buf, w, y))
     | Tls s \<Rightarrow> (case io_poll_read T s buf w of (s, buf, w, y) \<Rightarrow> (Tls s, buf, w, y)))"

definition stream_poll_write :: "('w, 'tcp) async_io \<Rightarrow> ('w, 'tls) async_io \<Rightarrow>
    ('tcp, 'tls) transport_stream \<Rightarrow> bytes \<Rightarrow> 'w \<Rightarrow>
    ('tcp, 'tls) transport_stream \<times> 'w \<times> nat result poll" where
  "stream_poll_write P T self buf w =
    (case self of
       Plain s \<Rightarrow> (case io_poll_write P s buf w of (s, w, y) \<Rightarrow> (Plain s, w, y))
     | Tls s \<Rightarrow> (case io_poll_write T s buf w of (s, w, y) \<Rightarrow> (Tls s, w, y)))"

definition stream_poll_flush :: "('w, 'tcp) async_io \<Rightarrow> ('w, 'tls) async_io \<Rightarrow>
    ('tcp, 'tls) transport_stream \<Rightarrow> 'w \<Rightarrow> ('tcp, 'tls) transport_stream \<times> 'w \<times> unit result poll" where
  "stream_poll_flush P T self w =
    (case self of
       Plain s \<Rightarrow> (case io_poll_flush P s w of (s, w, y) \<Rightarrow> (Plain s, w, y))
     | Tls s \<Rightarrow> (case io_poll_flush T s w of (s, w, y) \<Rightarrow> (Tls s, w, y)))"

definition stream_poll_shutdown :: "('w, 'tcp) async_io \<Rightarrow> ('w, 'tls) async_io \<Rightarrow>
    ('tcp, 'tls) transport_stream \<Rightarrow> 'w \<Rightarrow> ('tcp, 'tls) transport_stream \<times> 'w \<times> unit result poll" where
  "stream_poll_shutdown P T self w =
    (case self of
       Plain s \<Rightarrow> (case io_poll_shutdown P s w of (s, w, y) \<Rightarrow> (Plain s, w, y))
     | Tls s \<Rightarrow> (case io_poll_shutdown T s w of (s, w, y) \<Rightarrow> (Tls s, w, y)))"

definition stream_io :: "('w, 'tcp) async_io \<Rightarrow> ('w, 'tls) async_io \<Rightarrow>
    ('w, ('tcp, 'tls) transport_stream) async_io" where
  "stream_io P T =
    \<lparr>io_poll_read = stream_poll_read P T, io_poll_write = stream_poll_write P T,
     io_poll_flush = stream_poll_flush P T, io_poll_shutdown = stream_poll_shutdown P T\<rparr>"

text \<open>\<open>Monitored\<close> stamps every read that delivers bytes; instants are nanoseconds.\<close>

record 's monitored =
  mn_inner :: 's
  mn_last_read :: nat

definition monitored_new :: "('w \<Rightarrow> nat) \<Rightarrow> 's \<Rightarrow> 'w \<Rightarrow> 's monitored" where
  "monitored_new now inner w = \<lparr>mn_inner = inner, mn_last_read = now w\<rparr>"

definition monitored_poll_read :: "('w \<Rightarrow> nat) \<Rightarrow> ('w, 's) async_io \<Rightarrow> 's monitored \<Rightarrow> bytes \<Rightarrow> 'w \<Rightarrow>
    's monitored \<times> bytes \<times> 'w \<times> unit result poll" where
  "monitored_poll_read now A self buf w =
    (let before = length buf
     in case io_poll_read A (mn_inner self) buf w of
          (inner, buf, w, poll) \<Rightarrow>
            let self = self\<lparr>mn_inner := inner\<rparr>;
                self = (if before < length buf then self\<lparr>mn_last_read := now w\<rparr> else self)
            in (self, buf, w, poll))"

definition monitored_poll_write :: "('w, 's) async_io \<Rightarrow> 's monitored \<Rightarrow> bytes \<Rightarrow> 'w \<Rightarrow>
    's monitored \<times> 'w \<times> nat result poll" where
  "monitored_poll_write A self buf w =
    (case io_poll_write A (mn_inner self) buf w of (s, w, y) \<Rightarrow> (self\<lparr>mn_inner := s\<rparr>, w, y))"

definition monitored_poll_flush :: "('w, 's) async_io \<Rightarrow> 's monitored \<Rightarrow> 'w \<Rightarrow>
    's monitored \<times> 'w \<times> unit result poll" where
  "monitored_poll_flush A self w =
    (case io_poll_flush A (mn_inner self) w of (s, w, y) \<Rightarrow> (self\<lparr>mn_inner := s\<rparr>, w, y))"

definition monitored_poll_shutdown :: "('w, 's) async_io \<Rightarrow> 's monitored \<Rightarrow> 'w \<Rightarrow>
    's monitored \<times> 'w \<times> unit result poll" where
  "monitored_poll_shutdown A self w =
    (case io_poll_shutdown A (mn_inner self) w of (s, w, y) \<Rightarrow> (self\<lparr>mn_inner := s\<rparr>, w, y))"

definition monitored_io :: "('w \<Rightarrow> nat) \<Rightarrow> ('w, 's) async_io \<Rightarrow> ('w, 's monitored) async_io" where
  "monitored_io now A =
    \<lparr>io_poll_read = monitored_poll_read now A, io_poll_write = monitored_poll_write A,
     io_poll_flush = monitored_poll_flush A, io_poll_shutdown = monitored_poll_shutdown A\<rparr>"

section \<open>ClientTransport\<close>

text \<open>
  The framed socket of a direct connection, the framed read half of a pumped one, the
  clock and the ticker. \<open>ep_last_read\<close> and \<open>ep_reader_last_read\<close> are the stamps of the
  \<open>Monitored\<close> layer below; polling the next message gives \<open>None\<close> at the end of the stream.
\<close>

record 'w endpoint =
  ep_poll_next :: "'w \<Rightarrow> 'w \<times> from_server message result option poll"
  ep_last_read :: "'w \<Rightarrow> nat"
  ep_poll_ready :: "'w \<Rightarrow> 'w \<times> unit result poll"
  ep_start_send :: "to_server message \<Rightarrow> 'w \<Rightarrow> 'w \<times> unit result"
  ep_poll_flush :: "'w \<Rightarrow> 'w \<times> unit result poll"
  ep_poll_close :: "'w \<Rightarrow> 'w \<times> unit result poll"
  ep_send_heartbeat :: "'w \<Rightarrow> 'w \<times> unit result"
  ep_reader_next :: "'w \<Rightarrow> 'w \<times> from_server message result option poll"
  ep_reader_last_read :: "'w \<Rightarrow> nat"
  ep_now :: "'w \<Rightarrow> nat"
  ep_poll_tick :: "'w \<Rightarrow> 'w \<times> bool"

text \<open>The transport that \<open>connect\<close> returns, with the state of the pump's end.\<close>

record 'k live_transport = client_transport +
  lv_pump :: "'k pump"

definition live_of :: "client_transport \<Rightarrow> 'k pump \<Rightarrow> 'k live_transport" where
  "live_of ct p = \<lparr>ct_transport = ct_transport ct, ct_outgoing = ct_outgoing ct,
    ct_incoming = ct_incoming ct, ct_supervise = ct_supervise ct, lv_pump = p\<rparr>"

definition transport_last_read :: "'w endpoint \<Rightarrow> ('k, 'z) live_transport_scheme \<Rightarrow> 'w \<Rightarrow> nat" where
  "transport_last_read E self w =
    (case ct_transport self of Direct c \<Rightarrow> ep_last_read E w | Pumped c \<Rightarrow> ep_reader_last_read E w)"

text \<open>The loop that drains the ticker; \<open>None\<close> is a loop that never ends.\<close>

partial_function (option) drain_ticks :: "'w endpoint \<Rightarrow> 'w \<Rightarrow> 'w option" where
  "drain_ticks E w =
    (case ep_poll_tick E w of (w, ready) \<Rightarrow> if ready then drain_ticks E w else Some w)"

definition poll_server_timeout :: "'w endpoint \<Rightarrow> ('k, 'z) live_transport_scheme \<Rightarrow> 'w \<Rightarrow>
    ('w \<times> from_server message result option poll) option" where
  "poll_server_timeout E self w =
    (case ct_supervise self of
       None \<Rightarrow> Some (w, Pending)
     | Some (tolerance, period) \<Rightarrow>
         (case drain_ticks E w of
            None \<Rightarrow> None
          | Some w \<Rightarrow>
              let quiet_for = ep_now E w - transport_last_read E self w
              in if as_nanos tolerance < quiet_for
                 then Some (w, Ready (Some (Inl (Server_Quiet quiet_for (as_nanos (div_duration tolerance 2))))))
                 else Some (w, Pending)))"

definition transport_poll_next :: "'w endpoint \<Rightarrow> ('k, 'z) live_transport_scheme \<Rightarrow> 'w \<Rightarrow>
    ('w \<times> from_server message result option poll) option" where
  "transport_poll_next E self w =
    (case (case ct_transport self of Direct c \<Rightarrow> ep_poll_next E w | Pumped c \<Rightarrow> ep_reader_next E w) of
       (w, Pending) \<Rightarrow> poll_server_timeout E self w
     | (w, Ready y) \<Rightarrow> Some (w, Ready y))"

text \<open>The four operations of the sink.\<close>

definition on_pump :: "'k live_transport \<Rightarrow> 'k pump \<times> 'w \<times> 'y \<Rightarrow> 'k live_transport \<times> 'w \<times> 'y" where
  "on_pump self r = (case r of (p, w, y) \<Rightarrow> (self\<lparr>lv_pump := p\<rparr>, w, y))"

definition on_framed :: "'k live_transport \<Rightarrow> 'w \<times> 'y \<Rightarrow> 'k live_transport \<times> 'w \<times> 'y" where
  "on_framed self r = (case r of (w, y) \<Rightarrow> (self, w, y))"

definition transport_poll_ready :: "'w endpoint \<Rightarrow> ('w, 'k) channels \<Rightarrow> 'k live_transport \<Rightarrow> 'w \<Rightarrow>
    'k live_transport \<times> 'w \<times> unit result poll" where
  "transport_poll_ready E C self w =
    (case ct_transport self of
       Direct c \<Rightarrow> on_framed self (ep_poll_ready E w)
     | Pumped c \<Rightarrow> on_pump self (pump_poll_ready C (lv_pump self) w))"

definition transport_start_send :: "'w endpoint \<Rightarrow> ('w, 'k) channels \<Rightarrow> to_server message \<Rightarrow>
    'k live_transport \<Rightarrow> 'w \<Rightarrow> 'k live_transport \<times> 'w \<times> unit result" where
  "transport_start_send E C item self w =
    (case ct_transport self of
       Direct c \<Rightarrow> on_framed self (ep_start_send E item w)
     | Pumped c \<Rightarrow> on_pump self (pump_start_send C (Message item) (lv_pump self) w))"

definition transport_poll_flush :: "'w endpoint \<Rightarrow> ('w, 'k) channels \<Rightarrow> 'k live_transport \<Rightarrow> 'w \<Rightarrow>
    'k live_transport \<times> 'w \<times> unit result poll" where
  "transport_poll_flush E C self w =
    (case ct_transport self of
       Direct c \<Rightarrow> on_framed self (ep_poll_flush E w)
     | Pumped c \<Rightarrow> on_pump self (pump_poll_flush C (lv_pump self) w))"

definition transport_poll_close :: "'w endpoint \<Rightarrow> ('w, 'k) channels \<Rightarrow> 'k live_transport \<Rightarrow> 'w \<Rightarrow>
    'k live_transport \<times> 'w \<times> unit result poll" where
  "transport_poll_close E C self w =
    (case ct_transport self of
       Direct c \<Rightarrow> on_framed self (ep_poll_close E w)
     | Pumped c \<Rightarrow> on_pump self (pump_poll_close C (lv_pump self) w))"

text \<open>\<open>send_heartbeat\<close>, with the other tasks running while a pumped one waits.\<close>

definition transport_send_heartbeat :: "('w \<Rightarrow> 'w) \<Rightarrow> 'w endpoint \<Rightarrow> ('w, 'k) channels \<Rightarrow>
    'k live_transport \<Rightarrow> 'w \<Rightarrow> ('k live_transport \<times> 'w \<times> unit result) option" where
  "transport_send_heartbeat run E C self w =
    (case ct_transport self of
       Direct c \<Rightarrow> Some (on_framed self (ep_send_heartbeat E w))
     | Pumped c \<Rightarrow> map_option (on_pump self) (pump_send run C Heartbeat (lv_pump self) w))"

section \<open>The ticker\<close>

text \<open>
  What \<open>tokio::time::Interval\<close> promises with \<open>MissedTickBehavior::Delay\<close>: a tick is ready
  once its deadline has come, and the next deadline is then a period after now. Polling
  takes no time on the clock and reads nothing from the socket.
\<close>

locale ticker_lib =
  fixes E :: "'w endpoint" and deadline :: "'w \<Rightarrow> nat" and period :: nat
  assumes period_pos: "0 < period"
    and tick_ready: "snd (ep_poll_tick E w) = (deadline w \<le> ep_now E w)"
    and tick_rearms: "ep_poll_tick E w = (w', True) \<Longrightarrow> deadline w' = ep_now E w + period"
    and tick_waits: "ep_poll_tick E w = (w', False) \<Longrightarrow> deadline w' = deadline w"
    and tick_quiet: "ep_poll_tick E w = (w', b) \<Longrightarrow> ep_now E w' = ep_now E w \<and>
          ep_last_read E w' = ep_last_read E w \<and> ep_reader_last_read E w' = ep_reader_last_read E w"
begin

lemma drain_ends: "\<exists>w'. drain_ticks E w = Some w' \<and> ep_now E w' = ep_now E w \<and>
    ep_last_read E w' = ep_last_read E w \<and> ep_reader_last_read E w' = ep_reader_last_read E w \<and>
    ep_now E w < deadline w' \<and> deadline w' \<le> max (deadline w) (ep_now E w + period) \<and>
    (\<exists>v. ep_poll_tick E v = (w', False))"
proof -
  obtain w1 b1 where t1: "ep_poll_tick E w = (w1, b1)" by (cases "ep_poll_tick E w")
  note q1 = tick_quiet [OF t1]
  show ?thesis
  proof (cases b1)
    case False
    with t1 have "drain_ticks E w = Some w1" by (simp add: drain_ticks.simps [of E w])
    moreover have "ep_now E w < deadline w1" "deadline w1 = deadline w"
      using tick_ready [of w] tick_waits [of w w1] t1 False by simp_all
    ultimately show ?thesis using q1 t1 False by (intro exI [of _ w1]) auto
  next
    case True
    with t1 have d1: "deadline w1 = ep_now E w + period" using tick_rearms by simp
    obtain w2 b2 where t2: "ep_poll_tick E w1 = (w2, b2)" by (cases "ep_poll_tick E w1")
    have "\<not> b2" using tick_ready [of w1] t2 d1 q1 period_pos by simp
    then have "drain_ticks E w = Some w2" using t1 t2 True
      by (simp add: drain_ticks.simps [of E w] drain_ticks.simps [of E w1])
    moreover have "deadline w2 = deadline w1" using tick_waits t2 \<open>\<not> b2\<close> by simp
    ultimately show ?thesis using q1 tick_quiet [OF t2] d1 period_pos t2 \<open>\<not> b2\<close>
      by (intro exI [of _ w2]) auto
  qed
qed

lemma timeout_exact:
  assumes "ct_supervise self = Some (tolerance, d)"
  shows "\<exists>w'. poll_server_timeout E self w =
    Some (w', if as_nanos tolerance < ep_now E w - transport_last_read E self w
              then Ready (Some (Inl (Server_Quiet (ep_now E w - transport_last_read E self w)
                                       (as_nanos (div_duration tolerance 2)))))
              else Pending)"
proof -
  obtain w' where w': "drain_ticks E w = Some w'" "ep_now E w' = ep_now E w"
    "ep_last_read E w' = ep_last_read E w" "ep_reader_last_read E w' = ep_reader_last_read E w"
    using drain_ends [of w] by blast
  then have "transport_last_read E self w' = transport_last_read E self w"
    by (simp add: transport_last_read_def split: wiring.split)
  with w' assms show ?thesis by (intro exI [of _ w']) (simp add: poll_server_timeout_def Let_def)
qed

end

end
