(* ===== verification/Disconnect.thy ===== *)
theory Disconnect
  imports Sim_Net
begin

text \<open>
  \<open>disconnect\<close> of \<open>src/client.rs\<close>: send DISCONNECT with a receipt, read until the
  matching RECEIPT arrives, close. Sending, receiving and closing a transport are
  parameters, awaited to their end.
\<close>

partial_function (option) disconnect_loop :: "('w, from_server message option) io \<Rightarrow> ('w, unit) io \<Rightarrow>
    rstring \<Rightarrow> 'w \<Rightarrow> ('w \<times> unit result) option" where
  "disconnect_loop next close receipt w =
    (case next w of (w, msg) \<Rightarrow>
       (case msg of
          Inl e \<Rightarrow> Some (w, Inl e)
        | Inr None \<Rightarrow> Some (w, Inl Disconnect_Not_Acknowledged)
        | Inr (Some m) \<Rightarrow>
            (case content m of
               Receipt receipt_id \<Rightarrow>
                 if receipt_id = receipt then Some (close w)
                 else disconnect_loop next close receipt w
             | Error message body \<Rightarrow>
                 Some (w, Inl (Disconnect_Refused (case message of None \<Rightarrow> [] | Some t \<Rightarrow> t)))
             | Connected v s sv hb \<Rightarrow> disconnect_loop next close receipt w
             | Msg d i s a hs b \<Rightarrow> disconnect_loop next close receipt w)))"

definition disconnect :: "(to_server message \<Rightarrow> ('w, unit) io) \<Rightarrow> ('w, from_server message option) io \<Rightarrow>
    ('w, unit) io \<Rightarrow> rstring \<Rightarrow> 'w \<Rightarrow> ('w \<times> unit result) option" where
  "disconnect send next close receipt w =
    (case send (message_from (Disconnect (Some receipt))) w of
       (w, Inl e) \<Rightarrow> Some (w, Inl e)
     | (w, Inr u) \<Rightarrow> disconnect_loop next close receipt w)"

section \<open>What the answer should be\<close>

text \<open>
  The verdict on the messages that arrive before the stream ends: close, or fail with an
  error; and how many of them are read.
\<close>

fun verdict :: "rstring \<Rightarrow> from_server list \<Rightarrow> unit result" where
  "verdict receipt [] = Inl Disconnect_Not_Acknowledged"
| "verdict receipt (Receipt i # ms) = (if i = receipt then Inr () else verdict receipt ms)"
| "verdict receipt (Error m b # ms) = Inl (Disconnect_Refused (case m of None \<Rightarrow> [] | Some t \<Rightarrow> t))"
| "verdict receipt (Connected v s sv hb # ms) = verdict receipt ms"
| "verdict receipt (Msg d i s a hs b # ms) = verdict receipt ms"

fun read_until :: "rstring \<Rightarrow> from_server list \<Rightarrow> from_server list" where
  "read_until receipt [] = []"
| "read_until receipt (Receipt i # ms) = (if i = receipt then ms else read_until receipt ms)"
| "read_until receipt (Error m b # ms) = ms"
| "read_until receipt (Connected v s sv hb # ms) = read_until receipt ms"
| "read_until receipt (Msg d i s a hs b # ms) = read_until receipt ms"

definition not_error :: "from_server \<Rightarrow> bool" where
  "not_error m \<longleftrightarrow> (case m of Error t b \<Rightarrow> False | _ \<Rightarrow> True)"

definition answered :: "rstring \<Rightarrow> from_server list \<Rightarrow> bool" where
  "answered receipt ms \<longleftrightarrow> (\<exists>xs ys. ms = xs @ Receipt receipt # ys \<and> list_all not_error xs)"

lemma answered_simps:
  "\<not> answered receipt []"
  "answered receipt (m # ms) \<longleftrightarrow> m = Receipt receipt \<or> not_error m \<and> answered receipt ms"
proof -
  show "\<not> answered receipt []" by (simp add: answered_def)
  show "answered receipt (m # ms) \<longleftrightarrow> m = Receipt receipt \<or> not_error m \<and> answered receipt ms"
  proof
    assume "answered receipt (m # ms)"
    then obtain xs ys where *: "m # ms = xs @ Receipt receipt # ys" "list_all not_error xs"
      by (auto simp: answered_def)
    then show "m = Receipt receipt \<or> not_error m \<and> answered receipt ms"
      by (cases xs) (auto simp: answered_def)
  next
    assume "m = Receipt receipt \<or> not_error m \<and> answered receipt ms"
    then show "answered receipt (m # ms)"
    proof
      assume "m = Receipt receipt"
      then have "m # ms = [] @ Receipt receipt # ms \<and> list_all not_error []" by simp
      then show ?thesis unfolding answered_def by blast
    next
      assume "not_error m \<and> answered receipt ms"
      then obtain xs ys where "ms = xs @ Receipt receipt # ys" "list_all not_error xs" "not_error m"
        by (auto simp: answered_def)
      then have "m # ms = (m # xs) @ Receipt receipt # ys \<and> list_all not_error (m # xs)" by simp
      then show ?thesis unfolding answered_def by blast
    qed
  qed
qed

lemma verdict_ok: "verdict receipt ms = Inr () \<longleftrightarrow> answered receipt ms"
  by (induction receipt ms rule: verdict.induct) (auto simp: answered_simps not_error_def)

section \<open>A source of messages\<close>

text \<open>
  \<open>holds w ms\<close>: from the state \<open>w\<close> on, \<open>next\<close> gives the messages \<open>ms\<close> and then the end of
  the stream.
\<close>

locale message_source =
  fixes "next" :: "('w, from_server message option) io" and holds :: "'w \<Rightarrow> from_server list \<Rightarrow> bool"
  assumes next_message: "holds w (m # ms) \<Longrightarrow>
        \<exists>w' ex. next w = (w', Inr (Some \<lparr>content = m, extra_headers = ex\<rparr>)) \<and> holds w' ms"
    and next_end: "holds w [] \<Longrightarrow> \<exists>w'. next w = (w', Inr None)"
begin

lemma loop_verdict:
  assumes quiet: "\<And>v v' y. next v = (v', y) \<Longrightarrow> g v' = g v"
  shows "holds w ms \<Longrightarrow> \<exists>w'. g w' = g w \<and> (verdict receipt ms = Inr () \<longrightarrow> holds w' (read_until receipt ms)) \<and>
    disconnect_loop next close receipt w =
      Some (case verdict receipt ms of Inr u \<Rightarrow> close w' | Inl e \<Rightarrow> (w', Inl e))"
proof (induction ms arbitrary: w)
  case Nil
  then obtain w' where "next w = (w', Inr None)" using next_end by blast
  moreover from this have "disconnect_loop next close receipt w = Some (w', Inl Disconnect_Not_Acknowledged)"
    by (simp add: disconnect_loop.simps [of "next" close receipt w])
  ultimately show ?case using quiet by (intro exI [of _ w']) simp
next
  case (Cons m ms)
  then obtain w1 ex where n: "next w = (w1, Inr (Some \<lparr>content = m, extra_headers = ex\<rparr>))" "holds w1 ms"
    using next_message by blast
  have g: "g w1 = g w" by (rule quiet [OF n(1)])
  obtain w' where ih: "g w' = g w1" "verdict receipt ms = Inr () \<longrightarrow> holds w' (read_until receipt ms)"
    "disconnect_loop next close receipt w1 =
      Some (case verdict receipt ms of Inr u \<Rightarrow> close w' | Inl e \<Rightarrow> (w', Inl e))"
    using Cons.IH [OF n(2)] by blast
  note step = disconnect_loop.simps [of "next" close receipt w]
  show ?case
  proof (cases "not_error m \<and> m \<noteq> Receipt receipt")
    case True
    then have "disconnect_loop next close receipt w = disconnect_loop next close receipt w1"
      "verdict receipt (m # ms) = verdict receipt ms" "read_until receipt (m # ms) = read_until receipt ms"
      using n(1) by (cases m; simp add: step not_error_def)+
    with ih g show ?thesis by (intro exI [of _ w']) simp
  next
    case False
    then consider "m = Receipt receipt" | t b where "m = Error t b"
      by (cases m) (auto simp: not_error_def)
    then show ?thesis by cases (use n g in \<open>intro exI [of _ w1]; simp add: step\<close>)+
  qed
qed

end

text \<open>
  The framed socket of a direct connection is such a source: its messages are the ones
  the server's bytes encode, whatever the reads.
\<close>

definition holds_bytes :: "nat \<Rightarrow> ('w \<Rightarrow> bool) \<Rightarrow> ('w \<Rightarrow> bytes) \<Rightarrow> ('w \<Rightarrow> bytes list) \<Rightarrow>
    'w \<Rightarrow> from_server list \<Rightarrow> bool" where
  "holds_bytes limit healthy unread inbox w ms \<longleftrightarrow>
    healthy w \<and> length (unread w @ concat (inbox w)) \<le> limit \<and>
    (\<exists>ps es. list_all server_item_ok ps \<and> list_all is_eol es \<and> map snd ps = ms \<and>
      dropWhile is_eol (unread w @ concat (inbox w)) = dropWhile is_eol (concat (map server_item ps) @ es))"

lemma holds_bytes_cong:
  "holds_bytes limit healthy unread inbox w ms \<Longrightarrow> healthy w' \<Longrightarrow> unread w' = unread w \<Longrightarrow> inbox w' = inbox w \<Longrightarrow>
    holds_bytes limit healthy unread inbox w' ms"
  by (simp add: holds_bytes_def)

text \<open>A server that accepts: the handshake, and what the read half holds then.\<close>

lemma handshake_holds:
  assumes "winnow_lib W" and "framing_lib B N sent pumps healthy unread inbox"
    and "healthy w" and "unread w = []"
    and "server_item_ok (es, Connected ''1.2'' s sv hb)" and "list_all server_item_ok ps" and "list_all is_eol trail"
    and "concat (inbox w) = server_item (es, Connected ''1.2'' s sv hb) @ concat (map server_item ps) @ trail"
    and "length (concat (inbox w)) \<le> limit"
    and "accept_connected (Some \<lparr>content = Connected ''1.2'' s sv hb, extra_headers = []\<rparr>) requested = Inr iv"
  obtains w1 where "establish W B N cmsg requested beats limit w =
      (w1, Inr ((if beats then Pumped else Direct) (with_max_frame_size limit), iv))"
    "holds_bytes limit healthy unread inbox w1 (map snd ps)"
    "sent w1 = sent w @ wire (message_to_frame cmsg)"
    "pumps w1 = pumps w @ (if beats then [fst iv] else [])"
proof -
  have m: "list_all is_eol es" "server_ok (Connected ''1.2'' s sv hb)" "from_server_utf8 (Connected ''1.2'' s sv hb)"
    using assms(5) by simp_all
  obtain w1 where w1: "establish W B N cmsg requested beats limit w =
      (w1, Inr ((if beats then Pumped else Direct) (with_max_frame_size limit), iv))"
    "dropWhile is_eol (unread w1 @ concat (inbox w1)) = dropWhile is_eol (concat (map server_item ps) @ trail)"
    "healthy w1" "length (unread w1 @ concat (inbox w1)) \<le> limit"
    "sent w1 = sent w @ wire (message_to_frame cmsg)"
    "pumps w1 = pumps w @ (if beats then [fst iv] else [])"
    using framing_lib.establish_reply [OF assms(2,1,3,4) m _ assms(9),
        of "concat (map server_item ps) @ trail" cmsg requested beats] assms(8,10) by auto
  moreover have "holds_bytes limit healthy unread inbox w1 (map snd ps)"
    unfolding holds_bytes_def using w1 assms(6,7) by blast
  ultimately show thesis using that by blast
qed

lemma holds_bytes_source:
  assumes "winnow_lib W" "framing_lib B N sent pumps healthy unread inbox"
  shows "message_source (fr_next N (decode W B (with_max_frame_size limit)))
    (holds_bytes limit healthy unread inbox)"
proof
  fix w m ms
  let ?dec = "decode W B (with_max_frame_size limit)"
  let ?d = "frame_decoder to_server_msg limit"
  have refine: "decodes_as B ?dec ?d"
    using framing_lib.decode_decodes_as [OF assms(2,1), of "with_max_frame_size limit"]
    by (simp add: with_max_frame_size_def)
  obtain w' y where nx: "fr_next N ?dec w = (w', y)" by (cases "fr_next N ?dec w")
  {
    assume "holds_bytes limit healthy unread inbox w (m # ms)"
    then obtain p ps es where h: "healthy w" "length (unread w @ concat (inbox w)) \<le> limit"
      "server_item_ok p" "list_all server_item_ok ps" "list_all is_eol es" "snd p = m" "map snd ps = ms"
      "dropWhile is_eol (unread w @ concat (inbox w)) =
        dropWhile is_eol (server_item p @ concat (map server_item ps) @ es)"
      by (auto simp: holds_bytes_def Cons_eq_map_conv)
    obtain hs where p: "p = (hs, m)" using h(6) by (cases p) simp
    with h(3) have m: "list_all is_eol hs" "server_ok m" "from_server_utf8 m" by simp_all
    have "dropWhile is_eol (server_item p @ concat (map server_item ps) @ es) =
        dropWhile is_eol (wire (server_frame m) @ concat (map server_item ps) @ es)"
      using dropWhile_skip_all [OF m(1)] by (simp add: p)
    with h(8) have "?d (unread w @ concat (inbox w)) = ?d (wire (server_frame m) @ concat (map server_item ps) @ es)"
      by (intro frame_decoder_norm) simp
    also have "\<dots> = (skip_eol (concat (map server_item ps) @ es),
        Inr (Some \<lparr>content = m, extra_headers = server_extra m\<rparr>))"
      by (rule frame_decoder_server [OF m(2,3)])
    finally have "?d (unread w @ concat (inbox w)) = (skip_eol (concat (map server_item ps) @ es),
        Inr (Some \<lparr>content = m, extra_headers = server_extra m\<rparr>))" .
    from client_reader.read_first_item [OF h(2) this]
      framing_lib.next_reads [OF assms(2) h(1) refine nx]
    have r: "y = Inr (Some \<lparr>content = m, extra_headers = server_extra m\<rparr>)"
      "dropWhile is_eol (unread w' @ concat (inbox w')) = dropWhile is_eol (concat (map server_item ps) @ es)"
      "length (unread w' @ concat (inbox w')) \<le> limit"
      using h(2) by auto
    have "healthy w'" by (rule framing_lib.next_healthy [OF assms(2) h(1) nx [unfolded r(1)]])
    with r h(4,5,7) have "holds_bytes limit healthy unread inbox w' ms"
      unfolding holds_bytes_def by blast
    with nx r(1) show "\<exists>w' ex. fr_next N ?dec w =
        (w', Inr (Some \<lparr>content = m, extra_headers = ex\<rparr>)) \<and> holds_bytes limit healthy unread inbox w' ms"
      by blast
  next
    assume "holds_bytes limit healthy unread inbox w []"
    then obtain es where es: "healthy w" "list_all is_eol es"
      "dropWhile is_eol (unread w @ concat (inbox w)) = dropWhile is_eol (es @ [])"
      by (auto simp: holds_bytes_def)
    then have h: "healthy w" "dropWhile is_eol (unread w @ concat (inbox w)) = []"
      using dropWhile_skip_all [OF es(2), of "[]"] by (simp_all del: append_Nil2 dropWhile_eq_Nil_conv)
    from read_first_eols [OF h(2), of to_server_msg limit] framing_lib.next_reads [OF assms(2) h(1) refine nx] nx
    show "\<exists>w'. fr_next N ?dec w = (w', Inr None)" by auto
  }
qed

lemma framing_disconnect:
  assumes "winnow_lib W" "framing_lib B N sent pumps healthy unread inbox"
    "holds_bytes limit healthy unread inbox w ms"
  shows "\<exists>w'. disconnect (\<lambda>m. fr_send N (encode_message B m))
      (fr_next N (decode W B (with_max_frame_size limit))) close receipt w =
      Some (case verdict receipt ms of Inr u \<Rightarrow> close w' | Inl e \<Rightarrow> (w', Inl e)) \<and>
    sent w' = sent w @ wire (frame_new ''DISCONNECT'' [(''receipt'', Some receipt)] None)"
proof -
  let ?m = "message_from (Disconnect (Some receipt))"
  let ?next = "fr_next N (decode W B (with_max_frame_size limit))"
  have "healthy w" using assms(3) by (simp add: holds_bytes_def)
  moreover have "\<And>buf. fst (encode_message B ?m buf) = Inr ()" by (simp add: encode_message_def)
  ultimately obtain w1 where w1: "fr_send N (encode_message B ?m) w = (w1, Inr ())" "healthy w1"
    "unread w1 = unread w" "inbox w1 = inbox w"
    using framing_lib.send_succeeds [OF assms(2)] by blast
  have s: "sent w1 = sent w @ wire (frame_new ''DISCONNECT'' [(''receipt'', Some receipt)] None)"
    using framing_lib.send_writes [OF assms(2) w1(1)]
      bytes_mut_lib.serialize_bytes [OF framing_lib.axioms(1) [OF assms(2)]]
    by (auto simp: encode_message_def message_to_frame_def add_extra_headers_def)
  have "holds_bytes limit healthy unread inbox w1 ms"
    using assms(3) w1 by (simp add: holds_bytes_def)
  moreover have "\<And>v v' y. ?next v = (v', y) \<Longrightarrow> sent v' = sent v"
    using framing_lib.next_quiet [OF assms(2)] by blast
  ultimately obtain w' where "sent w' = sent w1" "disconnect_loop ?next close receipt w1 =
      Some (case verdict receipt ms of Inr u \<Rightarrow> close w' | Inl e \<Rightarrow> (w', Inl e))"
    using message_source.loop_verdict [OF holds_bytes_source [OF assms(1,2)], of limit sent w1 ms receipt close]
    by blast
  with w1(1) s show ?thesis by (intro exI [of _ w']) (simp add: disconnect_def)
qed

interpretation sim_source: message_source
  "fr_next sim_net (decode winnow_ref vec_bytes_mut (with_max_frame_size limit))"
  "holds_bytes limit (\<lambda>w. \<not> sim_closed w) (\<lambda>w. vb_data (sim_buf w)) sim_in" for limit
  by (rule holds_bytes_source [OF wref.winnow_lib_axioms sim.framing_lib_axioms])

end
