(* ===== verification/Sim_Channels.thy ===== *)
theory Sim_Channels
  imports Write_Pump
begin

text \<open>
  An executable channel, one-shots and writer that keep the promises of \<open>pump_lib\<close>.
  One-shots are numbered in the order they are made. The closed examples run on it.
\<close>

record chan_sim =
  cs_queue :: "(outgoing \<times> nat) list"
  cs_tx :: bool
  cs_rx :: bool
  cs_slots :: "slot list"
  cs_sent :: bytes
  cs_shut :: bool
  cs_broken :: bool

definition cs_slot :: "chan_sim \<Rightarrow> nat \<Rightarrow> slot" where
  "cs_slot w k = (if k < length (cs_slots w) then cs_slots w ! k else Unused)"

definition cs_view :: "chan_sim \<Rightarrow> nat link" where
  "cs_view w = \<lparr>lk_queue = cs_queue w, lk_tx = cs_tx w, lk_rx = cs_rx w, lk_slot = cs_slot w,
    lk_sent = cs_sent w, lk_shut = cs_shut w\<rparr>"

text \<open>Setting a slot, growing the table where needed.\<close>

definition cs_set :: "nat \<Rightarrow> slot \<Rightarrow> chan_sim \<Rightarrow> chan_sim" where
  "cs_set k s w =
    w\<lparr>cs_slots := (cs_slots w @ replicate (Suc k - length (cs_slots w)) Unused)[k := s]\<rparr>"

definition cs_cancel :: "nat list \<Rightarrow> chan_sim \<Rightarrow> chan_sim" where
  "cs_cancel ks w = fold (\<lambda>k. cs_set k Cancelled) ks w"

definition sim_channels :: "(chan_sim, nat) channels" where
  "sim_channels =
    \<lparr>ch_poll_ready = (\<lambda>w. (w, if cs_tx w \<and> cs_rx w
        then (if length (cs_queue w) \<le> 1 then Ready (Some ()) else Pending) else Ready None)),
     ch_start_send = (\<lambda>(it, k) w. if cs_tx w \<and> cs_rx w
        then (w\<lparr>cs_queue := cs_queue w @ [(it, k)]\<rparr>, True) else (cs_set k Cancelled w, False)),
     ch_close = (\<lambda>w. w\<lparr>cs_tx := False\<rparr>),
     ch_recv = (\<lambda>w. case cs_queue w of
        [] \<Rightarrow> (w, if cs_tx w then Pending else Ready None)
      | x # q \<Rightarrow> (w\<lparr>cs_queue := q\<rparr>, Ready (Some x))),
     ch_drop_rx = (\<lambda>w. (cs_cancel (map snd (cs_queue w)) w)\<lparr>cs_rx := False, cs_queue := []\<rparr>),
     os_channel = (\<lambda>w. (cs_set (length (cs_slots w)) Waiting w, length (cs_slots w))),
     os_send = (\<lambda>k r w. if cs_slot w k = Waiting then cs_set k (Answered r) w else w),
     os_poll = (\<lambda>k w. (w, case cs_slot w k of
        Answered r \<Rightarrow> Ready (Some r) | Cancelled \<Rightarrow> Ready None | _ \<Rightarrow> Pending))\<rparr>"

definition sim_writer :: "(chan_sim, vec_buf) framed_writer" where
  "sim_writer =
    \<lparr>fw_send = (\<lambda>enc w. case enc (vec_of []) of
        (Inl e, _) \<Rightarrow> (w, Inl e)
      | (Inr _, buf) \<Rightarrow> if cs_broken w then (w, Inl (Io_Error ''broken pipe''))
          else (w\<lparr>cs_sent := cs_sent w @ vb_data buf\<rparr>, Inr ())),
     fw_close = (\<lambda>w. (w\<lparr>cs_shut := True\<rparr>, Inr ()))\<rparr>"

definition chan_sim_init :: chan_sim where
  "chan_sim_init = \<lparr>cs_queue = [], cs_tx = True, cs_rx = True, cs_slots = [], cs_sent = [],
    cs_shut = False, cs_broken = False\<rparr>"

lemma cs_slot_set: "cs_slot (cs_set k s w) = (cs_slot w)(k := s)"
  by (rule ext) (auto simp: cs_slot_def cs_set_def nth_append nth_list_update)

lemma cs_set_simps [simp]:
  "cs_queue (cs_set k s w) = cs_queue w" "cs_tx (cs_set k s w) = cs_tx w"
  "cs_rx (cs_set k s w) = cs_rx w" "cs_sent (cs_set k s w) = cs_sent w"
  "cs_shut (cs_set k s w) = cs_shut w"
  by (simp_all add: cs_set_def)

lemma cs_view_set: "cs_view (cs_set k s w) = (cs_view w)\<lparr>lk_slot := (cs_slot w)(k := s)\<rparr>"
  by (simp add: cs_view_def cs_slot_set)

lemma cs_slot_other [simp]:
  "cs_slot (w\<lparr>cs_queue := q\<rparr>) = cs_slot w" "cs_slot (w\<lparr>cs_tx := b\<rparr>) = cs_slot w"
  "cs_slot (w\<lparr>cs_rx := b\<rparr>) = cs_slot w" "cs_slot (w\<lparr>cs_sent := x\<rparr>) = cs_slot w"
  "cs_slot (w\<lparr>cs_shut := b\<rparr>) = cs_slot w"
  by (auto simp: cs_slot_def)

lemma cs_cancel_view: "cs_view (cs_cancel ks w) =
  (cs_view w)\<lparr>lk_slot := (\<lambda>k. if k \<in> set ks then Cancelled else cs_slot w k)\<rparr>"
  by (induction ks arbitrary: w)
    (auto simp: cs_cancel_def cs_view_def cs_slot_set fun_eq_iff)

text \<open>A writer that never fails.\<close>

definition steady_writer :: "(chan_sim, vec_buf) framed_writer" where
  "steady_writer =
    \<lparr>fw_send = (\<lambda>enc w. case enc (vec_of []) of
        (Inl e, _) \<Rightarrow> (w, Inl e)
      | (Inr _, buf) \<Rightarrow> (w\<lparr>cs_sent := cs_sent w @ vb_data buf\<rparr>, Inr ())),
     fw_close = (\<lambda>w. (w\<lparr>cs_shut := True\<rparr>, Inr ()))\<rparr>"

lemma sim_oneshot: "os_channel sim_channels w = (w', k) \<Longrightarrow> lk_slot (cs_view w) k = Unused \<and>
    cs_view w' = (cs_view w)\<lparr>lk_slot := (lk_slot (cs_view w))(k := Waiting)\<rparr>"
  by (auto simp: sim_channels_def cs_view_set) (simp_all add: cs_view_def cs_slot_def)

lemma sim_drop_rx: "cs_view (ch_drop_rx sim_channels w) = (cs_view w)\<lparr>lk_rx := False, lk_queue := [],
    lk_slot := (\<lambda>k. if k \<in> snd ` set (lk_queue (cs_view w)) then Cancelled else lk_slot (cs_view w) k)\<rparr>"
proof -
  have "cs_view (ch_drop_rx sim_channels w) =
      (cs_view (cs_cancel (map snd (cs_queue w)) w))\<lparr>lk_rx := False, lk_queue := []\<rparr>"
    by (simp add: sim_channels_def cs_view_def)
  moreover have "lk_queue (cs_view w) = cs_queue w" "lk_slot (cs_view w) = cs_slot w"
    by (simp_all add: cs_view_def)
  ultimately show ?thesis by (simp add: cs_cancel_view cong: if_cong)
qed

lemma sim_pump_lib:
  assumes "X = sim_writer \<or> X = steady_writer"
  shows "pump_lib vec_bytes_mut sim_channels X cs_view"
proof (unfold_locales, goal_cases)
  case (1 w w' k)
  then show ?case by (rule sim_oneshot)
next
  case (12 w)
  show ?case by (rule sim_drop_rx)
qed (use assms in \<open>auto simp: sim_channels_def sim_writer_def steady_writer_def cs_view_set\<close>,
    auto simp: cs_view_def cs_slot_set intro!: exI [of _ "vec_of []"] split: prod.splits sum.splits if_splits)

interpretation chans: pump_lib vec_bytes_mut sim_channels sim_writer cs_view
  by (rule sim_pump_lib) simp

interpretation steady: pump_lib vec_bytes_mut sim_channels steady_writer cs_view
  by (rule sim_pump_lib) simp

end
