(* ===== verification/Pump_Properties.thy ===== *)
theory Pump_Properties
  imports Sim_Channels
begin

text \<open>
  What a pumped connection promises to its caller, over every channel and writer with
  the behaviour of \<open>pump_lib\<close>; the closed examples run on \<open>Sim_Channels\<close>.
\<close>

section \<open>A run on the simulated channel\<close>

definition idle_pump :: "nat pump" where "idle_pump = \<lparr>pu_pending = None\<rparr>"

definition sim_queued :: chan_sim where
  "sim_queued = chan_sim_init\<lparr>cs_queue := [(Heartbeat, 0)], cs_slots := [Waiting]\<rparr>"

definition sim_written :: chan_sim where
  "sim_written = chan_sim_init\<lparr>cs_slots := [Answered (Inr ())], cs_sent := [LF]\<rparr>"

lemma sample_ready:
  "pump_step vec_bytes_mut sim_channels sim_writer interval (chan_sim_init, idle_pump, True, False) []
     (chan_sim_init, idle_pump, True, True)"
  using pump_step.Ready_Step [of sim_channels idle_pump chan_sim_init idle_pump chan_sim_init
      "Ready (Inr ())" vec_bytes_mut sim_writer interval True False]
  by (simp add: pump_poll_ready_def pump_poll_flush_def settlement_def idle_pump_def sim_channels_def
      chan_sim_init_def)

lemma sample_accept:
  "pump_step vec_bytes_mut sim_channels sim_writer interval (chan_sim_init, idle_pump, True, True)
     [Accepted Heartbeat] (sim_queued, \<lparr>pu_pending = Some 0\<rparr>, True, False)"
  using pump_step.Start_Step [of sim_channels Heartbeat idle_pump chan_sim_init "\<lparr>pu_pending = Some 0\<rparr>"
      sim_queued "Inr ()" vec_bytes_mut sim_writer interval True]
  by (simp add: pump_start_send_def idle_pump_def sim_channels_def chan_sim_init_def sim_queued_def cs_set_def)

lemma sample_turn:
  "pump_step vec_bytes_mut sim_channels sim_writer interval
     (sim_queued, \<lparr>pu_pending = Some 0\<rparr>, True, False)
     [Wrote Heartbeat (Inr ())] (sim_written, \<lparr>pu_pending = Some 0\<rparr>, True, False)"
proof -
  have put: "vb_data (bm_put_u8 vec_bytes_mut (vec_of []) LF) = [LF]"
    using vec.put_u8 [of "vec_of []" LF] by simp
  let ?w = "sim_queued\<lparr>cs_queue := []\<rparr>"
  have "task_event sim_channels interval sim_queued = Some (?w, Next (Some (Heartbeat, 0)))"
    by (simp add: task_event_def sim_channels_def sim_queued_def)
  moreover have s: "fw_send sim_writer (encode_heartbeat vec_bytes_mut) ?w =
      (?w\<lparr>cs_sent := [LF]\<rparr>, Inr ())"
    by (simp add: sim_writer_def encode_heartbeat_def put sim_queued_def chan_sim_init_def)
  moreover have "pump_turn vec_bytes_mut sim_channels sim_writer (Next (Some (Heartbeat, 0))) ?w =
      (sim_written, True)"
    using s by (simp add: pump_turn_def sim_channels_def
        encode_outgoing.simps(2) [abs_def] sim_written_def sim_queued_def chan_sim_init_def cs_slot_def cs_set_def)
  moreover have "turn_obs vec_bytes_mut sim_writer (Next (Some (Heartbeat, 0 :: nat))) ?w = [Wrote Heartbeat (Inr ())]"
    using s by (simp add: turn_obs_def encode_outgoing.simps(2) [abs_def])
  ultimately show ?thesis
    using pump_step.Turn_Step [of sim_channels interval sim_queued ?w "Next (Some (Heartbeat, 0))"
        vec_bytes_mut sim_writer sim_written True "\<lparr>pu_pending = Some 0\<rparr>" False]
    by simp
qed

lemma sample_flush:
  "pump_step vec_bytes_mut sim_channels sim_writer interval
     (sim_written, \<lparr>pu_pending = Some 0\<rparr>, True, False) [Settled (Inr ())]
     (sim_written, idle_pump, True, False)"
  using pump_step.Flush_Step [of sim_channels "\<lparr>pu_pending = Some 0\<rparr>" sim_written idle_pump sim_written
      "Ready (Inr ())" vec_bytes_mut sim_writer interval True False]
  by (simp add: pump_poll_flush_def settlement_def idle_pump_def sim_channels_def sim_written_def
      cs_slot_def)

lemma sample_pump_run:
  "pump_run vec_bytes_mut sim_channels sim_writer interval (chan_sim_init, idle_pump, True, False)
     [Accepted Heartbeat, Wrote Heartbeat (Inr ()), Settled (Inr ())]
     (sim_written, idle_pump, True, False)"
  using pump_run.Run_Step [OF pump_run.Run_Step [OF pump_run.Run_Step [OF pump_run.Run_Step
      [OF pump_run.Run_Refl sample_ready] sample_accept] sample_turn] sample_flush]
  by simp

lemma sample_start: "pump_fresh cs_view (chan_sim_init, idle_pump, True, False)"
  by (simp add: pump_fresh_def idle_pump_def cs_view_def chan_sim_init_def)

section \<open>Sending\<close>



text \<open>
  C35: sending after the task has ended, or after closing, fails with \<open>Stomp connection
  closed\<close>, whatever the scheduler does, and hands nothing over.
\<close>

theorem pump_send_after_close:
  assumes "pump_lib B C X view" and "pu_pending p = None"
    and "\<not> lk_tx (view w) \<or> \<not> lk_rx (view w)"
  shows "\<exists>w'. pump_send run C item p w = Some (p, w', Inl Connection_Closed) \<and> view w' = view w"
  by (rule pump_lib.send_gone [OF assms])

theorem pump_send_after_close_witness:
  "\<exists>w'. pump_send (\<lambda>w. w) sim_channels Heartbeat idle_pump (chan_sim_init\<lparr>cs_rx := False\<rparr>) =
      Some (idle_pump, w', Inl Connection_Closed) \<and> cs_view w' = cs_view (chan_sim_init\<lparr>cs_rx := False\<rparr>)"
  by (rule pump_send_after_close [OF chans.pump_lib_axioms])
    (simp_all add: idle_pump_def chan_sim_init_def cs_view_def)

section \<open>Every interleaving\<close>

lemma run_invariant:
  assumes "pump_lib B C X view" "pump_fresh view (w0, p0, run0, rdy0)"
    "pump_run B C X interval (w0, p0, run0, rdy0) es (w, p, run, rdy)"
  shows "pump_phase (view w) p rdy es \<and> pump_task_ok (lk_sent (view w0)) (view w) run es"
  using pump_lib.inv_run [OF assms(1,3,2)] by (simp add: pump_inv_def)






lemma sample_beat:
  "pump_step vec_bytes_mut sim_channels sim_writer (Some d) (chan_sim_init, idle_pump, True, False)
     [Beat (Inr ())] (chan_sim_init\<lparr>cs_sent := [LF]\<rparr>, idle_pump, True, False)"
proof -
  have put: "vb_data (bm_put_u8 vec_bytes_mut (vec_of []) LF) = [LF]"
    using vec.put_u8 [of "vec_of []" LF] by simp
  have s: "fw_send sim_writer (encode_heartbeat vec_bytes_mut) chan_sim_init =
      (chan_sim_init\<lparr>cs_sent := [LF]\<rparr>, Inr ())"
    by (simp add: sim_writer_def encode_heartbeat_def put chan_sim_init_def)
  have "task_event sim_channels (Some d) chan_sim_init = Some (chan_sim_init, Elapsed)"
    by (simp add: task_event_def sim_channels_def chan_sim_init_def)
  then show ?thesis
    using pump_step.Turn_Step [of sim_channels "Some d" chan_sim_init chan_sim_init Elapsed
        vec_bytes_mut sim_writer "chan_sim_init\<lparr>cs_sent := [LF]\<rparr>" True idle_pump False] s
    by (simp add: pump_turn_def turn_obs_def)
qed


section \<open>The task on its own\<close>



end
