(* ===== verification/Transport_Properties.thy ===== *)
theory Transport_Properties
  imports Transport Disconnect Pump_Properties
begin

text \<open>
  Properties of a live connection: supervision of the server, the layers around the
  socket, closing, and \<open>disconnect\<close>.
\<close>

section \<open>Supervision\<close>

text \<open>A ticker on a simulated clock, for the closed examples.\<close>

record tick_sim =
  ts_now :: nat
  ts_deadline :: nat
  ts_last_read :: nat

definition tick_endpoint :: "nat \<Rightarrow> tick_sim endpoint" where
  "tick_endpoint period =
    \<lparr>ep_poll_next = (\<lambda>w. (w, Pending)), ep_last_read = ts_last_read,
     ep_poll_ready = (\<lambda>w. (w, Ready (Inr ()))), ep_start_send = (\<lambda>m w. (w, Inr ())),
     ep_poll_flush = (\<lambda>w. (w, Ready (Inr ()))), ep_poll_close = (\<lambda>w. (w, Ready (Inr ()))),
     ep_send_heartbeat = (\<lambda>w. (w, Inr ())), ep_reader_next = (\<lambda>w. (w, Pending)),
     ep_reader_last_read = ts_last_read, ep_now = ts_now,
     ep_poll_tick = (\<lambda>w. if ts_deadline w \<le> ts_now w
        then (w\<lparr>ts_deadline := ts_now w + period\<rparr>, True) else (w, False))\<rparr>"

interpretation ticks: ticker_lib "tick_endpoint (Suc n)" ts_deadline "Suc n" for n
  by unfold_locales (auto simp: tick_endpoint_def split: if_splits)

definition frames_next :: "'w endpoint \<Rightarrow> client_transport \<Rightarrow> 'w \<Rightarrow> 'w \<times> from_server message result option poll" where
  "frames_next E ct w =
    (case ct_transport ct of Direct c \<Rightarrow> ep_poll_next E w | Pumped c \<Rightarrow> ep_reader_next E w)"

lemma supervised_poll:
  assumes "ticker_lib E deadline period"
    and "frames_next E (client_transport_new tr p q auto) w = (w1, y)"
  shows "\<exists>w'. transport_poll_next E
      (live_of (client_transport_new tr p q auto) pump) w =
    Some (w',
      (let quiet = ep_now E w1 -
             (case tr of Direct c \<Rightarrow> ep_last_read E w1 | Pumped c \<Rightarrow> ep_reader_last_read E w1)
       in if y \<noteq> Pending then y
          else (case q of
             None \<Rightarrow> Pending
           | Some interval \<Rightarrow>
               if auto \<and> 2 * as_nanos interval < quiet
               then Ready (Some (Inl (Server_Quiet quiet (as_nanos interval))))
               else Pending)))"
proof -
  let ?t = "live_of (client_transport_new tr p q auto) pump"
  have t: "ct_transport ?t = tr" "ct_supervise ?t = (if auto then map_option (\<lambda>d. (times_duration d 2, d)) q else None)"
    "ct_transport (client_transport_new tr p q auto) = tr"
    by (simp_all add: live_of_def client_transport_new_def)
  have nx: "transport_poll_next E ?t w =
      (case y of Pending \<Rightarrow> poll_server_timeout E ?t w1 | Ready z \<Rightarrow> Some (w1, Ready z))"
    using assms(2) by (simp add: transport_poll_next_def frames_next_def t)
  have lr: "transport_last_read E ?t w1 =
      (case tr of Direct c \<Rightarrow> ep_last_read E w1 | Pumped c \<Rightarrow> ep_reader_last_read E w1)"
    by (simp add: transport_last_read_def t)
  show ?thesis
  proof (cases y)
    case (Ready z)
    with nx show ?thesis by (simp add: Let_def)
  next
    case Pending
    show ?thesis
    proof (cases "ct_supervise ?t")
      case None
      with nx Pending t(2) show ?thesis
        by (auto simp: poll_server_timeout_def Let_def split: option.splits if_splits)
    next
      case (Some tp)
      then obtain d where d: "q = Some d" "auto" "tp = (times_duration d 2, d)"
        using t(2) by (auto split: if_splits)
      obtain w' where "poll_server_timeout E ?t w1 =
          Some (w', if as_nanos (times_duration d 2) < ep_now E w1 - transport_last_read E ?t w1
              then Ready (Some (Inl (Server_Quiet (ep_now E w1 - transport_last_read E ?t w1)
                                       (as_nanos (div_duration (times_duration d 2) 2)))))
              else Pending)"
        using ticker_lib.timeout_exact [OF assms(1), of ?t "times_duration d 2" d w1] Some d(3) by auto
      with nx Pending d lr show ?thesis
        by (intro exI [of _ w']) (simp add: Let_def mult.commute)
    qed
  qed
qed

text \<open>
  C13: supervision is exact and never hangs. Polling a transport made by the handshake
  always returns. A message, an error or the end of the stream is passed on as it is;
  otherwise, with automatic heart-beating and a negotiated incoming interval, the stream
  fails exactly when the server has been quiet for more than twice that interval, and in
  every other case polling waits.
\<close>

theorem supervision_exact:
  assumes "ticker_lib E deadline period"
    and "frames_next E (client_transport_new tr p q auto) w = (w1, y)"
  shows "\<exists>w'. transport_poll_next E
      (live_of (client_transport_new tr p q auto) pump) w =
    Some (w',
      (let quiet = ep_now E w1 -
             (case tr of Direct c \<Rightarrow> ep_last_read E w1 | Pumped c \<Rightarrow> ep_reader_last_read E w1)
       in if y \<noteq> Pending then y
          else (case q of
             None \<Rightarrow> Pending
           | Some interval \<Rightarrow>
               if auto \<and> 2 * as_nanos interval < quiet
               then Ready (Some (Inl (Server_Quiet quiet (as_nanos interval))))
               else Pending)))"
  by (rule supervised_poll [OF assms])

definition tick_quiet :: tick_sim where
  "tick_quiet = \<lparr>ts_now = 100, ts_deadline = 0, ts_last_read = 0\<rparr>"

theorem supervision_exact_witness:
  "\<exists>w'. transport_poll_next (tick_endpoint (Suc 9))
      (live_of (client_transport_new (Direct codec_new) None (Some (Nanos 10)) True) idle_pump) tick_quiet =
    Some (w', Ready (Some (Inl (Server_Quiet 100 10))))"
  using supervision_exact [OF ticks.ticker_lib_axioms [of 9], of "Direct codec_new" None "Some (Nanos 10)" True
      tick_quiet tick_quiet Pending idle_pump]
  by (simp add: frames_next_def client_transport_new_def tick_endpoint_def tick_quiet_def)

text \<open>
  The monitoring layer is transparent and stamps exactly the reads that deliver
  bytes. Over plain TCP and over TLS alike it returns what the socket returns; a read
  that delivered nothing and every write, flush and shutdown leave the stamp alone.
\<close>

theorem monitored_stamps_reads:
  "(let (s', buf', w', y) = io_poll_read (stream_io P T) (mn_inner m) buf w
    in io_poll_read (monitored_io now (stream_io P T)) m buf w =
        (\<lparr>mn_inner = s', mn_last_read = if length buf < length buf' then now w' else mn_last_read m\<rparr>,
         buf', w', y)) \<and>
   (let (s', w', n) = io_poll_write (stream_io P T) (mn_inner m) buf w
    in io_poll_write (monitored_io now (stream_io P T)) m buf w =
        (\<lparr>mn_inner = s', mn_last_read = mn_last_read m\<rparr>, w', n)) \<and>
   (let (s', w', y) = io_poll_flush (stream_io P T) (mn_inner m) w
    in io_poll_flush (monitored_io now (stream_io P T)) m w =
        (\<lparr>mn_inner = s', mn_last_read = mn_last_read m\<rparr>, w', y)) \<and>
   (let (s', w', y) = io_poll_shutdown (stream_io P T) (mn_inner m) w
    in io_poll_shutdown (monitored_io now (stream_io P T)) m w =
        (\<lparr>mn_inner = s', mn_last_read = mn_last_read m\<rparr>, w', y))"
  by (cases m) (auto simp: monitored_io_def monitored_poll_read_def monitored_poll_write_def
      monitored_poll_flush_def monitored_poll_shutdown_def Let_def split: prod.splits)

text \<open>The layer below delegates to the stream it holds and keeps its kind.\<close>

lemma transport_stream_delegates:
  "io_poll_read (stream_io P T) (Plain s) buf w =
     (case io_poll_read P s buf w of (s', buf', w', y) \<Rightarrow> (Plain s', buf', w', y)) \<and>
   io_poll_read (stream_io P T) (Tls t) buf w =
     (case io_poll_read T t buf w of (t', buf', w', y) \<Rightarrow> (Tls t', buf', w', y)) \<and>
   io_poll_write (stream_io P T) (Plain s) buf w =
     (case io_poll_write P s buf w of (s', w', n) \<Rightarrow> (Plain s', w', n)) \<and>
   io_poll_write (stream_io P T) (Tls t) buf w =
     (case io_poll_write T t buf w of (t', w', n) \<Rightarrow> (Tls t', w', n)) \<and>
   io_poll_flush (stream_io P T) (Plain s) w =
     (case io_poll_flush P s w of (s', w', y) \<Rightarrow> (Plain s', w', y)) \<and>
   io_poll_flush (stream_io P T) (Tls t) w =
     (case io_poll_flush T t w of (t', w', y) \<Rightarrow> (Tls t', w', y)) \<and>
   io_poll_shutdown (stream_io P T) (Plain s) w =
     (case io_poll_shutdown P s w of (s', w', y) \<Rightarrow> (Plain s', w', y)) \<and>
   io_poll_shutdown (stream_io P T) (Tls t) w =
     (case io_poll_shutdown T t w of (t', w', y) \<Rightarrow> (Tls t', w', y))"
  by (simp add: stream_io_def stream_poll_read_def stream_poll_write_def stream_poll_flush_def
      stream_poll_shutdown_def)

section \<open>Closing\<close>


text \<open>A pumped connection never uses the framed socket of its endpoint.\<close>

definition idle_endpoint :: "chan_sim endpoint" where
  "idle_endpoint =
    \<lparr>ep_poll_next = (\<lambda>w. (w, Pending)), ep_last_read = (\<lambda>_. 0),
     ep_poll_ready = (\<lambda>w. (w, Pending)), ep_start_send = (\<lambda>m w. (w, Inr ())),
     ep_poll_flush = (\<lambda>w. (w, Pending)), ep_poll_close = (\<lambda>w. (w, Pending)),
     ep_send_heartbeat = (\<lambda>w. (w, Inr ())), ep_reader_next = (\<lambda>w. (w, Pending)),
     ep_reader_last_read = (\<lambda>_. 0), ep_now = (\<lambda>_. 0), ep_poll_tick = (\<lambda>w. (w, False))\<rparr>"

definition live_written :: "nat live_transport" where
  "live_written = live_of (client_transport_new (Pumped codec_new) None None True) idle_pump"

lemma live_written_simps [simp]:
  "lv_pump live_written = idle_pump" "ct_transport live_written = Pumped codec_new"
  "live_written\<lparr>lv_pump := idle_pump\<rparr> = live_written"
  by (simp_all add: live_written_def live_of_def client_transport_new_def)


section \<open>Disconnecting\<close>

text \<open>
  C12: \<open>disconnect\<close> over the bytes of the server. Whatever conforming messages the server
  sends before it ends the stream, in whatever reads, \<open>disconnect\<close> returns: it has
  written the DISCONNECT frame with the receipt and nothing else, and it goes on to close
  the transport exactly when the matching RECEIPT comes before any ERROR; otherwise it
  fails with the server's refusal or because the receipt never came.
\<close>

theorem disconnect_outcome:
  assumes "winnow_lib W" and "framing_lib B N sent pumps healthy unread inbox"
    and "holds_bytes limit healthy unread inbox w ms"
  shows "\<exists>w'. disconnect (\<lambda>m. fr_send N (encode_message B m))
      (fr_next N (decode W B (with_max_frame_size limit))) close receipt w =
      Some (case verdict receipt ms of Inr u \<Rightarrow> close w' | Inl e \<Rightarrow> (w', Inl e)) \<and>
    sent w' = sent w @ wire (frame_new ''DISCONNECT'' [(''receipt'', Some receipt)] None) \<and>
    (verdict receipt ms = Inr () \<longleftrightarrow> answered receipt ms)"
  using framing_disconnect [OF assms] verdict_ok [of receipt ms] by blast

theorem disconnect_outcome_witness:
  "\<exists>w' :: sim. disconnect (\<lambda>m. fr_send sim_net (encode_message vec_bytes_mut m))
      (fr_next sim_net (decode winnow_ref vec_bytes_mut (with_max_frame_size 100)))
      (\<lambda>w. (w, Inr ())) ''q'' (sim_of [wire (server_frame (Receipt ''q''))]) = Some (w', Inr ()) \<and>
    sim_sent w' = wire (frame_new ''DISCONNECT'' [(''receipt'', Some ''q'')] None)"
proof -
  have "length (wire (server_frame (Receipt ''q''))) \<le> 100"
    by (simp add: wire_def wire_header_def List.map_filter_def headers_are_escaped_def escape_byte_def)
  moreover have "utf8_valid ''q''" by (rule utf8_valid_ascii) (simp add: ascii_def byte_in_def)
  ultimately have "holds_bytes 100 (\<lambda>w. \<not> sim_closed w) (\<lambda>w. vb_data (sim_buf w)) sim_in
      (sim_of [wire (server_frame (Receipt ''q''))]) [Receipt ''q'']"
    unfolding holds_bytes_def
    by (intro conjI exI [of _ "[([], Receipt ''q'')]"] exI [of _ "[]"]) (simp_all add: sim_of_def)
  note disconnect_outcome [OF wref.winnow_lib_axioms sim.framing_lib_axioms this,
      of "\<lambda>w. (w, Inr ())" "''q''"]
  then show ?thesis by (auto simp: sim_of_def)
qed

end
