(* ===== verification/Rust_Text.thy ===== *)
theory Rust_Text
  imports Rust_Std
begin

text \<open>
  The operations on texts of Rust's standard library that only the \<open>Debug\<close>
  implementations, the examples and the tests use: \<open>String::from_utf8_lossy\<close>,
  \<open>str::contains\<close>, \<open>str::matches\<close> and \<open>str::starts_with\<close>.
\<close>

section \<open>Lossy decoding and searching\<close>

text \<open>
  The first piece of a text that need not be UTF-8, as \<open>from_utf8_lossy\<close> cuts it: whether
  it is one well-formed character, and its length; a malformed piece ends before the
  first byte that cannot continue it.
\<close>

definition utf8_piece :: "byte \<Rightarrow> bytes \<Rightarrow> bool \<times> nat" where
  "utf8_piece a r =
    (let ok = (\<lambda>i P. i < length r \<and> P (r ! i));
         second = (if of_char a = (0xE0::nat) then byte_in 0xA0 0xBF
                   else if of_char a = (0xED::nat) then byte_in 0x80 0x9F
                   else if of_char a = (0xF0::nat) then byte_in 0x90 0xBF
                   else if of_char a = (0xF4::nat) then byte_in 0x80 0x8F
                   else cont_byte)
     in if byte_in 0 0x7F a then (True, 1)
        else if byte_in 0xC2 0xDF a then (if ok 0 cont_byte then (True, 2) else (False, 1))
        else if byte_in 0xE0 0xEF a then
          (if \<not> ok 0 second then (False, 1)
           else if \<not> ok 1 cont_byte then (False, 2) else (True, 3))
        else if byte_in 0xF0 0xF4 a then
          (if \<not> ok 0 second then (False, 1)
           else if \<not> ok 1 cont_byte then (False, 2)
           else if \<not> ok 2 cont_byte then (False, 3) else (True, 4))
        else (False, 1))"

text \<open>\<open>String::from_utf8_lossy\<close>: each malformed piece becomes U+FFFD.\<close>

fun from_utf8_lossy :: "bytes \<Rightarrow> rstring" where
  "from_utf8_lossy [] = []"
| "from_utf8_lossy (a # r) =
    (case utf8_piece a r of
       (valid, n) \<Rightarrow>
         (if valid then a # take (n - 1) r else [CHR 0xEF, CHR 0xBF, CHR 0xBD]) @
         from_utf8_lossy (drop (n - 1) r))"

declare from_utf8_lossy.simps(2) [simp del]

text \<open>\<open>str::contains\<close>, and the number of disjoint \<open>matches\<close> of a non-empty text.\<close>

fun str_contains :: "rstring \<Rightarrow> rstring \<Rightarrow> bool" where
  "str_contains s [] \<longleftrightarrow> s = []"
| "str_contains s (c # t) \<longleftrightarrow> take (length s) (c # t) = s \<or> str_contains s t"

fun str_matches :: "rstring \<Rightarrow> rstring \<Rightarrow> nat" where
  "str_matches s [] = 0"
| "str_matches s (c # t) =
    (if take (length s) (c # t) = s then Suc (str_matches s (drop (length s - 1) t))
     else str_matches s t)"

definition starts_with :: "rstring \<Rightarrow> rstring \<Rightarrow> bool" where
  "starts_with s t \<longleftrightarrow> take (length s) t = s"

lemma from_utf8_lossy_ascii [simp]:
  "byte_in 0 0x7F a \<Longrightarrow> from_utf8_lossy (a # r) = a # from_utf8_lossy r"
  by (simp add: from_utf8_lossy.simps(2) utf8_piece_def Let_def)

lemma utf8_piece_valid:
  "utf8_valid (a # r) \<Longrightarrow> \<exists>n. utf8_piece a r = (True, Suc n) \<and> utf8_valid (drop n r)"
  by (auto simp: utf8_valid.simps(2) utf8_piece_def byte_in_def split: if_splits list.splits)

lemma from_utf8_lossy_valid: "utf8_valid s \<Longrightarrow> from_utf8_lossy s = s"
proof (induction s rule: from_utf8_lossy.induct)
  case (2 a r)
  obtain n where n: "utf8_piece a r = (True, Suc n)" "utf8_valid (drop n r)"
    using utf8_piece_valid [OF 2(2)] by blast
  from 2(1) [OF n(1) [symmetric]] n show ?case by (simp add: from_utf8_lossy.simps(2))
qed simp

lemma utf8_piece_sound:
  "utf8_piece a r = (True, n) \<Longrightarrow> utf8_valid t \<Longrightarrow> utf8_valid (a # take (n - 1) r @ t)"
  by (cases r; cases "tl r"; cases "tl (tl r)")
    (auto simp: utf8_valid.simps(2) utf8_piece_def Let_def nth_Cons' split: if_splits,
      simp_all add: byte_in_def)

lemma utf8_valid_replacement [simp]:
  "utf8_valid (CHR 0xEF # CHR 0xBF # CHR 0xBD # t) = utf8_valid t"
  by (simp add: utf8_valid.simps(2) byte_in_def)

text \<open>Lossy decoding always yields a string, and changes nothing that was one.\<close>

lemma utf8_valid_from_utf8_lossy [simp]: "utf8_valid (from_utf8_lossy s)"
proof (induction s rule: from_utf8_lossy.induct)
  case (2 a r)
  obtain valid n where p: "utf8_piece a r = (valid, n)" by (cases "utf8_piece a r")
  from 2 [OF p [symmetric]] p utf8_piece_sound [of a r n] show ?case
    by (cases valid) (simp_all add: from_utf8_lossy.simps(2))
qed simp

lemma str_contains_iff: "str_contains s t \<longleftrightarrow> (\<exists>a b. t = a @ s @ b)"
proof (induction t)
  case (Cons c t)
  have "take (length s) (c # t) = s \<longleftrightarrow> (\<exists>b. c # t = s @ b)"
    by (metis append_eq_conv_conj)
  moreover have "(\<exists>a b. c # t = a @ s @ b) \<longleftrightarrow> (\<exists>b. c # t = s @ b) \<or> (\<exists>a b. t = a @ s @ b)"
    by (metis append_Cons append_Nil list.exhaust_sel list.inject)
  ultimately show ?case using Cons.IH by simp
qed simp

end
