(* ===== verification/Frame_Tests.thy ===== *)
theory Frame_Tests
  imports Client_Roundtrip Rust_Text
begin

text \<open>
  The unit tests of \<open>src/frame.rs\<close>, each as a boolean over a parser library \<open>W\<close>, a
  buffer library \<open>B\<close> and the buffer \<open>new\<close> that \<open>BytesMut::new()\<close> returns: it is true when
  the test passes, a panic (\<open>unwrap\<close>, \<open>expect\<close>, a failed assertion) makes it false. The
  printing of the tests is left out, except that it panics on text that is not UTF-8.
  Every test passes, whatever lawful libraries it runs on.
\<close>

section \<open>What the tests are written with\<close>

definition parsed :: "frame pres \<Rightarrow> (frame \<Rightarrow> bool) \<Rightarrow> bool" where
  "parsed r k = (case r of POk f rest \<Rightarrow> k f | PIncomplete \<Rightarrow> False | PBacktrack \<Rightarrow> False | PCut \<Rightarrow> False)"

definition unwrapped :: "'a result \<Rightarrow> ('a \<Rightarrow> bool) \<Rightarrow> bool" where
  "unwrapped r k = (case r of Inl e \<Rightarrow> False | Inr x \<Rightarrow> k x)"

definition is_err :: "'a result \<Rightarrow> bool" where
  "is_err r = (case r of Inl e \<Rightarrow> True | Inr x \<Rightarrow> False)"

text \<open>\<open>msg.to_frame().serialize(&mut buffer)\<close>, and the buffer read back.\<close>

definition serialized :: "'b bytes_mut \<Rightarrow> 'b \<Rightarrow> to_server message \<Rightarrow> bytes" where
  "serialized B new msg = bm_bytes B (serialize B (message_to_frame msg) new)"

definition parse_and_serialize_to_server :: "'b bytes_mut \<Rightarrow> 'b \<Rightarrow> bytes \<Rightarrow> frame \<Rightarrow> header list \<Rightarrow>
    bytes option \<Rightarrow> bool" where
  "parse_and_serialize_to_server B new data frame headers_expect body_expect \<longleftrightarrow>
    (let fh = map (\<lambda>(k, v). (k, v)) (fr_headers frame)
     in list_all (\<lambda>f. utf8_valid (fst f) \<and> utf8_valid (snd f)) fh \<and>
        list_all (\<lambda>f. utf8_valid (fst f) \<and> utf8_valid (snd f)) headers_expect \<and>
        utf8_valid (case fr_body frame of None \<Rightarrow> [] | Some b \<Rightarrow> b) \<and>
        utf8_valid (case body_expect of None \<Rightarrow> [] | Some b \<Rightarrow> b) \<and>
        fh = headers_expect \<and>
        fr_body frame = body_expect \<and>
        unwrapped (to_client_msg frame) (\<lambda>stomp.
          utf8_valid (serialized B new stomp) \<and> utf8_valid data \<and>
          serialized B new stomp = data))"

section \<open>Parsing and serializing client frames\<close>

definition parse_and_serialize_client_connect_with_heartbeat ::
    "winnow \<Rightarrow> 'b bytes_mut \<Rightarrow> 'b \<Rightarrow> bool" where
  "parse_and_serialize_client_connect_with_heartbeat W B new =
    (let data = ''CONNECT\<newline>accept-version:1.2\<newline>host:datafeeds.here.co.uk\<newline>login:user\<newline>heart-beat:6,7\<newline>passcode:password\<newline>\<newline>'' @ [NUL];
         headers_expect =
           [(''accept-version'', ''1.2''), (''host'', ''datafeeds.here.co.uk''),
            (''login'', ''user''), (''heart-beat'', ''6,7''), (''passcode'', ''password'')]
     in parsed (parse_frame W data) (\<lambda>frame.
          fr_command frame = ''CONNECT'' \<and>
          parse_and_serialize_to_server B new data frame headers_expect None))"

definition parse_and_serialize_client_connect_without_heartbeat ::
    "winnow \<Rightarrow> 'b bytes_mut \<Rightarrow> 'b \<Rightarrow> bool" where
  "parse_and_serialize_client_connect_without_heartbeat W B new =
    (let data = ''CONNECT\<newline>accept-version:1.2\<newline>host:datafeeds.here.co.uk\<newline>login:user\<newline>passcode:password\<newline>\<newline>'' @ [NUL];
         headers_expect =
           [(''accept-version'', ''1.2''), (''host'', ''datafeeds.here.co.uk''),
            (''login'', ''user''), (''passcode'', ''password'')]
     in parsed (parse_frame W data) (\<lambda>frame.
          fr_command frame = ''CONNECT'' \<and>
          parse_and_serialize_to_server B new data frame headers_expect None))"

definition parse_and_serialize_client_disconnect :: "winnow \<Rightarrow> 'b bytes_mut \<Rightarrow> 'b \<Rightarrow> bool" where
  "parse_and_serialize_client_disconnect W B new =
    (let data = ''DISCONNECT\<newline>receipt:77\<newline>\<newline>'' @ [NUL];
         headers_expect = [(''receipt'', ''77'')]
     in parsed (parse_frame W data) (\<lambda>frame.
          fr_command frame = ''DISCONNECT'' \<and>
          parse_and_serialize_to_server B new data frame headers_expect None))"

definition parse_and_serialize_client_send_message_minimum ::
    "winnow \<Rightarrow> 'b bytes_mut \<Rightarrow> 'b \<Rightarrow> bool" where
  "parse_and_serialize_client_send_message_minimum W B new =
    (let body = ''this body contains no nulls \<newline> and \<newline> newlines OK?'';
         data = ''SEND\<newline>destination:/queue/a\<newline>\<newline>'' @ body @ [NUL];
         headers_expect = [(''destination'', ''/queue/a'')]
     in parsed (parse_frame W data) (\<lambda>frame.
          fr_command frame = ''SEND'' \<and>
          parse_and_serialize_to_server B new data frame headers_expect (Some body)))"

definition parse_and_serialize_client_send_message_recommended ::
    "winnow \<Rightarrow> 'b bytes_mut \<Rightarrow> 'b \<Rightarrow> bool" where
  "parse_and_serialize_client_send_message_recommended W B new =
    (let body = ''this body contains '' @ [NUL] @ '' nulls \<newline> and '' @ [CR, LF] @ '' newlines '' @ [NUL] @ '' OK?'';
         rest = ''content-length:'' @ decimal (length body) @ [LF, LF] @ body @ [NUL];
         data = ''SEND\<newline>destination:/queue/a\<newline>content-type:text/html;charset=utf-8\<newline>'' @ rest;
         headers_expect =
           [(''destination'', ''/queue/a''), (''content-type'', ''text/html;charset=utf-8''),
            (''content-length'', ''50'')]
     in parsed (parse_frame W data) (\<lambda>frame.
          fr_command frame = ''SEND'' \<and>
          parse_and_serialize_to_server B new data frame headers_expect (Some body)))"

definition parse_and_serialize_client_send_message_in_transaction ::
    "winnow \<Rightarrow> 'b bytes_mut \<Rightarrow> 'b \<Rightarrow> bool" where
  "parse_and_serialize_client_send_message_in_transaction W B new =
    (let body = ''sent inside a transaction'';
         data = ''SEND\<newline>destination:/queue/a\<newline>transaction:tx-1\<newline>\<newline>'' @ body @ [NUL];
         headers_expect = [(''destination'', ''/queue/a''), (''transaction'', ''tx-1'')]
     in parsed (parse_frame W data) (\<lambda>frame.
          fr_command frame = ''SEND'' \<and>
          parse_and_serialize_to_server B new data frame headers_expect (Some body)))"

section \<open>Escaping\<close>

definition parse_message_with_escaped_characters :: "winnow \<Rightarrow> bool" where
  "parse_message_with_escaped_characters W =
    (let data = ''MESSAGE\<newline>destination:/queue/test\<newline>message-id:ID'' @ [BACKSLASH] @ ''cnotificationator'' @
           [BACKSLASH] @ ''n'' @ [BACKSLASH] @ ''rwith'' @ [BACKSLASH, BACKSLASH] @ ''backslash-1'' @
           [BACKSLASH] @ ''c1\<newline>subscription:sub-123\<newline>\<newline>test message body'' @ [NUL]
     in parsed (parse_frame W data) (\<lambda>frame.
        unwrapped (to_server_msg frame) (\<lambda>message.
          (case content message of
             Msg destination message_id subscription ack headers body \<Rightarrow>
               message_id = ''ID:notificationator'' @ [LF, CR] @ ''with'' @ [BACKSLASH] @ ''backslash-1:1''
           | Connected v s sv hb \<Rightarrow> False | Receipt i \<Rightarrow> False | Error m b \<Rightarrow> False))))"

definition serialize_message_with_special_characters :: "'b bytes_mut \<Rightarrow> 'b \<Rightarrow> bool" where
  "serialize_message_with_special_characters B new =
    (let message_id = ''ID:notificationator'' @ [LF, CR] @ ''with'' @ [BACKSLASH] @ ''backslash-1:1'';
         ack_message = \<lparr>content = Ack message_id None, extra_headers = []\<rparr>;
         serialized = from_utf8_lossy (serialized B new ack_message)
     in str_contains
          (''ID'' @ [BACKSLASH] @ ''cnotificationator'' @ [BACKSLASH] @ ''n'' @ [BACKSLASH] @ ''rwith'' @
           [BACKSLASH, BACKSLASH] @ ''backslash-1'' @ [BACKSLASH] @ ''c1'')
          serialized)"

definition connect_headers_are_not_escaped :: "'b bytes_mut \<Rightarrow> 'b \<Rightarrow> bool" where
  "connect_headers_are_not_escaped B new =
    (let msg = message_from
           (Connect ''1.2'' ''stomp.example.com'' (Some (''DOMAIN'' @ [BACKSLASH] @ ''user''))
              (Some (''pa:ss'' @ [BACKSLASH] @ ''word'')) None);
         serialized = from_utf8_lossy (serialized B new msg)
     in str_contains (''login:DOMAIN'' @ [BACKSLASH] @ ''user\<newline>'') serialized \<and>
        str_contains (''passcode:pa:ss'' @ [BACKSLASH] @ ''word\<newline>'') serialized)"

definition connected_headers_are_not_unescaped :: "winnow \<Rightarrow> bool" where
  "connected_headers_are_not_unescaped W =
    (let data = ''CONNECTED\<newline>version:1.2\<newline>session:ID'' @ [BACKSLASH] @ ''c1\<newline>server:ActiveMQ'' @ [BACKSLASH] @
           ''n5\<newline>\<newline>'' @ [NUL]
     in parsed (parse_frame W data) (\<lambda>frame.
        unwrapped (to_server_msg frame) (\<lambda>message.
          (case content message of
             Connected version session server heartbeat \<Rightarrow>
               session = Some (''ID'' @ [BACKSLASH] @ ''c1'') \<and>
               server = Some (''ActiveMQ'' @ [BACKSLASH] @ ''n5'')
           | Msg d i s a hs b \<Rightarrow> False | Receipt i \<Rightarrow> False | Error m b \<Rightarrow> False))))"

section \<open>The content-length of a SEND\<close>

definition send_with_null_octets_in_the_body_sets_content_length ::
    "winnow \<Rightarrow> 'b bytes_mut \<Rightarrow> 'b \<Rightarrow> bool" where
  "send_with_null_octets_in_the_body_sets_content_length W B new =
    (let body = ''binary '' @ [NUL] @ '' payload '' @ [NUL] @ '' here'';
         msg = message_from (Send ''/queue/a'' None None (Some body));
         buffer = serialized B new msg;
         serialized = from_utf8_lossy buffer
     in str_contains (''content-length:'' @ decimal (length body)) serialized \<and>
        parsed (parse_frame W buffer) (\<lambda>parsed. fr_body parsed = Some body))"

definition send_without_null_octets_leaves_content_length_off :: "'b bytes_mut \<Rightarrow> 'b \<Rightarrow> bool" where
  "send_without_null_octets_leaves_content_length_off B new =
    (let msg = message_from (Send ''/queue/a'' None None (Some ''an ordinary text body''));
         serialized = from_utf8_lossy (serialized B new msg)
     in \<not> str_contains ''content-length'' serialized)"

definition send_keeps_a_caller_supplied_content_length :: "'b bytes_mut \<Rightarrow> 'b \<Rightarrow> bool" where
  "send_keeps_a_caller_supplied_content_length B new =
    (let body = ''a'' @ [NUL] @ ''b'';
         msg = message_from
           (Send ''/queue/a'' None (Some [(''content-length'', decimal (length body))]) (Some body));
         serialized = from_utf8_lossy (serialized B new msg)
     in str_matches ''content-length:'' serialized = 1)"

section \<open>Frames of the server\<close>

definition a_header_that_is_not_utf8_is_an_error :: "winnow \<Rightarrow> bool" where
  "a_header_that_is_not_utf8_is_an_error W =
    (let from_server = ''MESSAGE\<newline>destination:/queue/a\<newline>message-id:1\<newline>subscription:sub-1\<newline>x-bin:'' @
           [CHR 0xFF, CHR 0xFE, LF, LF, NUL];
         to_server = ''SEND\<newline>destination:/queue/a\<newline>x-bin:'' @ [CHR 0xFF, CHR 0xFE, LF, LF, NUL]
     in parsed (parse_frame W from_server) (\<lambda>frame. is_err (to_server_msg frame)) \<and>
        parsed (parse_frame W to_server) (\<lambda>frame. is_err (to_client_msg frame)))"

definition a_message_carries_its_ack_value :: "winnow \<Rightarrow> bool" where
  "a_message_carries_its_ack_value W =
    (let data = ''MESSAGE\<newline>destination:/queue/a\<newline>message-id:mid-1\<newline>subscription:sub-1\<newline>ack:ack-1\<newline>\<newline>body'' @ [NUL]
     in parsed (parse_frame W data) (\<lambda>frame.
        unwrapped (to_server_msg frame) (\<lambda>message.
          (case content message of
             Msg destination message_id subscription ack headers body \<Rightarrow>
               ack = Some ''ack-1'' \<and> ack \<noteq> Some message_id
           | Connected v s sv hb \<Rightarrow> False | Receipt i \<Rightarrow> False | Error m b \<Rightarrow> False))))"

definition a_message_in_auto_mode_has_no_ack_value :: "winnow \<Rightarrow> bool" where
  "a_message_in_auto_mode_has_no_ack_value W =
    (let data = ''MESSAGE\<newline>destination:/queue/a\<newline>message-id:mid-1\<newline>subscription:sub-1\<newline>\<newline>body'' @ [NUL]
     in parsed (parse_frame W data) (\<lambda>frame.
        unwrapped (to_server_msg frame) (\<lambda>message.
          (case content message of
             Msg destination message_id subscription ack headers body \<Rightarrow> ack = None
           | Connected v s sv hb \<Rightarrow> False | Receipt i \<Rightarrow> False | Error m b \<Rightarrow> False))))"

definition parse_heartbeat_header :: bool where
  "parse_heartbeat_header \<longleftrightarrow>
    parse_heartbeat ''0,0'' = Inr (0, 0) \<and>
    parse_heartbeat ''500,10000'' = Inr (500, 10000) \<and>
    list_all (\<lambda>bad. is_err (parse_heartbeat bad))
      ['''', ''1'', ''abc'', ''1,'', '',1'', ''1,2,3'', ''-1,1'']"

definition frame_tests :: "winnow \<Rightarrow> 'b bytes_mut \<Rightarrow> 'b \<Rightarrow> bool list" where
  "frame_tests W B new =
    [parse_and_serialize_client_connect_with_heartbeat W B new,
     parse_and_serialize_client_connect_without_heartbeat W B new,
     parse_and_serialize_client_disconnect W B new,
     parse_and_serialize_client_send_message_minimum W B new,
     parse_and_serialize_client_send_message_recommended W B new,
     parse_message_with_escaped_characters W,
     serialize_message_with_special_characters B new,
     parse_and_serialize_client_send_message_in_transaction W B new,
     send_with_null_octets_in_the_body_sets_content_length W B new,
     send_without_null_octets_leaves_content_length_off B new,
     send_keeps_a_caller_supplied_content_length B new,
     connect_headers_are_not_escaped B new,
     connected_headers_are_not_unescaped W,
     a_header_that_is_not_utf8_is_an_error W,
     a_message_carries_its_ack_value W,
     a_message_in_auto_mode_has_no_ack_value W,
     parse_heartbeat_header]"


section \<open>They pass\<close>

text \<open>
  A test does not depend on the libraries: it can be run on the direct grammar and on
  byte strings.
\<close>

lemma digit_bytes:
  "digit_byte 0 = CHR ''0''" "digit_byte 1 = CHR ''1''" "digit_byte 2 = CHR ''2''"
  "digit_byte 3 = CHR ''3''" "digit_byte 4 = CHR ''4''" "digit_byte 5 = CHR ''5''"
  "digit_byte 6 = CHR ''6''" "digit_byte 7 = CHR ''7''" "digit_byte 8 = CHR ''8''"
  "digit_byte 9 = CHR ''9''" "digit_byte (Suc (Suc 0)) = CHR ''2''"
  "digit_byte (Suc (Suc (Suc 0))) = CHR ''3''"
  by code_simp+

lemma decimal_digit: "n < 10 \<Longrightarrow> decimal n = [digit_byte n]"
  and decimal_more: "\<not> n < 10 \<Longrightarrow> decimal n = decimal (n div 10) @ [digit_byte (n mod 10)]"
  by (subst decimal.simps, simp)+

lemma test_results:
  "parsed (POk f rest) k' = k' f" "unwrapped (Inr x) k = k x" "\<not> unwrapped (Inl e) k"
  "is_err (Inl e)" "\<not> is_err (Inr x)"
  by (simp_all add: parsed_def unwrapped_def is_err_def)

lemmas conversions =
  to_client_msg_def to_client_content_def to_server_msg_def to_server_content_def
  optional_headers_def all_headers_def header_to_string_def expect_header_def expect_raw_header_def
  parse_ack_mode_def parse_heartbeat_def splitn2_def parse_u32_def digit_value_def byte_in_def
  utf8_valid_ascii ascii_def from_utf8_def

lemmas wires =
  message_to_frame_def add_extra_headers_def send_headers_def wire_def wire_header_def
  headers_are_escaped_def List.map_filter_def escape_byte_def heartbeat_value_def display_u32_def
  decimal_digit decimal_more digit_bytes [unfolded One_nat_def]

text \<open>What the parser makes of the data of the tests.\<close>

lemma parse_connect_with_heartbeat:
  "frame_parser (''CONNECT\<newline>accept-version:1.2\<newline>host:datafeeds.here.co.uk\<newline>login:user\<newline>heart-beat:6,7\<newline>passcode:password\<newline>\<newline>'' @ [NUL]) =
   POk \<lparr>fr_command = ''CONNECT'', fr_headers = [(''accept-version'', ''1.2''),
      (''host'', ''datafeeds.here.co.uk''),
      (''login'', ''user''),
      (''heart-beat'', ''6,7''),
      (''passcode'', ''password'')],
     fr_body = None\<rparr> []"
  by code_simp

lemma parse_connect_without_heartbeat:
  "frame_parser (''CONNECT\<newline>accept-version:1.2\<newline>host:datafeeds.here.co.uk\<newline>login:user\<newline>passcode:password\<newline>\<newline>'' @ [NUL]) =
   POk \<lparr>fr_command = ''CONNECT'', fr_headers = [(''accept-version'', ''1.2''),
      (''host'', ''datafeeds.here.co.uk''),
      (''login'', ''user''),
      (''passcode'', ''password'')],
     fr_body = None\<rparr> []"
  by code_simp

lemma parse_disconnect:
  "frame_parser (''DISCONNECT\<newline>receipt:77\<newline>\<newline>'' @ [NUL]) =
   POk \<lparr>fr_command = ''DISCONNECT'', fr_headers = [(''receipt'', ''77'')],
     fr_body = None\<rparr> []"
  by code_simp

lemma parse_send_minimum:
  "frame_parser (''SEND\<newline>destination:/queue/a\<newline>\<newline>'' @ ''this body contains no nulls \<newline> and \<newline> newlines OK?'' @ [NUL]) =
   POk \<lparr>fr_command = ''SEND'', fr_headers = [(''destination'', ''/queue/a'')],
     fr_body = Some (''this body contains no nulls \<newline> and \<newline> newlines OK?'')\<rparr> []"
  by code_simp

lemma parse_send_recommended:
  "frame_parser (''SEND\<newline>destination:/queue/a\<newline>content-type:text/html;charset=utf-8\<newline>'' @ ''content-length:'' @ decimal (length (''this body contains '' @ [NUL] @ '' nulls \<newline> and '' @ [CR, LF] @ '' newlines '' @ [NUL] @ '' OK?'')) @ [LF, LF] @ (''this body contains '' @ [NUL] @ '' nulls \<newline> and '' @ [CR, LF] @ '' newlines '' @ [NUL] @ '' OK?'') @ [NUL]) =
   POk \<lparr>fr_command = ''SEND'', fr_headers = [(''destination'', ''/queue/a''),
      (''content-type'', ''text/html;charset=utf-8''),
      (''content-length'', ''50'')],
     fr_body = Some (''this body contains '' @ [NUL] @ '' nulls \<newline> and '' @ [CR, LF] @ '' newlines '' @ [NUL] @ '' OK?'')\<rparr> []"
  (is "frame_parser ?data = POk ?f []")
proof -
  have w: "?data = wire ?f" by (simp add: wires)
  have "frame_ok ?f"
    by (simp add: frame_ok_def body_ok_def wire_headers_def escape_header_def name_ok_def value_ok_def
        is_alpha_def conversions wires)
  from frame_parser_wire [OF this, of "[]"] show ?thesis unfolding w
    by (simp add: wire_frame_def wire_headers_def escape_header_def wires)
qed

lemma parse_send_in_transaction:
  "frame_parser (''SEND\<newline>destination:/queue/a\<newline>transaction:tx-1\<newline>\<newline>'' @ ''sent inside a transaction'' @ [NUL]) =
   POk \<lparr>fr_command = ''SEND'', fr_headers = [(''destination'', ''/queue/a''),
      (''transaction'', ''tx-1'')],
     fr_body = Some (''sent inside a transaction'')\<rparr> []"
  by code_simp

lemma parse_message_escaped:
  "frame_parser (''MESSAGE\<newline>destination:/queue/test\<newline>message-id:ID'' @ [BACKSLASH] @ ''cnotificationator'' @ [BACKSLASH] @ ''n'' @ [BACKSLASH] @ ''rwith'' @ [BACKSLASH, BACKSLASH] @ ''backslash-1'' @ [BACKSLASH] @ ''c1\<newline>subscription:sub-123\<newline>\<newline>test message body'' @ [NUL]) =
   POk \<lparr>fr_command = ''MESSAGE'', fr_headers = [(''destination'', ''/queue/test''),
      (''message-id'', ''ID'' @ [BACKSLASH] @ ''cnotificationator'' @ [BACKSLASH] @ ''n'' @ [BACKSLASH] @ ''rwith'' @ [BACKSLASH, BACKSLASH] @ ''backslash-1'' @ [BACKSLASH] @ ''c1''),
      (''subscription'', ''sub-123'')],
     fr_body = Some (''test message body'')\<rparr> []"
  by code_simp

lemma parse_connected_raw:
  "frame_parser (''CONNECTED\<newline>version:1.2\<newline>session:ID'' @ [BACKSLASH] @ ''c1\<newline>server:ActiveMQ'' @ [BACKSLASH] @ ''n5\<newline>\<newline>'' @ [NUL]) =
   POk \<lparr>fr_command = ''CONNECTED'', fr_headers = [(''version'', ''1.2''),
      (''session'', ''ID'' @ [BACKSLASH] @ ''c1''),
      (''server'', ''ActiveMQ'' @ [BACKSLASH] @ ''n5'')],
     fr_body = None\<rparr> []"
  by code_simp

lemma parse_message_not_utf8:
  "frame_parser (''MESSAGE\<newline>destination:/queue/a\<newline>message-id:1\<newline>subscription:sub-1\<newline>x-bin:'' @ [CHR 0xFF, CHR 0xFE, LF, LF, NUL]) =
   POk \<lparr>fr_command = ''MESSAGE'', fr_headers = [(''destination'', ''/queue/a''),
      (''message-id'', ''1''),
      (''subscription'', ''sub-1''),
      (''x-bin'', [CHR 0xFF, CHR 0xFE])],
     fr_body = None\<rparr> []"
  by code_simp

lemma parse_send_not_utf8:
  "frame_parser (''SEND\<newline>destination:/queue/a\<newline>x-bin:'' @ [CHR 0xFF, CHR 0xFE, LF, LF, NUL]) =
   POk \<lparr>fr_command = ''SEND'', fr_headers = [(''destination'', ''/queue/a''),
      (''x-bin'', [CHR 0xFF, CHR 0xFE])],
     fr_body = None\<rparr> []"
  by code_simp

lemma parse_message_ack:
  "frame_parser (''MESSAGE\<newline>destination:/queue/a\<newline>message-id:mid-1\<newline>subscription:sub-1\<newline>ack:ack-1\<newline>\<newline>body'' @ [NUL]) =
   POk \<lparr>fr_command = ''MESSAGE'', fr_headers = [(''destination'', ''/queue/a''),
      (''message-id'', ''mid-1''),
      (''subscription'', ''sub-1''),
      (''ack'', ''ack-1'')],
     fr_body = Some (''body'')\<rparr> []"
  by code_simp

lemma parse_message_auto:
  "frame_parser (''MESSAGE\<newline>destination:/queue/a\<newline>message-id:mid-1\<newline>subscription:sub-1\<newline>\<newline>body'' @ [NUL]) =
   POk \<lparr>fr_command = ''MESSAGE'', fr_headers = [(''destination'', ''/queue/a''),
      (''message-id'', ''mid-1''),
      (''subscription'', ''sub-1'')],
     fr_body = Some (''body'')\<rparr> []"
  by code_simp

lemma send_with_null_parses:
  "parsed (frame_parser (wire (message_to_frame (message_from (Send ''/queue/a'' None None
     (Some (''binary '' @ [NUL] @ '' payload '' @ [NUL] @ '' here''))))))) k =
   k (wire_frame (to_server_to_frame (Send ''/queue/a'' None None
     (Some (''binary '' @ [NUL] @ '' payload '' @ [NUL] @ '' here'')))))"
  (is "parsed (frame_parser (wire (message_to_frame (message_from ?c)))) k = _")
proof -
  have "frame_ok (to_server_to_frame ?c)"
    by (simp add: frame_ok_def body_ok_def wire_headers_def escape_header_def name_ok_def
        value_ok_def is_alpha_def conversions wires)
  from frame_parser_wire [OF this, of "[]"] show ?thesis
    by (simp add: test_results message_to_frame_def add_extra_headers_def)
qed

lemmas test_eval = test_results conversions wires from_utf8_lossy_valid

locale test_libs = winnow_lib W + bytes_mut_lib B for W :: winnow and B :: "'b bytes_mut" +
  fixes new :: 'b
  assumes new_empty: "bm_bytes B new = []"
begin

lemma serialized_wire: "serialized B new msg = wire (message_to_frame msg)"
  by (simp add: serialized_def serialize_bytes new_empty)

lemmas test_unfold = Let_def parse_and_serialize_to_server_def serialized_wire parse_frame_ref

lemma parse_and_serialize_client_connect_with_heartbeat_passes: "parse_and_serialize_client_connect_with_heartbeat W B new"
  unfolding parse_and_serialize_client_connect_with_heartbeat_def test_unfold parse_connect_with_heartbeat
  by (simp add: test_eval)

lemma parse_and_serialize_client_connect_without_heartbeat_passes: "parse_and_serialize_client_connect_without_heartbeat W B new"
  unfolding parse_and_serialize_client_connect_without_heartbeat_def test_unfold parse_connect_with_heartbeat parse_connect_without_heartbeat
  by (simp add: test_eval)

lemma parse_and_serialize_client_disconnect_passes: "parse_and_serialize_client_disconnect W B new"
  unfolding parse_and_serialize_client_disconnect_def test_unfold parse_disconnect
  by (simp add: test_eval)

lemma parse_and_serialize_client_send_message_minimum_passes: "parse_and_serialize_client_send_message_minimum W B new"
  unfolding parse_and_serialize_client_send_message_minimum_def test_unfold parse_send_minimum
  by (simp add: test_eval)

lemma parse_and_serialize_client_send_message_recommended_passes: "parse_and_serialize_client_send_message_recommended W B new"
  unfolding parse_and_serialize_client_send_message_recommended_def test_unfold parse_send_recommended
  by (simp add: test_eval)

lemma parse_and_serialize_client_send_message_in_transaction_passes: "parse_and_serialize_client_send_message_in_transaction W B new"
  unfolding parse_and_serialize_client_send_message_in_transaction_def test_unfold parse_send_in_transaction
  by (simp add: test_eval)

lemma parse_message_with_escaped_characters_passes: "parse_message_with_escaped_characters W"
  unfolding parse_message_with_escaped_characters_def test_unfold parse_message_escaped
  by (simp add: test_eval)

lemma serialize_message_with_special_characters_passes: "serialize_message_with_special_characters B new"
  unfolding serialize_message_with_special_characters_def test_unfold
  by (simp add: test_eval)

lemma connect_headers_are_not_escaped_passes: "connect_headers_are_not_escaped B new"
  unfolding connect_headers_are_not_escaped_def test_unfold
  by (simp add: test_eval)

lemma connected_headers_are_not_unescaped_passes: "connected_headers_are_not_unescaped W"
  unfolding connected_headers_are_not_unescaped_def test_unfold parse_connected_raw
  by (simp add: test_eval)

lemma send_with_null_octets_in_the_body_sets_content_length_passes: "send_with_null_octets_in_the_body_sets_content_length W B new"
  unfolding send_with_null_octets_in_the_body_sets_content_length_def test_unfold send_with_null_parses wire_frame_simps
  by (simp add: test_eval)

lemma send_without_null_octets_leaves_content_length_off_passes: "send_without_null_octets_leaves_content_length_off B new"
  unfolding send_without_null_octets_leaves_content_length_off_def test_unfold
  by (simp add: test_eval)

lemma send_keeps_a_caller_supplied_content_length_passes: "send_keeps_a_caller_supplied_content_length B new"
  unfolding send_keeps_a_caller_supplied_content_length_def test_unfold
  by (simp add: test_eval)

lemma a_header_that_is_not_utf8_is_an_error_passes: "a_header_that_is_not_utf8_is_an_error W"
  unfolding a_header_that_is_not_utf8_is_an_error_def test_unfold parse_message_not_utf8 parse_send_not_utf8
  by (simp add: test_eval utf8_valid.simps(2))

lemma a_message_carries_its_ack_value_passes: "a_message_carries_its_ack_value W"
  unfolding a_message_carries_its_ack_value_def test_unfold parse_message_ack
  by (simp add: test_eval)

lemma a_message_in_auto_mode_has_no_ack_value_passes: "a_message_in_auto_mode_has_no_ack_value W"
  unfolding a_message_in_auto_mode_has_no_ack_value_def test_unfold parse_message_auto
  by (simp add: test_eval)

lemma parse_heartbeat_header_passes: "parse_heartbeat_header"
  unfolding parse_heartbeat_header_def Let_def
  by (simp add: test_eval)

lemmas passes =
  parse_and_serialize_client_connect_with_heartbeat_passes
  parse_and_serialize_client_connect_without_heartbeat_passes
  parse_and_serialize_client_disconnect_passes
  parse_and_serialize_client_send_message_minimum_passes
  parse_and_serialize_client_send_message_recommended_passes
  parse_and_serialize_client_send_message_in_transaction_passes
  parse_message_with_escaped_characters_passes
  serialize_message_with_special_characters_passes
  connect_headers_are_not_escaped_passes
  connected_headers_are_not_unescaped_passes
  send_with_null_octets_in_the_body_sets_content_length_passes
  send_without_null_octets_leaves_content_length_off_passes
  send_keeps_a_caller_supplied_content_length_passes
  a_header_that_is_not_utf8_is_an_error_passes
  a_message_carries_its_ack_value_passes
  a_message_in_auto_mode_has_no_ack_value_passes
  parse_heartbeat_header_passes

lemma frame_tests_all: "list_all (\<lambda>passes. passes) (frame_tests W B new)"
  unfolding frame_tests_def list.pred_inject by (intro conjI passes) simp

end

interpretation tests: test_libs winnow_ref vec_bytes_mut "vec_of []"
  by (intro test_libs.intro wref.winnow_lib_axioms vec.bytes_mut_lib_axioms)
    (simp add: test_libs_axioms_def)

text \<open>
  C32: all unit tests of \<open>src/frame.rs\<close> pass on the model, over any parser and buffer
  library that keep their documented promises: the data of each test is parsed,
  converted, serialized and compared as the test does it.
\<close>

theorem frame_unit_tests_pass:
  assumes "winnow_lib W" and "bytes_mut_lib B" and "bm_bytes B new = []"
  shows "list_all (\<lambda>passes. passes) (frame_tests W B new)"
proof -
  have "test_libs W B new"
    using assms by (intro test_libs.intro test_libs_axioms.intro)
  then show ?thesis by (rule test_libs.frame_tests_all)
qed

theorem frame_unit_tests_pass_witness:
  "list_all (\<lambda>passes. passes) (frame_tests winnow_ref vec_bytes_mut (vec_of []))"
  by (rule frame_unit_tests_pass [OF wref.winnow_lib_axioms vec.bytes_mut_lib_axioms]) simp

end
