(* ===== verification/Client_Tests.thy ===== *)
theory Client_Tests
  imports Frame_Tests Builders Disconnect
begin

text \<open>
  The unit tests of \<open>src/client.rs\<close>, in the style of \<open>Frame_Tests\<close>. The tests that open a
  socket run against any network that keeps the promises of \<open>framing_lib\<close> and delivers
  what the server of the test writes; how TCP cuts what the server reads into pieces is
  a parameter.
\<close>

section \<open>Building messages\<close>

definition MESSAGE_FRAME :: bytes where
  "MESSAGE_FRAME = ''MESSAGE\<newline>destination:d\<newline>message-id:1\<newline>subscription:s\<newline>\<newline>'' @ [NUL]"

definition subscription_message :: "'b bytes_mut \<Rightarrow> 'b \<Rightarrow> bool" where
  "subscription_message B new =
    (let headers = [(''activemq.subscriptionName'', ''ClientTest'')];
         subscribe_msg = subscribe (\<lambda>s. s) (\<lambda>s. s)
           (sub_headers headers (sub_id ''custom-subscriber-id'' (sub_destination ''queue.test'' subscriber_builder)));
         expected = (message_from (Subscribe ''queue.test'' ''custom-subscriber-id'' None))
           \<lparr>extra_headers := map (\<lambda>(k, v). (k, v)) headers\<rparr>
     in serialized B new expected = serialized B new subscribe_msg)"

definition connection_message :: "'b bytes_mut \<Rightarrow> 'b \<Rightarrow> bool" where
  "connection_message B new =
    (let headers = [(''client-id'', ''ClientTest'')];
         connect_msg = connector_msg (\<lambda>s. s)
           (set_headers headers (set_passcode ''guest_passcode'' (set_login ''guest_login''
             (set_virtualhost ''virtual.stomp.example.com'' (set_server ''stomp.example.com'' connector_builder)))));
         expected = (message_from (Connect ''1.2'' ''virtual.stomp.example.com'' (Some ''guest_login'')
             (Some ''guest_passcode'') None))
           \<lparr>extra_headers := map (\<lambda>(k, v). (k, v)) headers\<rparr>
     in serialized B new expected = serialized B new connect_msg)"

definition connection_message_defaults :: "'b bytes_mut \<Rightarrow> 'b \<Rightarrow> bool" where
  "connection_message_defaults B new =
    (let connect_msg = connector_msg (\<lambda>s. s)
           (set_virtualhost ''virtual.stomp.example.com'' (set_server ''stomp.example.com'' connector_builder));
         frame = from_utf8_lossy (serialized B new connect_msg)
     in \<not> str_contains ''login:'' frame \<and>
        \<not> str_contains ''passcode:'' frame \<and>
        str_contains ''host:virtual.stomp.example.com'' frame)"

definition later_setter_calls_win :: "'b bytes_mut \<Rightarrow> 'b \<Rightarrow> bool" where
  "later_setter_calls_win B new =
    (let connect_msg = connector_msg (\<lambda>s. s)
           (set_login ''second'' (set_login ''first''
             (set_virtualhost ''second.example.com'' (set_virtualhost ''first.example.com''
               (set_server ''second.example.com'' (set_server ''first.example.com'' connector_builder))))));
         frame = from_utf8_lossy (serialized B new connect_msg)
     in str_contains ''host:second.example.com'' frame \<and> str_contains ''login:second'' frame)"

definition connection_message_with_heartbeat :: "'b bytes_mut \<Rightarrow> 'b \<Rightarrow> bool" where
  "connection_message_with_heartbeat B new =
    (let connect_msg = connector_msg (\<lambda>s. s)
           (set_heartbeat 5000 10000
             (set_virtualhost ''stomp.example.com'' (set_server ''stomp.example.com'' connector_builder)));
         frame = from_utf8_lossy (serialized B new connect_msg)
     in str_contains ''heart-beat:5000,10000'' frame)"

definition subscribe_sets_the_ack_mode :: "'b bytes_mut \<Rightarrow> 'b \<Rightarrow> bool" where
  "subscribe_sets_the_ack_mode B new =
    (let msg = subscribe (\<lambda>s. s) (\<lambda>s. s)
           (sub_ack ClientIndividual (sub_id ''sub-1'' (sub_destination ''queue.test'' subscriber_builder)));
         frame = from_utf8_lossy (serialized B new msg)
     in str_contains ''ack:client-individual'' frame)"

definition subscribe_leaves_the_ack_mode_out_by_default :: "'b bytes_mut \<Rightarrow> 'b \<Rightarrow> bool" where
  "subscribe_leaves_the_ack_mode_out_by_default B new =
    (let msg = subscribe (\<lambda>s. s) (\<lambda>s. s) (sub_id ''sub-1'' (sub_destination ''queue.test'' subscriber_builder));
         frame = from_utf8_lossy (serialized B new msg)
     in \<not> str_contains ''ack:'' frame)"

section \<open>The codec\<close>

text \<open>\<open>codec.decode(&mut buffer)\<close>; a panic makes the test fail.\<close>

definition decoded :: "('b \<times> 'm option result) option \<Rightarrow> ('b \<Rightarrow> 'm option result \<Rightarrow> bool) \<Rightarrow> bool" where
  "decoded r k = (case r of None \<Rightarrow> False | Some (b, item) \<Rightarrow> k b item)"

definition a_frame_growing_past_the_bound_is_refused :: "winnow \<Rightarrow> 'b bytes_mut \<Rightarrow> 'b \<Rightarrow> bool" where
  "a_frame_growing_past_the_bound_is_refused W B new =
    (let codec = with_max_frame_size 64;
         buffer = bm_put_slice B new
           ''MESSAGE\<newline>destination:/queue/a\<newline>message-id:1\<newline>subscription:s\<newline>content-length:999999999\<newline>\<newline>'';
         buffer = bm_put_slice B buffer (replicate 200 (CHR ''x''))
     in decoded (decode W B codec buffer) (\<lambda>b item. is_err item))"

definition an_unfinished_frame_under_the_bound_waits_for_more :: "winnow \<Rightarrow> 'b bytes_mut \<Rightarrow> 'b \<Rightarrow> bool" where
  "an_unfinished_frame_under_the_bound_waits_for_more W B new =
    (let codec = with_max_frame_size 1024;
         buffer = bm_put_slice B new ''MESSAGE\<newline>destination:/queue/a\<newline>message-id:1\<newline>''
     in decoded (decode W B codec buffer) (\<lambda>b item. unwrapped item (\<lambda>m. m = None)))"

definition heartbeat_negotiation :: bool where
  "heartbeat_negotiation \<longleftrightarrow>
    negotiate 0 0 = None \<and> negotiate 1000 0 = None \<and> negotiate 0 1000 = None \<and>
    negotiate 1000 5000 = Some (from_millis 5000) \<and>
    negotiate 5000 1000 = Some (from_millis 5000) \<and>
    negotiate 1000 1000 = Some (from_millis 1000)"

definition encode_heartbeat_test :: "'b bytes_mut \<Rightarrow> 'b \<Rightarrow> bool" where
  "encode_heartbeat_test B new =
    (case encode_heartbeat B new of (r, buffer) \<Rightarrow>
       unwrapped r (\<lambda>_. bm_bytes B buffer = [LF]))"

definition decode_skips_server_heartbeats :: "winnow \<Rightarrow> 'b bytes_mut \<Rightarrow> 'b \<Rightarrow> bool" where
  "decode_skips_server_heartbeats W B new =
    (let buffer = bm_put_slice B new [LF, LF, LF];
         buffer = bm_put_slice B buffer MESSAGE_FRAME
     in decoded (decode W B codec_new buffer) (\<lambda>buffer item.
          unwrapped item (\<lambda>msg.
            (case msg of
               None \<Rightarrow> False
             | Some msg \<Rightarrow>
                 (case content msg of
                    Msg d i s a hs b \<Rightarrow> True
                  | Connected v s sv hb \<Rightarrow> False | Receipt i \<Rightarrow> False | Error m b \<Rightarrow> False) \<and>
                 bm_bytes B buffer = []))))"

definition decode_consumes_lone_heartbeats :: "winnow \<Rightarrow> 'b bytes_mut \<Rightarrow> 'b \<Rightarrow> bool" where
  "decode_consumes_lone_heartbeats W B new =
    list_all (\<lambda>beat.
        let buffer = bm_put_slice B new beat
        in decoded (decode W B codec_new buffer) (\<lambda>buffer item.
             unwrapped item (\<lambda>msg. msg = None \<and> bm_bytes B buffer = [])))
      [[LF], [CR, LF], [LF, LF, LF]]"

definition client_tests :: "winnow \<Rightarrow> 'b bytes_mut \<Rightarrow> 'b \<Rightarrow> bool list" where
  "client_tests W B new =
    [subscription_message B new,
     connection_message B new,
     connection_message_defaults B new,
     later_setter_calls_win B new,
     subscribe_sets_the_ack_mode B new,
     subscribe_leaves_the_ack_mode_out_by_default B new,
     a_frame_growing_past_the_bound_is_refused W B new,
     an_unfinished_frame_under_the_bound_waits_for_more W B new,
     connection_message_with_heartbeat B new,
     heartbeat_negotiation,
     encode_heartbeat_test B new,
     decode_skips_server_heartbeats W B new,
     decode_consumes_lone_heartbeats W B new]"

section \<open>They pass\<close>

lemmas builders =
  subscribe_def sub_headers_def sub_ack_def sub_id_def sub_destination_def subscriber_builder_def
  connector_msg_def set_headers_def set_passcode_def set_login_def set_virtualhost_def set_server_def
  set_heartbeat_def connector_builder_def

text \<open>An announced body of which too little has arrived.\<close>

lemma short_body:
  "frame_core
    (''MESSAGE\<newline>destination:/queue/a\<newline>message-id:1\<newline>subscription:s\<newline>content-length:999999999\<newline>\<newline>'' @
     replicate 200 c) = PIncomplete"
proof -
  let ?hs = "[(''destination'', ''/queue/a''), (''message-id'', ''1''), (''subscription'', ''s''),
    (''content-length'', ''999999999'')]"
  have "frame_core (''MESSAGE'' @ LF # concat (map (wire_header False) ?hs) @ LF # replicate 200 c) =
      pbind (body_parser (map (escape_header False) ?hs)) (\<lambda>body. pbind (ref_literal [NUL]) (\<lambda>_.
        preturn \<lparr>fr_command = ''MESSAGE'', fr_headers = map (escape_header False) ?hs, fr_body = body\<rparr>))
        (replicate 200 c)"
    by (rule frame_core_head) (simp_all add: is_alpha_def name_ok_def value_ok_def is_eol_def)
  also have "\<dots> = PIncomplete"
    by (simp add: body_parser_def ref_take_def pbind_def pmap_def conversions)
  finally show ?thesis by (simp add: wire_header_def)
qed

lemma unfinished_headers: "frame_core ''MESSAGE\<newline>destination:/queue/a\<newline>message-id:1\<newline>'' = PIncomplete"
  by code_simp

lemma MESSAGE_FRAME_parsed:
  "frame_core MESSAGE_FRAME = POk \<lparr>fr_command = ''MESSAGE'',
     fr_headers = [(''destination'', ''d''), (''message-id'', ''1''), (''subscription'', ''s'')],
     fr_body = None\<rparr> []"
  by code_simp

context test_libs
begin

lemma decodedI:
  assumes "\<And>b. bm_bytes B b = fst (frame_decoder to_server_msg (max_frame_size self) (bm_bytes B src)) \<Longrightarrow>
    k b (snd (frame_decoder to_server_msg (max_frame_size self) (bm_bytes B src)))"
  shows "decoded (decode W B self src) k"
  using codec_libs.decode_refines [OF codec_libs.intro [OF winnow_lib_axioms bytes_mut_lib_axioms], of self src]
    assms by (auto simp: decoded_def)

lemma subscription_message_passes: "subscription_message B new"
  by (simp add: subscription_message_def builders Let_def)

lemma connection_message_passes: "connection_message B new"
  by (simp add: connection_message_def builders message_from_def Let_def)

lemma connection_message_defaults_passes: "connection_message_defaults B new"
  unfolding connection_message_defaults_def test_unfold builders
  by (simp add: test_eval)

lemma later_setter_calls_win_passes: "later_setter_calls_win B new"
  unfolding later_setter_calls_win_def test_unfold builders
  by (simp add: test_eval)

lemma connection_message_with_heartbeat_passes: "connection_message_with_heartbeat B new"
  unfolding connection_message_with_heartbeat_def test_unfold builders
  by (simp add: test_eval)

lemma subscribe_sets_the_ack_mode_passes: "subscribe_sets_the_ack_mode B new"
  unfolding subscribe_sets_the_ack_mode_def test_unfold builders
  by (simp add: test_eval)

lemma subscribe_leaves_the_ack_mode_out_by_default_passes:
  "subscribe_leaves_the_ack_mode_out_by_default B new"
  unfolding subscribe_leaves_the_ack_mode_out_by_default_def test_unfold builders
  by (simp add: test_eval)

lemma a_frame_growing_past_the_bound_is_refused_passes:
  "a_frame_growing_past_the_bound_is_refused W B new"
  unfolding a_frame_growing_past_the_bound_is_refused_def Let_def
  by (rule decodedI)
    (use short_body in \<open>simp add: new_empty frame_decoder_def with_max_frame_size_def test_results is_eol_def\<close>)

lemma an_unfinished_frame_under_the_bound_waits_for_more_passes:
  "an_unfinished_frame_under_the_bound_waits_for_more W B new"
  unfolding an_unfinished_frame_under_the_bound_waits_for_more_def Let_def
  by (rule decodedI)
    (use unfinished_headers in \<open>simp add: new_empty frame_decoder_def with_max_frame_size_def test_results is_eol_def\<close>)

lemma encode_heartbeat_test_passes: "encode_heartbeat_test B new"
  by (simp add: encode_heartbeat_test_def encode_heartbeat_def new_empty test_results)

lemma decode_skips_server_heartbeats_passes: "decode_skips_server_heartbeats W B new"
  unfolding decode_skips_server_heartbeats_def Let_def
proof (rule decodedI, goal_cases)
  case (1 b)
  have "dropWhile is_eol ([LF, LF, LF] @ MESSAGE_FRAME) = MESSAGE_FRAME" "MESSAGE_FRAME \<noteq> []"
    by (simp_all add: MESSAGE_FRAME_def is_eol_def)
  then have "frame_decoder to_server_msg (max_frame_size codec_new) ([LF, LF, LF] @ MESSAGE_FRAME) =
      ([], Inr (Some \<lparr>content = Msg ''d'' ''1'' ''s'' None [(''destination'', ''d''), (''message-id'', ''1''),
         (''subscription'', ''s'')] None, extra_headers = []\<rparr>))"
    by (simp add: frame_decoder_def MESSAGE_FRAME_parsed conversions del: dropWhile.simps)
  with 1 show ?case by (simp add: new_empty test_results)
qed

lemma decode_consumes_lone_heartbeats_passes: "decode_consumes_lone_heartbeats W B new"
  unfolding decode_consumes_lone_heartbeats_def Let_def list.pred_inject
  by (intro conjI TrueI decodedI) (simp_all add: new_empty frame_decoder_def test_results)

lemma heartbeat_negotiation_passes: heartbeat_negotiation
  by (simp add: heartbeat_negotiation_def negotiate_def)

lemmas client_passes =
  subscription_message_passes connection_message_passes connection_message_defaults_passes
  later_setter_calls_win_passes subscribe_sets_the_ack_mode_passes
  subscribe_leaves_the_ack_mode_out_by_default_passes a_frame_growing_past_the_bound_is_refused_passes
  an_unfinished_frame_under_the_bound_waits_for_more_passes connection_message_with_heartbeat_passes
  heartbeat_negotiation_passes encode_heartbeat_test_passes decode_skips_server_heartbeats_passes
  decode_consumes_lone_heartbeats_passes

lemma client_tests_all: "list_all (\<lambda>passes. passes) (client_tests W B new)"
  unfolding client_tests_def list.pred_inject by (intro conjI client_passes) simp

end

end
