(* ===== verification/Network_Tests.thy ===== *)
theory Network_Tests
  imports Client_Tests
begin

text \<open>
  The unit tests of \<open>src/client.rs\<close> that open a socket. Each runs the client against the
  server the test spawns: what the server writes is the inbox of the client's network
  (a hypothesis of the theorem), and the server reads what the client \<open>sent\<close>, cut by TCP into reads (\<open>tcp_reads\<close>).
  They pass over any network that keeps the promises of \<open>framing_lib\<close>, however the bytes
  of the two directions are cut.
\<close>

section \<open>What the servers of the tests read\<close>

definition ends_frame :: "bytes \<Rightarrow> bool" where
  "ends_frame received \<longleftrightarrow> received \<noteq> [] \<and> last received = NUL"

text \<open>\<open>read_frame\<close>: an empty read is the end of the stream, and ends the loop.\<close>

fun read_frame :: "bytes \<Rightarrow> bytes list \<Rightarrow> bytes" where
  "read_frame received [] = received"
| "read_frame received (chunk # reads) =
    (if ends_frame received then received
     else if chunk = [] then received
     else read_frame (received @ chunk) reads)"

text \<open>The loop of the first server, which asserts that no read is empty.\<close>

fun read_whole_frame :: "bytes \<Rightarrow> bytes list \<Rightarrow> bytes option" where
  "read_whole_frame received [] = (if ends_frame received then Some received else None)"
| "read_whole_frame received (chunk # reads) =
    (if ends_frame received then Some received
     else if chunk = [] then None
     else read_whole_frame (received @ chunk) reads)"

text \<open>What the servers answer.\<close>

definition reply_connected :: "rstring \<Rightarrow> bytes" where
  "reply_connected version = ''CONNECTED\<newline>version:'' @ version @ [LF, LF, NUL]"

definition reply_receipt :: bytes where
  "reply_receipt = ''RECEIPT\<newline>receipt-id:bye\<newline>\<newline>'' @ [NUL]"

section \<open>The tests\<close>

definition handshake_connector :: "rstring \<Rightarrow> (rstring, rstring) connector" where
  "handshake_connector addr =
    set_headers [(''client-id'', ''ClientTest'')]
      (set_passcode ''guest_passcode'' (set_login ''guest_login''
        (set_virtualhost ''virtual.stomp.example.com'' (set_server addr connector_builder))))"

definition handshake_sends_the_connect_message :: "winnow \<Rightarrow> 'b bytes_mut \<Rightarrow> 'b \<Rightarrow>
    ('w, rstring, 'tcp, 'tls, 'ip, 'dns) net \<Rightarrow> (('tcp, 'tls) transport_stream \<Rightarrow> ('w, 'b) framing) \<Rightarrow>
    ('w \<Rightarrow> bytes) \<Rightarrow> (bytes \<Rightarrow> bytes list) \<Rightarrow> rstring \<Rightarrow> 'w \<Rightarrow> bool" where
  "handshake_sends_the_connect_message W B new net adapters sent tcp_reads addr w =
    (case connect W B net adapters (\<lambda>s. s) (handshake_connector addr) w of
       (w, Inl e) \<Rightarrow> False
     | (w, Inr conn) \<Rightarrow>
         (let expected = serialized B new (connector_msg (\<lambda>s. s) (handshake_connector addr))
          in read_whole_frame [] (tcp_reads (sent w)) = Some expected))"

text \<open>The message of the error that refuses a version.\<close>

definition unsupported_version_message :: "rstring \<Rightarrow> rstring" where
  "unsupported_version_message version =
    ''server negotiated STOMP '' @ version @ '', this client speaks 1.2''"

definition handshake_refuses_a_version_it_did_not_ask_for :: "winnow \<Rightarrow> 'b bytes_mut \<Rightarrow>
    ('w, rstring, 'tcp, 'tls, 'ip, 'dns) net \<Rightarrow> (('tcp, 'tls) transport_stream \<Rightarrow> ('w, 'b) framing) \<Rightarrow>
    rstring \<Rightarrow> 'w \<Rightarrow> bool" where
  "handshake_refuses_a_version_it_did_not_ask_for W B net adapters addr w =
    (case connect W B net adapters (\<lambda>s. s)
        (set_virtualhost ''test'' (set_server addr connector_builder)) w of
       (w, Inr conn) \<Rightarrow> False
     | (w, Inl error) \<Rightarrow>
         (case error of
            Unsupported_Version version \<Rightarrow> str_contains ''1.1'' (unsupported_version_message version)
          | _ \<Rightarrow> False))"

definition disconnect_asks_for_a_receipt_and_waits_for_it :: "winnow \<Rightarrow> 'b bytes_mut \<Rightarrow>
    ('w, rstring, 'tcp, 'tls, 'ip, 'dns) net \<Rightarrow> (('tcp, 'tls) transport_stream \<Rightarrow> ('w, 'b) framing) \<Rightarrow>
    (client_transport \<Rightarrow> to_server message \<Rightarrow> ('w, unit) io) \<Rightarrow>
    (client_transport \<Rightarrow> ('w, from_server message option) io) \<Rightarrow>
    (client_transport \<Rightarrow> ('w, unit) io) \<Rightarrow>
    ('w \<Rightarrow> bytes) \<Rightarrow> (bytes \<Rightarrow> bytes list) \<Rightarrow> rstring \<Rightarrow> 'w \<Rightarrow> bool" where
  "disconnect_asks_for_a_receipt_and_waits_for_it W B net adapters send next close sent tcp_reads addr w =
    (case connect W B net adapters (\<lambda>s. s)
        (set_virtualhost ''test'' (set_server addr connector_builder)) w of
       (w, Inl e) \<Rightarrow> False
     | (w, Inr conn) \<Rightarrow>
         (let connect_frame = sent w
          in case disconnect (send conn) (next conn) (close conn) ''bye'' w of
               None \<Rightarrow> False
             | Some (w, Inl e) \<Rightarrow> False
             | Some (w, Inr u) \<Rightarrow>
                 (let disconnect_frame = read_frame [] (tcp_reads (drop (length connect_frame) (sent w)));
                      sent = from_utf8_lossy disconnect_frame
                  in starts_with ''DISCONNECT\<newline>'' sent \<and> str_contains ''receipt:bye'' sent)))"

section \<open>They pass\<close>

definition cuts :: "(bytes \<Rightarrow> bytes list) \<Rightarrow> bool" where
  "cuts tcp_reads \<longleftrightarrow> (\<forall>bs. concat (tcp_reads bs) = bs \<and> [] \<notin> set (tcp_reads bs))"

text \<open>A frame whose only NULL is its last byte is read whole.\<close>

lemma ends_frame_prefix: "NUL \<notin> set s \<Longrightarrow> \<not> ends_frame s"
  by (auto simp: ends_frame_def dest: last_in_set)

lemma cut_frame:
  assumes "received @ concat cs = s @ [NUL]" "NUL \<notin> set s" "[] \<notin> set cs"
  shows "read_frame received cs = s @ [NUL] \<and> read_whole_frame received cs = Some (s @ [NUL])"
  using assms
proof (induction cs arbitrary: received)
  case Nil
  then show ?case by (simp add: ends_frame_def)
next
  case (Cons c cs)
  then have ne: "concat (c # cs) \<noteq> []" by auto
  then obtain r where r: "concat (c # cs) = r @ [NUL]"
    using Cons.prems(1) by (metis append_butlast_last_id last_appendR last_snoc)
  with Cons.prems(1) have "received @ r = s" by simp
  with Cons.prems(2) have "\<not> ends_frame received" by (intro ends_frame_prefix) auto
  with Cons show ?case by auto
qed

lemma replies:
  "reply_connected v = wire (server_frame (Connected v None None None))"
  "reply_receipt = wire (server_frame (Receipt ''bye''))"
  by (simp_all add: reply_connected_def reply_receipt_def wires)

text \<open>The server of a test accepts the connection and will write \<open>bytes\<close>.\<close>

definition serves :: "('w, 's, 'tcp, 'tls, 'ip, 'dns) net \<Rightarrow> ('w \<Rightarrow> bytes) \<Rightarrow> ('w \<Rightarrow> bool) \<Rightarrow> ('w \<Rightarrow> bytes) \<Rightarrow>
    ('w \<Rightarrow> bytes list) \<Rightarrow> 's \<Rightarrow> bytes \<Rightarrow> 'w \<Rightarrow> bool" where
  "serves net sent healthy unread inbox addr bytes w \<longleftrightarrow>
    (\<exists>v tcp. net_tcp_connect net addr w = (v, Inr tcp) \<and>
      sent v = [] \<and> healthy v \<and> unread v = [] \<and> concat (inbox v) = bytes)"

primrec wiring_codec :: "wiring \<Rightarrow> client_codec" where
  "wiring_codec (Direct codec) = codec"
| "wiring_codec (Pumped codec) = codec"

lemma connect_plain:
  assumes "net_tcp_connect net (cn_server self) w = (v, Inr tcp)" "\<not> cn_use_tls self" "\<not> connector_beats self"
    "framing_lib B (adapters (Plain tcp)) sent pumps healthy unread inbox" "winnow_lib W"
    "sent v = []" "healthy v" "unread v = []" "server_ok m" "from_server_utf8 m"
    "concat (inbox v) = wire (server_frame m) @ rest" "length (concat (inbox v)) \<le> cn_max_frame_size self"
  shows "\<exists>w'. connect W B net adapters into self w =
      (case accept_connected (Some \<lparr>content = m, extra_headers = server_extra m\<rparr>) (cn_heartbeat self) of
         Inr (outgoing, incoming) \<Rightarrow>
           (w', Inr (client_transport_new (Direct (with_max_frame_size (cn_max_frame_size self)))
              outgoing incoming (cn_auto_heartbeat self)))
       | Inl e \<Rightarrow> (w', Inl e)) \<and>
    (\<forall>iv. accept_connected (Some \<lparr>content = m, extra_headers = server_extra m\<rparr>) (cn_heartbeat self) = Inr iv \<longrightarrow>
      sent w' = wire (message_to_frame (connector_msg into self)) \<and>
      dropWhile is_eol (unread w' @ concat (inbox w')) = dropWhile is_eol rest \<and> healthy w' \<and>
      length (unread w' @ concat (inbox w')) \<le> cn_max_frame_size self)"
proof -
  let ?a = "accept_connected (Some \<lparr>content = m, extra_headers = server_extra m\<rparr>) (cn_heartbeat self)"
  let ?c = "with_max_frame_size (cn_max_frame_size self)"
  let ?est = "establish W B (adapters (Plain tcp)) (connector_msg into self) (cn_heartbeat self) False
    (cn_max_frame_size self) v"
  have reads: "concat (inbox v) = [] @ wire (server_frame m) @ rest" using assms(11) by simp
  obtain w' where w': "?est = (case ?a of Inr iv \<Rightarrow> (w', Inr (Direct ?c, iv)) | Inl e \<Rightarrow> (w', Inl e))"
    "dropWhile is_eol (unread w' @ concat (inbox w')) = dropWhile is_eol rest" "healthy w'"
    "length (unread w' @ concat (inbox w')) \<le> cn_max_frame_size self"
    using framing_lib.establish_reply [OF assms(4,5,7,8) _ assms(9,10) reads assms(12),
        of "connector_msg into self" "cn_heartbeat self" False] by auto
  have open_plain: "open_stream net self w = (v, Inr (Plain tcp))"
    using assms(1,2) by (simp add: open_stream_def ibind_def)
  have "connect W B net adapters into self w =
      ibind (\<lambda>v. ?est) (\<lambda>(transport, outgoing, incoming).
        ireturn (client_transport_new transport outgoing incoming (cn_auto_heartbeat self))) v"
    using open_plain assms(3) by (simp add: connect_def ibind_def Let_def)
  moreover have "sent w' = wire (message_to_frame (connector_msg into self))" if "?a = Inr iv" for iv
  proof -
    obtain p q where iv: "iv = (p, q)" by (cases iv)
    from framing_lib.establish_ok [OF assms(4) w'(1) [unfolded that iv sum.case]] assms(6) show ?thesis by simp
  qed
  ultimately show ?thesis using w'
    by (intro exI [of _ w']) (auto simp: ibind_def split: sum.split)
qed

lemma accepts_plain:
  "accept_connected (Some \<lparr>content = Connected ''1.2'' None None None, extra_headers = []\<rparr>) None = Inr (None, None)"
  "accept_connected (Some \<lparr>content = Connected ''1.1'' None None None, extra_headers = []\<rparr>) None =
    Inl (Unsupported_Version ''1.1'')"
  by (simp_all add: accept_connected_def negotiate_def)

lemma plain_connected:
  "server_ok (Connected ''1.2'' None None None)" "from_server_utf8 (Connected ''1.2'' None None None)"
  "server_ok (Connected ''1.1'' None None None)" "from_server_utf8 (Connected ''1.1'' None None None)"
  "server_ok (Receipt ''bye'')" "from_server_utf8 (Receipt ''bye'')"
  by (simp_all add: no_eol_def opt_no_eol_def is_eol_def conversions)

lemma test_connectors [simp]:
  "cn_server (set_virtualhost h (set_server addr connector_builder)) = addr"
  "\<not> cn_use_tls (set_virtualhost h (set_server addr connector_builder))"
  "\<not> connector_beats (set_virtualhost h (set_server addr connector_builder))"
  "cn_heartbeat (set_virtualhost h (set_server addr connector_builder)) = None"
  "cn_max_frame_size (set_virtualhost h (set_server addr connector_builder)) = DEFAULT_MAX_FRAME_SIZE"
  "cn_server (handshake_connector addr) = addr"
  "\<not> cn_use_tls (handshake_connector addr)"
  "\<not> connector_beats (handshake_connector addr)"
  "cn_heartbeat (handshake_connector addr) = None"
  "cn_max_frame_size (handshake_connector addr) = DEFAULT_MAX_FRAME_SIZE"
  by (simp_all add: handshake_connector_def builders connector_beats_def)

lemma reply_sizes:
  "length (reply_connected v) = 21 + length v"
  "length reply_receipt = 25"
  by (simp_all add: reply_connected_def reply_receipt_def)

lemma nul_escape [simp]: "NUL \<in> set (escape_text e t) \<longleftrightarrow> NUL \<in> set t"
  by (induction t) (auto simp: escape_byte_def)

lemma wire_single_nul:
  assumes "fr_body f = None" "NUL \<notin> set (fr_command f)"
    and "\<And>k v. (k, v) \<in> set (fr_headers f) \<Longrightarrow> NUL \<notin> set k \<and> NUL \<notin> set v"
  obtains t where "wire f = t @ [NUL]" "NUL \<notin> set t"
proof (rule that)
  let ?e = "headers_are_escaped (fr_command f)"
  show "wire f = (fr_command f @ LF # concat (map (wire_header ?e) (fr_headers f)) @ [LF]) @ [NUL]"
    using assms(1) by (simp add: wire_def)
  show "NUL \<notin> set (fr_command f @ LF # concat (map (wire_header ?e) (fr_headers f)) @ [LF])"
    using assms(2,3) by (fastforce simp: wire_header_def)
qed

lemma reads_whole:
  assumes "cuts tcp_reads" "fr_body f = None" "NUL \<notin> set (fr_command f)"
    and "\<And>k v. (k, v) \<in> set (fr_headers f) \<Longrightarrow> NUL \<notin> set k \<and> NUL \<notin> set v"
  shows "read_frame [] (tcp_reads (wire f)) = wire f" "read_whole_frame [] (tcp_reads (wire f)) = Some (wire f)"
proof -
  obtain t where "wire f = t @ [NUL]" "NUL \<notin> set t"
    using assms(2-4) by (rule wire_single_nul)
  with cut_frame [of "[]" "tcp_reads (wire f)" t] assms(1)
  show "read_frame [] (tcp_reads (wire f)) = wire f" "read_whole_frame [] (tcp_reads (wire f)) = Some (wire f)"
    by (simp_all add: cuts_def)
qed

lemma serves_reads:
  assumes "serves net sent healthy unread inbox addr bytes w"
  obtains v tcp where "net_tcp_connect net addr w = (v, Inr tcp)" "sent v = []" "healthy v" "unread v = []"
    "concat (inbox v) = bytes"
  using assms by (auto simp: serves_def)

definition disconnect_bye :: frame where
  "disconnect_bye = frame_new ''DISCONNECT'' [(''receipt'', Some ''bye'')] None"

lemma disconnect_bye_read:
  assumes "cuts tcp_reads"
  shows "starts_with ''DISCONNECT\<newline>'' (from_utf8_lossy (read_frame [] (tcp_reads (wire disconnect_bye)))) \<and>
    str_contains ''receipt:bye'' (from_utf8_lossy (read_frame [] (tcp_reads (wire disconnect_bye))))"
proof -
  have "read_frame [] (tcp_reads (wire disconnect_bye)) = wire disconnect_bye"
    by (rule reads_whole [OF assms]) (auto simp: disconnect_bye_def List.map_filter_def)
  then show ?thesis by (simp add: disconnect_bye_def starts_with_def test_eval)
qed

lemma connect_frame_read:
  assumes "cuts tcp_reads"
  shows "read_whole_frame [] (tcp_reads (wire (message_to_frame (connector_msg (\<lambda>s. s) (handshake_connector addr))))) =
    Some (wire (message_to_frame (connector_msg (\<lambda>s. s) (handshake_connector addr))))"
  by (rule reads_whole [OF assms]) (auto simp: handshake_connector_def builders wires)

text \<open>The connectors of the tests: plain TCP, no heart-beats, the default maximum.\<close>

definition plain_connector :: "rstring \<Rightarrow> (rstring, rstring) connector \<Rightarrow> bool" where
  "plain_connector addr self \<longleftrightarrow> cn_server self = addr \<and> \<not> cn_use_tls self \<and> \<not> connector_beats self \<and>
    cn_heartbeat self = None \<and> cn_max_frame_size self = DEFAULT_MAX_FRAME_SIZE"

lemma plain_test_connectors:
  "plain_connector addr (set_virtualhost h (set_server addr connector_builder))"
  "plain_connector addr (handshake_connector addr)"
  by (simp_all add: plain_connector_def)

lemma connect_accepted:
  assumes "winnow_lib W" "framing_lib B N sent pumps healthy unread inbox" "plain_connector addr self"
    and "serves net sent healthy unread inbox addr (reply_connected ''1.2'' @ rest) w" "length rest \<le> 1000"
  obtains w' conn where "connect W B net (\<lambda>_. N) (\<lambda>s. s) self w = (w', Inr conn)"
    "wiring_codec (ct_transport conn) = with_max_frame_size DEFAULT_MAX_FRAME_SIZE"
    "sent w' = wire (message_to_frame (connector_msg (\<lambda>s. s) self))"
    "dropWhile is_eol (unread w' @ concat (inbox w')) = dropWhile is_eol rest"
    "healthy w'" "length (unread w' @ concat (inbox w')) \<le> DEFAULT_MAX_FRAME_SIZE"
proof -
  obtain v tcp where v: "net_tcp_connect net addr w = (v, Inr tcp)" "sent v = []" "healthy v" "unread v = []"
    "concat (inbox v) = wire (server_frame (Connected ''1.2'' None None None)) @ rest"
    using assms(4) by (auto simp: replies elim: serves_reads)
  have "length (concat (inbox v)) \<le> DEFAULT_MAX_FRAME_SIZE"
    using v(5) reply_sizes(1) [of "''1.2''"] assms(5) by (simp add: replies DEFAULT_MAX_FRAME_SIZE_def)
  with connect_plain [where net = net and adapters = "\<lambda>_. N" and into = "\<lambda>s. s" and w = w and self = self,
      OF _ _ _ assms(2,1) v(2-4) plain_connected(1,2) v(5)] v(1) assms(3) that show thesis
    by (auto simp: accepts_plain plain_connector_def client_transport_new_def Let_def
        simp del: dropWhile_eq_Nil_conv)
qed

lemma refuses_version_passes:
  assumes "winnow_lib W" "framing_lib B N sent pumps healthy unread inbox"
    and "serves net sent healthy unread inbox addr (reply_connected ''1.1'') w"
  shows "handshake_refuses_a_version_it_did_not_ask_for W B net (\<lambda>_. N) addr w"
proof -
  let ?c = "set_virtualhost ''test'' (set_server addr connector_builder)"
  obtain v tcp where v: "net_tcp_connect net addr w = (v, Inr tcp)" "sent v = []" "healthy v" "unread v = []"
    "concat (inbox v) = wire (server_frame (Connected ''1.1'' None None None)) @ []"
    using assms(3) by (auto simp: replies elim: serves_reads)
  have "length (concat (inbox v)) \<le> DEFAULT_MAX_FRAME_SIZE"
    using v(5) reply_sizes(1) [of "''1.1''"] by (simp add: replies DEFAULT_MAX_FRAME_SIZE_def)
  with connect_plain [where net = net and adapters = "\<lambda>_. N" and into = "\<lambda>s. s" and w = w and self = ?c,
      OF _ _ _ assms(2,1) v(2-4) plain_connected(3,4) v(5)] v(1)
  show ?thesis
    by (auto simp: handshake_refuses_a_version_it_did_not_ask_for_def accepts_plain unsupported_version_message_def)
qed

lemma disconnect_test_passes:
  assumes "winnow_lib W" "framing_lib B N sent pumps healthy unread inbox" "cuts tcp_reads"
    and "\<And>conn v. \<exists>v'. close conn v = (v', Inr ()) \<and> sent v' = sent v"
    and "serves net sent healthy unread inbox addr (reply_connected ''1.2'' @ reply_receipt) w"
  shows "disconnect_asks_for_a_receipt_and_waits_for_it W B net (\<lambda>_. N)
    (\<lambda>conn m. fr_send N (encode_message B m))
    (\<lambda>conn. fr_next N (decode W B (wiring_codec (ct_transport conn)))) close sent tcp_reads addr w"
proof -
  let ?c = "set_virtualhost ''test'' (set_server addr connector_builder)"
  obtain w1 conn where c: "connect W B net (\<lambda>_. N) (\<lambda>s. s) ?c w = (w1, Inr conn)"
    "wiring_codec (ct_transport conn) = with_max_frame_size DEFAULT_MAX_FRAME_SIZE"
    "sent w1 = wire (message_to_frame (connector_msg (\<lambda>s. s) ?c))"
    "dropWhile is_eol (unread w1 @ concat (inbox w1)) = dropWhile is_eol reply_receipt"
    "healthy w1" "length (unread w1 @ concat (inbox w1)) \<le> DEFAULT_MAX_FRAME_SIZE"
    by (rule connect_accepted [OF assms(1,2) plain_test_connectors(1) assms(5)]) (simp add: reply_sizes)
  have "holds_bytes DEFAULT_MAX_FRAME_SIZE healthy unread inbox w1 [Receipt ''bye'']"
    unfolding holds_bytes_def using c(4-6) plain_connected(5,6)
    by (intro conjI exI [of _ "[([], Receipt ''bye'')]"] exI [of _ "[]"]) (simp_all add: replies)
  from framing_disconnect [OF assms(1,2) this, of "close conn" "''bye''"]
  obtain w2 where d: "disconnect (\<lambda>m. fr_send N (encode_message B m))
      (fr_next N (decode W B (with_max_frame_size DEFAULT_MAX_FRAME_SIZE))) (close conn) ''bye'' w1 =
      Some (close conn w2)" "sent w2 = sent w1 @ wire disconnect_bye"
    by (auto simp: disconnect_bye_def)
  obtain w3 where "close conn w2 = (w3, Inr ())" "sent w3 = sent w2" using assms(4) by blast
  with c(1,2) d show ?thesis
    by (simp add: disconnect_asks_for_a_receipt_and_waits_for_it_def disconnect_bye_read assms(3))
qed

text \<open>
  C33: the unit tests of \<open>src/client.rs\<close> pass, over any lawful libraries and any network on
  which the server of the test answers as the test has it. The CONNECT frame that the
  server reads is the one \<open>msg\<close> returns; a CONNECTED naming 1.1 is refused with an error
  that says so; \<open>disconnect\<close> sends a DISCONNECT with the receipt and returns once the
  RECEIPT has come.
\<close>

theorem client_unit_tests_pass:
  assumes "winnow_lib W" and "bytes_mut_lib B" and "bm_bytes B new = []"
    and "framing_lib B N sent pumps healthy unread inbox"
    and "cuts tcp_reads"
    and "\<And>conn v. \<exists>v'. close conn v = (v', Inr ()) \<and> sent v' = sent v"
    and "serves net sent healthy unread inbox addr (reply_connected ''1.2'') w1"
    and "serves net sent healthy unread inbox addr (reply_connected ''1.1'') w2"
    and "serves net sent healthy unread inbox addr (reply_connected ''1.2'' @ reply_receipt) w3"
  shows "list_all (\<lambda>passes. passes) (client_tests W B new) \<and>
    handshake_sends_the_connect_message W B new net (\<lambda>_. N) sent tcp_reads addr w1 \<and>
    handshake_refuses_a_version_it_did_not_ask_for W B net (\<lambda>_. N) addr w2 \<and>
    disconnect_asks_for_a_receipt_and_waits_for_it W B net (\<lambda>_. N)
      (\<lambda>conn m. fr_send N (encode_message B m))
      (\<lambda>conn. fr_next N (decode W B (wiring_codec (ct_transport conn)))) close sent tcp_reads addr w3"
proof (intro conjI)
  have lib: "test_libs W B new"
    using assms(1-3) by (intro test_libs.intro test_libs_axioms.intro)
  then show "list_all (\<lambda>passes. passes) (client_tests W B new)"
    by (rule test_libs.client_tests_all)
  have "serves net sent healthy unread inbox addr (reply_connected ''1.2'' @ []) w1"
    using assms(7) by simp
  then obtain w' conn where "connect W B net (\<lambda>_. N) (\<lambda>s. s) (handshake_connector addr) w1 = (w', Inr conn)"
    "sent w' = wire (message_to_frame (connector_msg (\<lambda>s. s) (handshake_connector addr)))"
    by (rule connect_accepted [OF assms(1,4) plain_test_connectors(2)]) simp_all
  then show "handshake_sends_the_connect_message W B new net (\<lambda>_. N) sent tcp_reads addr w1"
    by (simp add: handshake_sends_the_connect_message_def test_libs.serialized_wire [OF lib]
        connect_frame_read assms(5))
qed (rule refuses_version_passes [OF assms(1,4,8)] disconnect_test_passes [OF assms(1,4,5,6,9)])+

definition byte_by_byte :: "bytes \<Rightarrow> bytes list" where
  "byte_by_byte bs = map (\<lambda>b. [b]) bs"

definition local_net :: "(sim, rstring, unit, unit, unit, unit) net" where
  "local_net =
    \<lparr>net_tcp_connect = (\<lambda>_. ireturn ()), net_peer_ip = (\<lambda>_. ireturn []), net_parse_ip = (\<lambda>_. None),
     net_parse_dns = (\<lambda>_. None), net_server_roots = [],
     net_tls_connect = (\<lambda>_ _ _. ireturn ())\<rparr>"

lemma local_serves:
  "serves local_net sim_sent (\<lambda>w. \<not> sim_closed w) (\<lambda>w. vb_data (sim_buf w)) sim_in addr bytes (sim_of [bytes])"
  by (simp add: serves_def local_net_def sim_of_def)

theorem client_unit_tests_pass_witness:
  "list_all (\<lambda>passes. passes) (client_tests winnow_ref vec_bytes_mut (vec_of [])) \<and>
   handshake_sends_the_connect_message winnow_ref vec_bytes_mut (vec_of []) local_net (\<lambda>_. sim_net) sim_sent
     byte_by_byte ''127.0.0.1:0'' (sim_of [reply_connected ''1.2'']) \<and>
   handshake_refuses_a_version_it_did_not_ask_for winnow_ref vec_bytes_mut local_net (\<lambda>_. sim_net)
     ''127.0.0.1:0'' (sim_of [reply_connected ''1.1'']) \<and>
   disconnect_asks_for_a_receipt_and_waits_for_it winnow_ref vec_bytes_mut local_net (\<lambda>_. sim_net)
     (\<lambda>conn m. fr_send sim_net (encode_message vec_bytes_mut m))
     (\<lambda>conn. fr_next sim_net (decode winnow_ref vec_bytes_mut (wiring_codec (ct_transport conn))))
     (\<lambda>conn w. (w, Inr ())) sim_sent byte_by_byte ''127.0.0.1:0''
     (sim_of [reply_connected ''1.2'' @ reply_receipt])"
proof (rule client_unit_tests_pass [OF wref.winnow_lib_axioms vec.bytes_mut_lib_axioms _ sim.framing_lib_axioms])
  show "cuts byte_by_byte" by (auto simp: cuts_def byte_by_byte_def)
qed (simp_all add: local_serves)

end
