(* ===== verification/Pump_Session.thy ===== *)
theory Pump_Session
  imports Sim_Channels Sim_Net
begin

text \<open>
  Sending many items, one after the other, over either wiring: a pumped connection with
  its task scheduled, and the framed socket of a direct one. What the two put on the wire
  and report to the caller is the same.
\<close>

section \<open>One send after the other\<close>

text \<open>Each item is sent whatever became of the ones before; \<open>None\<close> is a send that never ends.\<close>

fun pump_sends :: "('w \<Rightarrow> 'w) \<Rightarrow> ('w, 'k) channels \<Rightarrow> outgoing list \<Rightarrow> 'k pump \<Rightarrow> 'w \<Rightarrow>
    ('k pump \<times> 'w \<times> unit result list) option" where
  "pump_sends run C [] self w = Some (self, w, [])"
| "pump_sends run C (it # its) self w =
    (case pump_send run C it self w of
       None \<Rightarrow> None
     | Some (self, w, r) \<Rightarrow>
         (case pump_sends run C its self w of
            None \<Rightarrow> None
          | Some (self, w, rs) \<Rightarrow> Some (self, w, r # rs)))"

fun direct_sends :: "'b bytes_mut \<Rightarrow> ('w, 'b) framing \<Rightarrow> outgoing list \<Rightarrow> 'w \<Rightarrow> 'w \<times> unit result list" where
  "direct_sends B N [] w = (w, [])"
| "direct_sends B N (it # its) w =
    (case fr_send N (encode_outgoing B it) w of
       (w, r) \<Rightarrow> (case direct_sends B N its w of (w, rs) \<Rightarrow> (w, r # rs)))"

text \<open>
  The results a pumped connection may report: those of the writer up to the first
  failure, and then, the task being gone, that the connection is closed.
\<close>

fun session_results :: "unit result list \<Rightarrow> bool" where
  "session_results [] \<longleftrightarrow> True"
| "session_results (r # rs) \<longleftrightarrow>
    (if r = Inr () then session_results rs else list_all (\<lambda>x. x = Inl Connection_Closed) rs)"

lemma session_results_split:
  "session_results rs \<longleftrightarrow>
    (\<exists>n. rs = replicate n (Inr ())) \<or>
    (\<exists>n e m. rs = replicate n (Inr ()) @ Inl e # replicate m (Inl Connection_Closed))"
proof
  show "session_results rs \<Longrightarrow> (\<exists>n. rs = replicate n (Inr ())) \<or>
      (\<exists>n e m. rs = replicate n (Inr ()) @ Inl e # replicate m (Inl Connection_Closed))"
  proof (induction rs)
    case (Cons r rs)
    show ?case
    proof (cases r)
      case (Inl e)
      with Cons.prems have "rs = replicate (length rs) (Inl Connection_Closed)"
        by (simp add: list_all_iff replicate_length_same [symmetric])
      with Inl show ?thesis by (metis append_Nil replicate_0)
    next
      case (Inr u)
      with Cons.prems have "session_results rs" by simp
      then have "(\<exists>n. rs = replicate n (Inr ())) \<or>
          (\<exists>n e m. rs = replicate n (Inr ()) @ Inl e # replicate m (Inl Connection_Closed))" by (rule Cons.IH)
      moreover have "r = Inr ()" using Inr by simp
      ultimately show ?thesis by (metis append_Cons replicate_Suc)
    qed
  qed simp
next
  have "session_results (replicate n (Inr ()) @ xs) = session_results xs" for n xs
    by (induction n) simp_all
  from this [of _ "[]"] this show "(\<exists>n. rs = replicate n (Inr ())) \<or>
      (\<exists>n e m. rs = replicate n (Inr ()) @ Inl e # replicate m (Inl Connection_Closed)) \<Longrightarrow> session_results rs"
    by (auto simp: list_all_iff)
qed

context pump_lib
begin

lemma sends_gone:
  assumes "pu_pending p = None" "\<not> lk_rx (view w)"
  shows "\<exists>w'. pump_sends run C its p w =
      Some (p, w', replicate (length its) (Inl Connection_Closed)) \<and> view w' = view w"
  using assms(2)
proof (induction its arbitrary: w)
  case (Cons it its)
  obtain w1 where "pump_send run C it p w = Some (p, w1, Inl Connection_Closed)" "view w1 = view w"
    using send_gone [OF assms(1)] Cons.prems by blast
  with Cons.IH [of w1] Cons.prems show ?case by auto
qed simp

lemma sends_open:
  assumes "pu_pending p = None" "lk_queue (view w) = []" "lk_tx (view w)" "lk_rx (view w)"
  shows "\<exists>p' w' rs. pump_sends (task_run B C X interval) C its p w = Some (p', w', rs) \<and>
    length rs = length its \<and> session_results rs \<and> pu_pending p' = None \<and> lk_queue (view w') = [] \<and>
    (if list_all (\<lambda>r. r = Inr ()) rs
     then lk_tx (view w') \<and> lk_rx (view w') \<and>
       lk_sent (view w') = lk_sent (view w) @ concat (map wire_item its)
     else \<not> lk_rx (view w') \<and> lk_shut (view w')) \<and>
    ((\<forall>it v. snd (fw_send X (encode_outgoing B it) v) = Inr ()) \<longrightarrow> list_all (\<lambda>r. r = Inr ()) rs)"
  using assms
proof (induction its arbitrary: p w)
  case (Cons it its)
  obtain p1 w1 r w0 where s: "pump_send (task_run B C X interval) C it p w = Some (p1, w1, r)"
    "r = snd (fw_send X (encode_outgoing B it) w0)" "pu_pending p1 = None" "lk_queue (view w1) = []"
    "lk_tx (view w1)" "lk_rx (view w1) = (r = Inr ())"
    "if r = Inr () then lk_sent (view w1) = lk_sent (view w) @ wire_item it else lk_shut (view w1)"
    using send_open [OF Cons.prems, of interval it] by blast
  show ?case
  proof (cases "r = Inr ()")
    case True
    with Cons.IH [OF s(3-5)] s(6) obtain p' w' rs where
      "pump_sends (task_run B C X interval) C its p1 w1 = Some (p', w', rs)"
      "length rs = length its" "session_results rs" "pu_pending p' = None" "lk_queue (view w') = []"
      "if list_all (\<lambda>r. r = Inr ()) rs
       then lk_tx (view w') \<and> lk_rx (view w') \<and> lk_sent (view w') = lk_sent (view w1) @ concat (map wire_item its)
       else \<not> lk_rx (view w') \<and> lk_shut (view w')"
      "(\<forall>it v. snd (fw_send X (encode_outgoing B it) v) = Inr ()) \<longrightarrow> list_all (\<lambda>r. r = Inr ()) rs"
      by blast
    with s(1,7) True show ?thesis by (intro exI [of _ p'] exI [of _ w'] exI [of _ "r # rs"]) simp
  next
    case False
    with s(6) have "\<not> lk_rx (view w1)" by simp
    from sends_gone [OF s(3) this, of _ its] obtain w' where
      "pump_sends (task_run B C X interval) C its p1 w1 =
        Some (p1, w', replicate (length its) (Inl Connection_Closed))" "view w' = view w1"
      by blast
    with s False show ?thesis
      by (intro exI [of _ p1] exI [of _ w'] exI [of _ "r # replicate (length its) (Inl Connection_Closed)"])
        (auto simp: list_all_iff)
  qed
qed simp

end

context framing_lib
begin

lemma encode_outgoing_ok: "fst (encode_outgoing B it buf) = Inr ()"
  by (cases it) (simp_all add: encode_message_def encode_heartbeat_def)

lemma encode_outgoing_bytes:
  "bm_bytes B buf = [] \<Longrightarrow> bm_bytes B (snd (encode_outgoing B it buf)) = wire_item it"
  by (cases it) (simp_all add: encode_message_def encode_heartbeat_def serialize_bytes)

lemma direct_sends_healthy:
  "healthy w \<Longrightarrow> \<exists>w'. direct_sends B N its w = (w', replicate (length its) (Inr ())) \<and> healthy w' \<and>
    unread w' = unread w \<and> inbox w' = inbox w \<and> sent w' = sent w @ concat (map wire_item its)"
proof (induction its arbitrary: w)
  case (Cons it its)
  obtain w1 where w1: "fr_send N (encode_outgoing B it) w = (w1, Inr ())" "healthy w1"
    "unread w1 = unread w" "inbox w1 = inbox w"
    using send_succeeds [OF Cons.prems, of "encode_outgoing B it"] encode_outgoing_ok by blast
  from send_writes [OF w1(1)] encode_outgoing_bytes have "sent w1 = sent w @ wire_item it" by auto
  with Cons.IH [OF w1(2)] w1(1,3,4) show ?case by auto
qed simp

end

section \<open>The two wirings\<close>


lemma sim_open:
  "lk_queue (cs_view chan_sim_init) = []" "lk_tx (cs_view chan_sim_init)" "lk_rx (cs_view chan_sim_init)"
  by (simp_all add: chan_sim_init_def cs_view_def)



lemma steady_writes: "snd (fw_send steady_writer (encode_outgoing vec_bytes_mut it) u) = Inr ()"
  using sim.encode_outgoing_ok [of it "vec_of []"]
  by (auto simp: steady_writer_def split: prod.splits sum.splits)


end
