(* ===== verification/Pump_Refinement.thy ===== *)
theory Pump_Refinement
  imports Pump_Properties
begin

text \<open>
  What the write pump is for its caller, as an abstract machine: a mailbox for one item.
  An item is taken, written, and its result handed back before the next one is taken;
  heart-beats go out while nothing is taken; a failed write, or closing, ends the task.
  Every run of the two ends, however they interleave, is a run of the mailbox with the
  same observations: \<open>mailbox_of\<close> is the refinement mapping.
\<close>

section \<open>The mailbox\<close>

datatype phase = Free | Taken outgoing | Finished "unit result"

record mailbox =
  mb_phase :: phase
  mb_running :: bool
  mb_open :: bool

primrec taken :: "phase \<Rightarrow> bool" where
  "taken Free \<longleftrightarrow> False" | "taken (Taken it) \<longleftrightarrow> True" | "taken (Finished r) \<longleftrightarrow> False"

inductive mailbox_step :: "bool \<Rightarrow> mailbox \<Rightarrow> pump_obs list \<Rightarrow> mailbox \<Rightarrow> bool" for beats where
  Take: "mb_phase m = Free \<Longrightarrow> mb_running m \<Longrightarrow> mb_open m \<Longrightarrow>
    mailbox_step beats m [Accepted it] (m\<lparr>mb_phase := Taken it\<rparr>)"
| Serve: "mb_phase m = Taken it \<Longrightarrow> mb_running m \<Longrightarrow>
    mailbox_step beats m [Wrote it (Inr ())] (m\<lparr>mb_phase := Finished (Inr ())\<rparr>)"
| Fail: "mb_phase m = Taken it \<Longrightarrow> mb_running m \<Longrightarrow>
    mailbox_step beats m [Wrote it (Inl e), Exited] (m\<lparr>mb_phase := Finished (Inl e), mb_running := False\<rparr>)"
| Report: "mb_phase m = Finished r \<Longrightarrow> mailbox_step beats m [Settled r] (m\<lparr>mb_phase := Free\<rparr>)"
| Keep_Alive: "beats \<Longrightarrow> \<not> taken (mb_phase m) \<Longrightarrow> mb_running m \<Longrightarrow> mb_open m \<Longrightarrow>
    mailbox_step beats m [Beat (Inr ())] m"
| Lose: "beats \<Longrightarrow> \<not> taken (mb_phase m) \<Longrightarrow> mb_running m \<Longrightarrow> mb_open m \<Longrightarrow>
    mailbox_step beats m [Beat (Inl e), Exited] (m\<lparr>mb_running := False\<rparr>)"
| Close: "mailbox_step beats m [] (m\<lparr>mb_open := False\<rparr>)"
| Stop: "\<not> taken (mb_phase m) \<Longrightarrow> mb_running m \<Longrightarrow> \<not> mb_open m \<Longrightarrow>
    mailbox_step beats m [Exited] (m\<lparr>mb_running := False\<rparr>)"

inductive mailbox_run :: "bool \<Rightarrow> mailbox \<Rightarrow> pump_obs list \<Rightarrow> mailbox \<Rightarrow> bool" for beats where
  Stay: "mailbox_run beats m [] m"
| More: "mailbox_run beats m es m1 \<Longrightarrow> mailbox_step beats m1 fs m2 \<Longrightarrow> mailbox_run beats m (es @ fs) m2"

lemma mailbox_one: "mailbox_step beats m fs m' \<Longrightarrow> mailbox_run beats m fs m'"
  using mailbox_run.More [OF mailbox_run.Stay] by force

lemma mailbox_append:
  assumes "mailbox_run beats m1 fs m2" "mailbox_run beats m es m1"
  shows "mailbox_run beats m (es @ fs) m2"
  using assms
proof (induction rule: mailbox_run.induct)
  case (More m1 fs m2 gs m3)
  then show ?case using mailbox_run.More [of beats m "es @ fs" m2 gs m3] by simp
qed simp

section \<open>The refinement mapping\<close>

definition phase_of :: "'k link \<Rightarrow> 'k pump \<Rightarrow> phase" where
  "phase_of v p =
    (case pu_pending p of
       None \<Rightarrow> Free
     | Some k \<Rightarrow>
         (case lk_queue v of
            (it, _) # _ \<Rightarrow> Taken it
          | [] \<Rightarrow> (case lk_slot v k of Answered r \<Rightarrow> Finished r | _ \<Rightarrow> Free)))"

definition mailbox_of :: "('w \<Rightarrow> 'k link) \<Rightarrow> ('w, 'k) pumped \<Rightarrow> mailbox" where
  "mailbox_of view s =
    (case s of (w, p, run, rdy) \<Rightarrow>
       \<lparr>mb_phase = phase_of (view w) p, mb_running = run, mb_open = lk_tx (view w)\<rparr>)"

lemma mailbox_of_simps [simp]:
  "mb_phase (mailbox_of view (w, p, run, rdy)) = phase_of (view w) p"
  "mb_running (mailbox_of view (w, p, run, rdy)) = run"
  "mb_open (mailbox_of view (w, p, run, rdy)) = lk_tx (view w)"
  by (simp_all add: mailbox_of_def)

lemma mailbox_eqI:
  "phase_of (view w) p = mb_phase m \<Longrightarrow> run = mb_running m \<Longrightarrow> lk_tx (view w) = mb_open m \<Longrightarrow>
   mailbox_of view (w, p, run, rdy) = m"
  by (simp add: mailbox_of_def)

context pump_lib
begin

text \<open>Polling for completion reports what is finished and is otherwise silent.\<close>

lemma flush_mailbox:
  assumes "pump_phase (view w) p rdy es" "pump_poll_flush C p w = (p', w', y)"
  shows "mailbox_run b (mailbox_of view (w, p, run, c)) (settlement C p w) (mailbox_of view (w', p', run, c')) \<and>
    view w' = view w"
proof (cases "pu_pending p")
  case None
  with assms have "p' = p" "w' = w" "settlement C p w = []" by (simp_all add: flush_None settlement_def)
  then show ?thesis by (simp add: mailbox_of_def mailbox_run.Stay)
next
  case (Some k)
  with assms(1) consider "lk_slot (view w) k = Waiting"
    | r where "lk_slot (view w) k = Answered r" "lk_queue (view w) = []"
    by (auto simp: pump_phase_def)
  then show ?thesis
  proof cases
    case 1
    obtain w1 where "pump_poll_flush C p w = (p, w1, Pending)" "view w1 = view w"
      by (rule flush_Waiting [OF Some 1])
    with assms(2) Some show ?thesis by (simp add: settlement_def mailbox_of_def mailbox_run.Stay)
  next
    case (2 r)
    obtain w1 where w1: "pump_poll_flush C p w = (p\<lparr>pu_pending := None\<rparr>, w1, Ready r)" "view w1 = view w"
      by (rule flush_Answered [OF Some 2(1)])
    have "mailbox_of view (w', p', run, c') = (mailbox_of view (w, p, run, c))\<lparr>mb_phase := Free\<rparr>"
      using w1 assms(2) by (simp add: mailbox_of_def phase_of_def)
    moreover have "mb_phase (mailbox_of view (w, p, run, c)) = Finished r"
      using Some 2 by (simp add: phase_of_def)
    ultimately show ?thesis
      using w1 assms(2) Some mailbox_one [OF mailbox_step.Report] by (simp add: settlement_def)
  qed
qed

lemma ready_mailbox:
  assumes "pump_phase (view w) p rdy es" "pump_poll_ready C p w = (p', w', y)"
  shows "mailbox_run b (mailbox_of view (w, p, run, c)) (settlement C p w) (mailbox_of view (w', p', run, c'))"
proof -
  obtain p1 w1 y1 where f: "pump_poll_flush C p w = (p1, w1, y1)" by (cases "pump_poll_flush C p w")
  have "p' = p1"
    using assms(2) f by (auto simp: pump_poll_ready_def split: poll.splits sum.splits option.splits prod.splits)
  moreover have "view w' = view w" using phase_ready [OF assms] by blast
  ultimately show ?thesis
    using flush_mailbox [OF assms(1) f, of b run c c'] by (auto simp: mailbox_of_def)
qed

lemma start_mailbox:
  assumes "pump_phase (view w) p True es" "pump_start_send C item p w = (p', w', y)" "lk_rx (view w) = run"
  shows "mailbox_run b (mailbox_of view (w, p, run, c)) (if y = Inr () then [Accepted item] else [])
    (mailbox_of view (w', p', run, c'))"
proof -
  have idle: "pu_pending p = None" "lk_queue (view w) = []"
    using assms(1) by (simp_all add: pump_phase_def split: option.splits)
  obtain w1 k where o: "os_channel C w = (w1, k)" by (cases "os_channel C w")
  obtain w2 ok where c: "ch_start_send C (item, k) w1 = (w2, ok)" by (cases "ch_start_send C (item, k) w1")
  note v1 = new_oneshot [OF o]
  show ?thesis
  proof (cases ok)
    case True
    with o c assms(2) have r: "p' = p\<lparr>pu_pending := Some k\<rparr>" "w' = w2" "y = Inr ()"
      by (simp_all add: pump_start_send_def)
    from start_send_ok [of item k w1 w2] c True v1 idle(2)
    have v: "lk_rx (view w)" "lk_tx (view w)" "lk_queue (view w2) = [(item, k)]" "lk_tx (view w2)"
      by simp_all
    have "mailbox_of view (w', p', run, c') =
        (mailbox_of view (w, p, run, c))\<lparr>mb_phase := Taken item\<rparr>"
      using r v by (simp add: mailbox_of_def phase_of_def)
    moreover have "mailbox_step b (mailbox_of view (w, p, run, c)) [Accepted item]
        ((mailbox_of view (w, p, run, c))\<lparr>mb_phase := Taken item\<rparr>)"
      using idle v assms(3) by (intro mailbox_step.Take) (simp_all add: phase_of_def)
    ultimately show ?thesis using r(3) mailbox_one by simp
  next
    case False
    with o c assms(2) have r: "p' = p" "w' = w2" "y \<noteq> Inr ()"
      by (auto simp: pump_start_send_def)
    from start_send_failed [of item k w1 w2] c False v1 have "lk_tx (view w2) = lk_tx (view w)" by simp
    then have "mailbox_of view (w', p', run, c') = mailbox_of view (w, p, run, c)"
      using r idle by (simp add: mailbox_of_def phase_of_def)
    then show ?thesis using r(3) by (simp add: mailbox_run.Stay)
  qed
qed

lemma close_mailbox:
  assumes "pump_phase (view w) p rdy es" "pump_poll_close C p w = (p', w', y)"
  shows "mailbox_run b (mailbox_of view (w, p, run, c)) (settlement C p w) (mailbox_of view (w', p', run, c'))"
proof -
  obtain p1 w1 y1 where f: "pump_poll_flush C p w = (p1, w1, y1)" by (cases "pump_poll_flush C p w")
  note fl = flush_mailbox [OF assms(1) f, of b run c c']
  have p: "p' = p1"
    using assms(2) f by (auto simp: pump_poll_close_def split: poll.splits sum.splits option.splits prod.splits)
  from phase_close [OF assms] consider "view w' = view w" | "view w' = (view w)\<lparr>lk_tx := False\<rparr>" by blast
  then show ?thesis
  proof cases
    case 1
    with fl p show ?thesis by (auto simp: mailbox_of_def)
  next
    case 2
    have "mailbox_of view (w', p', run, c') = (mailbox_of view (w1, p1, run, c'))\<lparr>mb_open := False\<rparr>"
      using fl p 2 by (simp add: mailbox_of_def phase_of_def cong: option.case_cong list.case_cong)
    moreover have "mailbox_run b (mailbox_of view (w, p, run, c)) (settlement C p w) (mailbox_of view (w1, p1, run, c'))"
      using fl by blast
    ultimately show ?thesis
      using mailbox_run.More [OF _ mailbox_step.Close, of b "mailbox_of view (w, p, run, c)" "settlement C p w"] by fastforce
  qed
qed

lemma turn_mailbox:
  assumes "pump_phase (view w) p rdy es" "lk_rx (view w)"
    and "task_event C interval w = Some (w1, ev)" "pump_turn B C X ev w1 = (w2, go)"
  shows "mailbox_run (interval \<noteq> None) (mailbox_of view (w, p, True, c))
    (turn_obs B X ev w1 @ (if go then [] else [Exited]))
    (mailbox_of view (if go then w2 else pump_exit C X w2, p, go, c'))"
proof (cases "lk_queue (view w)")
  case (Cons x q)
  with assms(1) obtain k it where k: "pu_pending p = Some k" "lk_slot (view w) k = Waiting" "lk_queue (view w) = [(it, k)]"
    by (auto simp: pump_phase_def split: option.splits)
  have ev: "ev = Next (Some (it, k))" "view w1 = (view w)\<lparr>lk_queue := []\<rparr>"
    using task_event_item [OF k(3) assms(3)] by simp_all
  obtain r bs where r: "snd (fw_send X (encode_outgoing B it) w1) = r" "go = (r = Inr ())"
    "view w2 = (view w1)\<lparr>lk_sent := lk_sent (view w1) @ bs, lk_slot := (lk_slot (view w1))(k := Answered r)\<rparr>"
    "r = Inr () \<longrightarrow> bs = wire_item it"
    using turn_item [of w1 k it w2 go] assms(4) ev k(2) by auto
  have obs: "turn_obs B X ev w1 = [Wrote it r]" by (simp add: turn_obs_def ev(1) r(1))
  have t: "mb_phase (mailbox_of view (w, p, True, c)) = Taken it" using k by (simp add: phase_of_def)
  have q2: "lk_queue (view w2) = []" using r(3) ev(2) by simp
  show ?thesis
  proof (cases r)
    case (Inl e)
    then have "mailbox_of view (pump_exit C X w2, p, False, c') =
        (mailbox_of view (w, p, True, c))\<lparr>mb_phase := Finished (Inl e), mb_running := False\<rparr>"
      using exit_view [OF q2] r(3) ev(2) k(1) by (simp add: mailbox_of_def phase_of_def)
    with Inl r(2) obs mailbox_one [OF mailbox_step.Fail [OF t]] show ?thesis by simp
  next
    case (Inr u)
    then have "mailbox_of view (w2, p, True, c') =
        (mailbox_of view (w, p, True, c))\<lparr>mb_phase := Finished (Inr ())\<rparr>"
      using r(3) ev(2) k(1) by (simp add: mailbox_of_def phase_of_def)
    with Inr r(2) obs mailbox_one [OF mailbox_step.Serve [OF t]] show ?thesis by simp
  qed
next
  case Nil
  let ?m = "mailbox_of view (w, p, True, c)"
  have nt: "\<not> taken (mb_phase ?m)"
    using Nil by (simp add: phase_of_def split: option.split slot.split)
  note ev = task_event_idle [OF Nil assms(3)]
  have same: "phase_of v p = phase_of (view w) p" if "lk_queue v = []" "lk_slot v = lk_slot (view w)" for v
    using that Nil by (cases "pu_pending p") (simp_all add: phase_of_def)
  from ev consider "ev = Elapsed" "interval \<noteq> None" "lk_tx (view w)" | "ev = Next None" "\<not> lk_tx (view w)"
    by blast
  then show ?thesis
  proof cases
    case 1
    obtain r bs where r: "snd (fw_send X (encode_heartbeat B) w1) = r" "go = (r = Inr ())"
      "view w2 = (view w1)\<lparr>lk_sent := lk_sent (view w1) @ bs\<rparr>" "r = Inr () \<longrightarrow> bs = [LF]"
      using turn_beat [of w1 w2 go] assms(4) 1(1) by auto
    have obs: "turn_obs B X ev w1 = [Beat r]" using 1(1) r(1) by (simp add: turn_obs_def)
    have q2: "lk_queue (view w2) = []" using r(3) ev Nil by simp
    show ?thesis
    proof (cases r)
      case (Inl e)
      then have "mailbox_of view (pump_exit C X w2, p, False, c') = ?m\<lparr>mb_running := False\<rparr>"
        using exit_view [OF q2] r(3) ev Nil same [of "view (pump_exit C X w2)"] by (simp add: mailbox_of_def)
      with Inl r(2) obs mailbox_one [OF mailbox_step.Lose [OF 1(2) nt]] 1(3) show ?thesis by simp
    next
      case (Inr u)
      then have "mailbox_of view (w2, p, True, c') = ?m"
        using r(3) ev Nil same [of "view w2"] by (simp add: mailbox_of_def)
      with Inr r(2) obs mailbox_one [OF mailbox_step.Keep_Alive [OF 1(2) nt]] 1(3) show ?thesis by simp
    qed
  next
    case 2
    with assms(4) have t: "w2 = w1" "\<not> go" "turn_obs B X ev w1 = []" by (simp_all add: pump_turn_def turn_obs_def)
    have q1: "lk_queue (view w1) = []" using ev Nil by simp
    have "mailbox_of view (pump_exit C X w1, p, False, c') = ?m\<lparr>mb_running := False\<rparr>"
      using exit_view [OF q1] ev Nil same [of "view (pump_exit C X w1)"] by (simp add: mailbox_of_def)
    with t mailbox_one [OF mailbox_step.Stop [OF nt]] 2(2) show ?thesis by simp
  qed
qed

lemma step_mailbox:
  assumes "pump_inv view s0 s es" "pump_step B C X interval s fs s2"
  shows "mailbox_run (interval \<noteq> None) (mailbox_of view s) fs (mailbox_of view s2)"
  using assms(2)
proof (cases rule: pump_step.cases)
  case (Ready_Step p w p' w' y run rdy)
  with assms(1) show ?thesis by (auto simp: pump_inv_def intro: ready_mailbox)
next
  case (Start_Step item p w p' w' y run)
  with assms(1) have "pump_phase (view w) p True es" "lk_rx (view w) = run"
    by (simp_all add: pump_inv_def pump_task_ok_def)
  with start_mailbox [OF _ Start_Step(4)] show ?thesis unfolding Start_Step(1-3) by blast
next
  case (Flush_Step p w p' w' y run rdy)
  with assms(1) flush_mailbox show ?thesis by (auto simp: pump_inv_def)
next
  case (Close_Step p w p' w' y run rdy)
  with assms(1) show ?thesis by (auto simp: pump_inv_def intro: close_mailbox)
next
  case (Turn_Step w w1 ev w2 go p rdy)
  with assms(1) have "pump_phase (view w) p rdy es" "lk_rx (view w)"
    by (simp_all add: pump_inv_def pump_task_ok_def)
  with Turn_Step turn_mailbox show ?thesis by blast
qed

lemma run_mailbox:
  assumes "pump_run B C X interval s es s2" "pump_fresh view s"
  shows "mailbox_run (interval \<noteq> None) (mailbox_of view s) es (mailbox_of view s2)"
  using assms
proof (induction rule: pump_run.induct)
  case (Run_Refl s)
  show ?case by (rule mailbox_run.Stay)
next
  case (Run_Step s es s1 fs s2)
  from step_mailbox [OF inv_run [OF Run_Step(1,4)] Run_Step(2)] Run_Step(3) [OF Run_Step(4)]
  show ?case by (rule mailbox_append)
qed

end

section \<open>The refinement\<close>



text \<open>What the mailbox promises in turn: it settles an item before it takes the next.\<close>

definition mailbox_owes :: "mailbox \<Rightarrow> nat" where
  "mailbox_owes m = (case mb_phase m of Free \<Rightarrow> 0 | _ \<Rightarrow> 1)"

lemma mailbox_step_balance:
  "mailbox_step b m fs m' \<Longrightarrow>
    length (accepted fs) + mailbox_owes m = length (settled fs) + mailbox_owes m'"
  by (induction rule: mailbox_step.induct) (simp_all add: mailbox_owes_def)

lemma mailbox_run_balance:
  "mailbox_run b m es m' \<Longrightarrow>
    length (accepted es) + mailbox_owes m = length (settled es) + mailbox_owes m'"
  by (induction rule: mailbox_run.induct) (auto dest: mailbox_step_balance)

end
