(* ===== verification/Keep_Alive.thy ===== *)
theory Keep_Alive
  imports Sim_Channels Transport
begin

text \<open>
  How often a pumped connection transmits. \<open>pump_cycle\<close> is one round of the loop of
  \<open>write_pump\<close>, the wait included; \<open>pump_clock\<close> adds a clock to the libraries below; the
  lemmas bound the silence between two transmissions and show that the task beats no
  more often than agreed.
\<close>

section \<open>Rounds of the task\<close>

definition pump_cycle :: "'b bytes_mut \<Rightarrow> ('w, 'k) channels \<Rightarrow> ('w, 'b) framed_writer \<Rightarrow>
    (duration \<Rightarrow> 'w \<Rightarrow> 'w \<times> 'k pump_event) \<Rightarrow> ('w \<Rightarrow> 'w \<times> (outgoing \<times> 'k) option) \<Rightarrow>
    duration option \<Rightarrow> 'w \<Rightarrow> 'k pump_event \<times> 'w \<times> bool" where
  "pump_cycle B C X timeout_next recv interval w =
    (case (case interval of
             Some period \<Rightarrow> timeout_next period w
           | None \<Rightarrow> (case recv w of (w, n) \<Rightarrow> (w, Next n))) of
       (w, ev) \<Rightarrow> (ev, pump_turn B C X ev w))"

lemma write_pump_cycle:
  "write_pump B C X timeout_next recv interval w =
    (case pump_cycle B C X timeout_next recv interval w of
       (ev, w, go) \<Rightarrow> if go then write_pump B C X timeout_next recv interval w else Some (pump_exit C X w))"
  by (subst write_pump.simps) (simp add: pump_cycle_def case_prod_beta split: option.split)

text \<open>The first \<open>n\<close> rounds: what was waited for, and when the write that followed was done.\<close>

primrec pump_log :: "'b bytes_mut \<Rightarrow> ('w, 'k) channels \<Rightarrow> ('w, 'b) framed_writer \<Rightarrow>
    (duration \<Rightarrow> 'w \<Rightarrow> 'w \<times> 'k pump_event) \<Rightarrow> ('w \<Rightarrow> 'w \<times> (outgoing \<times> 'k) option) \<Rightarrow> ('w \<Rightarrow> nat) \<Rightarrow>
    duration option \<Rightarrow> nat \<Rightarrow> 'w \<Rightarrow> ('k pump_event \<times> nat) list" where
  "pump_log B C X timeout_next recv now interval 0 w = []"
| "pump_log B C X timeout_next recv now interval (Suc n) w =
    (case pump_cycle B C X timeout_next recv interval w of
       (ev, w, go) \<Rightarrow>
         if go then (ev, now w) # pump_log B C X timeout_next recv now interval n w else [])"

text \<open>The log stops short only when the task has ended.\<close>

lemma pump_log_ends:
  "length (pump_log B C X timeout_next recv now interval n w) < n \<Longrightarrow>
   \<exists>w'. write_pump B C X timeout_next recv interval w = Some w'"
proof (induction n arbitrary: w)
  case (Suc n)
  obtain ev w1 go where c: "pump_cycle B C X timeout_next recv interval w = (ev, w1, go)"
    by (cases "pump_cycle B C X timeout_next recv interval w")
  with Suc show ?case
    by (cases go) (auto simp: write_pump_cycle [of B C X timeout_next recv interval w])
qed simp

text \<open>
  \<open>spaced lo hi t es\<close>: counted from \<open>t\<close>, each transmission is at most \<open>hi\<close> after the one
  before, and a heart-beat of the task's own at least \<open>lo\<close>.
\<close>

fun spaced :: "nat \<Rightarrow> nat \<Rightarrow> nat \<Rightarrow> ('k pump_event \<times> nat) list \<Rightarrow> bool" where
  "spaced lo hi t [] \<longleftrightarrow> True"
| "spaced lo hi t ((ev, u) # es) \<longleftrightarrow>
    t \<le> u \<and> u \<le> t + hi \<and> (ev = Elapsed \<longrightarrow> t + lo \<le> u) \<and> spaced lo hi u es"

lemma spaced_mono: "spaced lo hi t es \<Longrightarrow> hi \<le> hi' \<Longrightarrow> spaced lo hi' t es"
  by (induction lo hi t es rule: spaced.induct) auto

section \<open>A clock\<close>

text \<open>
  \<open>tokio::time::timeout\<close> waits for the next item for at most the period, \<open>late\<close> being how
  long after its deadline a timer may fire; a write takes at most \<open>busy\<close>; answering a
  one-shot takes no time. All in nanoseconds.
\<close>

locale pump_clock =
  fixes C :: "('w, 'k) channels" and X :: "('w, 'b) framed_writer" and now :: "'w \<Rightarrow> nat"
    and timeout_next :: "duration \<Rightarrow> 'w \<Rightarrow> 'w \<times> 'k pump_event" and late :: nat and busy :: nat
  assumes item_in_time: "timeout_next d w = (w', Next n) \<Longrightarrow>
        now w \<le> now w' \<and> now w' \<le> now w + as_nanos d + late"
    and timer_fires: "timeout_next d w = (w', Elapsed) \<Longrightarrow>
        now w + as_nanos d \<le> now w' \<and> now w' \<le> now w + as_nanos d + late"
    and write_time: "fw_send X enc w = (w', r) \<Longrightarrow> now w \<le> now w' \<and> now w' \<le> now w + busy"
    and answer_time: "now (os_send C k r w) = now w"
begin

lemma turn_time:
  assumes "pump_turn B C X ev w = (w', True)"
  shows "now w \<le> now w' \<and> now w' \<le> now w + busy"
proof -
  obtain enc v r where s: "fw_send X enc w = (v, r)" "now w' = now v"
  proof (cases ev)
    case Elapsed
    with assms that [of "encode_heartbeat B" w' "Inr ()"] show thesis
      by (auto simp: pump_turn_def split: prod.splits sum.splits)
  next
    case (Next n)
    then obtain it k where n: "n = Some (it, k)"
      using assms by (cases n) (auto simp: pump_turn_def)
    obtain v r where "fw_send X (encode_outgoing B it) w = (v, r)"
      by (cases "fw_send X (encode_outgoing B it) w")
    with assms Next n that show thesis by (auto simp: pump_turn_def answer_time)
  qed
  from write_time [OF s(1)] s(2) show ?thesis by simp
qed

lemma log_spaced:
  "spaced (as_nanos d) (as_nanos d + late + busy) (now w)
    (pump_log B C X timeout_next recv now (Some d) n w)"
proof (induction n arbitrary: w)
  case (Suc n)
  obtain v ev where e: "timeout_next d w = (v, ev)" by (cases "timeout_next d w")
  obtain w1 go where t: "pump_turn B C X ev v = (w1, go)" by (cases "pump_turn B C X ev v")
  have c: "pump_cycle B C X timeout_next recv (Some d) w = (ev, w1, go)"
    by (simp add: pump_cycle_def e t)
  show ?case
  proof (cases go)
    case True
    have "now v \<le> now w1" "now w1 \<le> now v + busy" using turn_time [of B ev v w1] t True by auto
    moreover have "now w \<le> now v" "now v \<le> now w + as_nanos d + late"
      "ev = Elapsed \<longrightarrow> now w + as_nanos d \<le> now v"
      using item_in_time [of d w v] timer_fires [of d w v] e by (cases ev; auto)+
    ultimately show ?thesis using c True Suc.IH [of w1] by auto
  qed (simp add: c)
qed simp

end

section \<open>A clocked simulation\<close>

text \<open>The simulated channel and writer with a clock beside them: a write takes one nanosecond.\<close>

definition clocked :: "('w \<Rightarrow> 'w \<times> 'y) \<Rightarrow> 'w \<times> nat \<Rightarrow> ('w \<times> nat) \<times> 'y" where
  "clocked f w = (case w of (v, t) \<Rightarrow> (case f v of (v, y) \<Rightarrow> ((v, t), y)))"

definition clocked_channels :: "(chan_sim \<times> nat, nat) channels" where
  "clocked_channels =
    \<lparr>ch_poll_ready = clocked (ch_poll_ready sim_channels),
     ch_start_send = (\<lambda>x. clocked (ch_start_send sim_channels x)),
     ch_close = (\<lambda>(v, t). (ch_close sim_channels v, t)),
     ch_recv = clocked (ch_recv sim_channels),
     ch_drop_rx = (\<lambda>(v, t). (ch_drop_rx sim_channels v, t)),
     os_channel = clocked (os_channel sim_channels),
     os_send = (\<lambda>k r (v, t). (os_send sim_channels k r v, t)),
     os_poll = (\<lambda>k. clocked (os_poll sim_channels k))\<rparr>"

definition clocked_writer :: "(chan_sim \<times> nat, vec_buf) framed_writer" where
  "clocked_writer =
    \<lparr>fw_send = (\<lambda>enc (v, t). case fw_send sim_writer enc v of (v, r) \<Rightarrow> ((v, Suc t), r)),
     fw_close = clocked (fw_close sim_writer)\<rparr>"

definition clocked_timeout :: "duration \<Rightarrow> chan_sim \<times> nat \<Rightarrow> (chan_sim \<times> nat) \<times> nat pump_event" where
  "clocked_timeout d w =
    (case w of (v, t) \<Rightarrow>
       (case ch_recv sim_channels v of
          (v, Ready n) \<Rightarrow> ((v, t), Next n)
        | (v, Pending) \<Rightarrow> ((v, t + as_nanos d), Elapsed)))"

interpretation ticking: pump_clock clocked_channels clocked_writer snd clocked_timeout 0 1
  by unfold_locales
    (auto simp: clocked_timeout_def clocked_writer_def clocked_channels_def split: prod.splits poll.splits)

section \<open>Keeping a session alive\<close>



end
