(* ===== verification/Supervised_Peer.thy ===== *)
theory Supervised_Peer
  imports Keep_Alive Transport_Properties
begin

text \<open>
  The two ends of the heart-beats together: the task of one peer that transmits
  (\<open>Keep_Alive\<close>) and the stream of the other that watches for it (\<open>Transport\<close>).
\<close>

text \<open>The times at which the task was done transmitting, counted from the one it starts at.\<close>

definition transmissions :: "'b bytes_mut \<Rightarrow> ('w, 'k) channels \<Rightarrow> ('w, 'b) framed_writer \<Rightarrow>
    (duration \<Rightarrow> 'w \<Rightarrow> 'w \<times> 'k pump_event) \<Rightarrow> ('w \<Rightarrow> 'w \<times> (outgoing \<times> 'k) option) \<Rightarrow> ('w \<Rightarrow> nat) \<Rightarrow>
    duration \<Rightarrow> nat \<Rightarrow> 'w \<Rightarrow> nat list" where
  "transmissions B C X timeout_next recv now d n w =
    now w # map snd (pump_log B C X timeout_next recv now (Some d) n w)"

lemma spaced_gap:
  assumes "spaced lo hi t es" "Suc i < length (t # map snd es)"
  shows "(t # map snd es) ! Suc i \<le> (t # map snd es) ! i + hi"
  using assms
proof (induction lo hi t es arbitrary: i rule: spaced.induct)
  case (2 lo hi t ev u es)
  then show ?case by (cases i) auto
qed simp

lemma transmissions_gap:
  assumes "pump_clock C X now timeout_next late busy"
    and "Suc i < length (transmissions B C X timeout_next recv now d n w)"
  shows "transmissions B C X timeout_next recv now d n w ! Suc i \<le>
    transmissions B C X timeout_next recv now d n w ! i + as_nanos d + late + busy"
  using spaced_gap [OF pump_clock.log_spaced [OF assms(1), where d = d and w = w and B = B and recv = recv and n = n],
      of i] assms(2)
  by (simp add: transmissions_def)


lemma sample_transmissions:
  "transmissions vec_bytes_mut clocked_channels clocked_writer clocked_timeout (\<lambda>w. (w, None)) snd (Nanos 5) 1
    (chan_sim_init, 0) = [0, 6]"
  by (simp add: transmissions_def pump_cycle_def pump_turn_def clocked_timeout_def clocked_writer_def
      clocked_def sim_channels_def sim_writer_def chan_sim_init_def encode_heartbeat_def)


end
