(* ===== verification/Printing.thy ===== *)
theory Printing
  imports Builders Rust_Text
begin

text \<open>
  How values are shown: the hand-written \<open>Debug\<close> code of \<open>src/lib.rs\<close> and
  \<open>src/client.rs\<close>, over the standard library's formatting of numbers, options, lists and
  durations.
\<close>

section \<open>The standard library's formats\<close>

fun separated :: "rstring \<Rightarrow> rstring list \<Rightarrow> rstring" where
  "separated sep [] = []"
| "separated sep [x] = x"
| "separated sep (x # y # xs) = x @ sep @ separated sep (y # xs)"

definition debug_option :: "('a \<Rightarrow> rstring) \<Rightarrow> 'a option \<Rightarrow> rstring" where
  "debug_option f x = (case x of None \<Rightarrow> ''None'' | Some v \<Rightarrow> ''Some('' @ f v @ '')'')"

definition debug_byte_vec :: "bytes \<Rightarrow> rstring" where
  "debug_byte_vec b = ''['' @ separated '', '' (map (\<lambda>c. decimal (of_char c)) b) @ '']''"

text \<open>
  \<open>Debug\<close> of a \<open>Duration\<close>: in the largest unit with a whole part, with the fraction's digits
  up to the last that is not zero.
\<close>

primrec fraction_digits :: "nat \<Rightarrow> nat \<Rightarrow> bytes" where
  "fraction_digits 0 f = []"
| "fraction_digits (Suc n) f =
    (if f = 0 then [] else digit_byte (f div 10 ^ n) # fraction_digits n (f mod 10 ^ n))"

definition fmt_decimal :: "nat \<Rightarrow> nat \<Rightarrow> nat \<Rightarrow> rstring \<Rightarrow> rstring" where
  "fmt_decimal whole fraction digits unit_text =
    decimal whole @ (if fraction = 0 then [] else CHR ''.'' # fraction_digits digits fraction) @ unit_text"

definition debug_duration :: "duration \<Rightarrow> rstring" where
  "debug_duration d =
    (let n = as_nanos d in
     if 10 ^ 9 \<le> n then fmt_decimal (n div 10 ^ 9) (n mod 10 ^ 9) 9 ''s''
     else if 10 ^ 6 \<le> n then fmt_decimal (n div 10 ^ 6) (n mod 10 ^ 6) 6 ''ms''
     else if 10 ^ 3 \<le> n then fmt_decimal (n div 10 ^ 3) (n mod 10 ^ 3) 3 [CHR 0xC2, CHR 0xB5, CHR ''s'']
     else fmt_decimal n 0 0 ''ns'')"

section \<open>The formats of the crate\<close>

definition pretty_bytes :: "bytes option \<Rightarrow> rstring" where
  "pretty_bytes b = (case b of Some v \<Rightarrow> from_utf8_lossy v | None \<Rightarrow> ''None'')"

primrec debug_transport_stream :: "('tcp, 'tls) transport_stream \<Rightarrow> rstring" where
  "debug_transport_stream (Plain s) = ''Plain TCP connection''"
| "debug_transport_stream (Tls s) = ''TLS connection''"

text \<open>\<open>debug_struct(..).finish_non_exhaustive()\<close> on one line.\<close>

definition debug_client_transport :: "client_transport \<Rightarrow> rstring" where
  "debug_client_transport self =
    ''ClientTransport { outgoing: '' @ debug_option debug_duration (ct_outgoing self) @
    '', incoming: '' @ debug_option debug_duration (ct_incoming self) @ '', .. }''"

section \<open>What they show\<close>

lemma pretty_bytes_utf8: "utf8_valid (pretty_bytes b)"
proof (cases b)
  case None
  then show ?thesis
    by (simp add: pretty_bytes_def) (rule utf8_valid_ascii, simp add: ascii_def byte_in_def)
qed (simp add: pretty_bytes_def)

lemma pretty_bytes_text: "utf8_valid v \<Longrightarrow> pretty_bytes (Some v) = v"
  by (simp add: pretty_bytes_def from_utf8_lossy_valid)

text \<open>
  An empty body and a body that spells the word look the same: printing is for readers,
  not a representation.
\<close>

lemma pretty_bytes_ambiguous: "pretty_bytes None = pretty_bytes (Some ''None'')"
  using utf8_valid_ascii [of "''None''"] by (simp add: pretty_bytes_def from_utf8_lossy_valid ascii_def byte_in_def)

lemma debug_duration_seconds: "0 < n \<Longrightarrow> debug_duration (from_millis (1000 * n)) = decimal n @ ''s''"
  by (simp add: debug_duration_def fmt_decimal_def Let_def)

lemma debug_duration_millis:
  "0 < n \<Longrightarrow> n < 1000 \<Longrightarrow> debug_duration (from_millis n) = decimal n @ ''ms''"
  by (simp add: debug_duration_def fmt_decimal_def Let_def)

text \<open>No fraction ends in a zero, and a fraction is read back as what it was.\<close>

lemma fraction_digits_last: "f < 10 ^ n \<Longrightarrow> f \<noteq> 0 \<Longrightarrow> last (fraction_digits n f) \<noteq> digit_byte 0"
proof (induction n arbitrary: f)
  case (Suc n)
  have "f div 10 ^ n < 10" using Suc.prems(1) by (simp add: less_mult_imp_div_less mult.commute)
  show ?case
  proof (cases "f mod 10 ^ n = 0")
    case True
    then have "f div 10 ^ n \<noteq> 0" using Suc.prems(2) by (metis div_mult_mod_eq mult_zero_left add_0)
    with True Suc.prems \<open>f div 10 ^ n < 10\<close> show ?thesis by (cases n) (auto simp: digit_byte_def)
  next
    case False
    have "f mod 10 ^ n < 10 ^ n" by simp
    from Suc.IH [OF this False] False have "fraction_digits n (f mod 10 ^ n) \<noteq> []" by (cases n) auto
    with Suc.IH [OF \<open>f mod 10 ^ n < 10 ^ n\<close> False] Suc.prems show ?thesis by simp
  qed
qed simp

end
