(* ===== verification/Examples.thy ===== *)
theory Examples
  imports Printing Disconnect Connection_Properties
begin

text \<open>
  The programs of \<open>src/examples/\<close> that await one thing after the other, over what they use
  of the crate and of the terminal (\<open>app\<close>), and that library with the crate's own \<open>connect\<close>,
  codec and builders below it (\<open>direct_app\<close>). The lemmas say what the programs print. The
  two programs that poll futures are in \<open>Tasks\<close> and the theories after it.
\<close>

section \<open>Programs\<close>

text \<open>How a program ends: it returns, \<open>bail!\<close>s with a text, or panics.\<close>

datatype exit = Exit "unit result" | Bailed rstring | Panicked

record ('w, 'c) app =
  app_connect :: "(rstring, rstring) connector \<Rightarrow> ('w, 'c) io"
  app_send :: "'c \<Rightarrow> to_server message \<Rightarrow> ('w, unit) io"
  app_next :: "'c \<Rightarrow> ('w, from_server message option) io"
  app_next_within :: "duration \<Rightarrow> 'c \<Rightarrow> 'w \<Rightarrow> 'w \<times> from_server message option result option"
  app_heartbeat :: "'c \<Rightarrow> intervals"
  app_println :: "rstring \<Rightarrow> 'w \<Rightarrow> 'w"
  app_eprintln :: "rstring \<Rightarrow> 'w \<Rightarrow> 'w"
  app_sleep :: "duration \<Rightarrow> 'w \<Rightarrow> 'w"
  app_debug_str :: "rstring \<Rightarrow> rstring"
  app_debug_message :: "from_server message \<Rightarrow> rstring"
  app_display_error :: "stomp_error \<Rightarrow> rstring"

type_synonym 'w program = "'w \<Rightarrow> ('w \<times> exit) option"

text \<open>\<open>?\<close> and \<open>unwrap\<close> (or \<open>expect\<close>) on what an awaited operation returned.\<close>

definition try_then :: "('w, 'a) io \<Rightarrow> ('a \<Rightarrow> 'w program) \<Rightarrow> 'w program" where
  "try_then p k w = (case p w of (w, Inl e) \<Rightarrow> Some (w, Exit (Inl e)) | (w, Inr x) \<Rightarrow> k x w)"

definition unwrap_then :: "('w, 'a) io \<Rightarrow> ('a \<Rightarrow> 'w program) \<Rightarrow> 'w program" where
  "unwrap_then p k w = (case p w of (w, Inl e) \<Rightarrow> Some (w, Panicked) | (w, Inr x) \<Rightarrow> k x w)"

definition do_then :: "('w \<Rightarrow> 'w) \<Rightarrow> 'w program \<Rightarrow> 'w program" where
  "do_then g k w = k (g w)"

definition return_ok :: "'w program" where
  "return_ok w = Some (w, Exit (Inr ()))"

lemmas program_defs = try_then_def do_then_def unwrap_then_def return_ok_def

definition guest_connector :: "(rstring, rstring) connector" where
  "guest_connector =
    set_passcode ''guest'' (set_login ''guest''
      (set_virtualhost ''/'' (set_server ''127.0.0.1:61613'' connector_builder)))"

definition subscribe_to :: "rstring \<Rightarrow> rstring \<Rightarrow> to_server message" where
  "subscribe_to destination i =
    subscribe (\<lambda>s. s) (\<lambda>s. s) (sub_id i (sub_destination destination subscriber_builder))"

definition greeting :: "rstring \<Rightarrow> bytes \<Rightarrow> to_server message" where
  "greeting destination body = message_from (Send destination None None (Some body))"

section \<open>send_message\<close>

definition send_message_main :: "('w, 'c) app \<Rightarrow> 'w program" where
  "send_message_main A =
    unwrap_then (app_connect A guest_connector) (\<lambda>conn.
    unwrap_then (app_send A conn (greeting ''queue.test'' ''Hello there rustaceans!'')) (\<lambda>_.
    return_ok))"

section \<open>receive_message\<close>

partial_function (option) receive_message_loop :: "('w, 'c) app \<Rightarrow> 'c \<Rightarrow> 'w program" where
  "receive_message_loop A conn w =
    (case app_next A conn w of (w, item) \<Rightarrow>
       (case item of
          Inr None \<Rightarrow> Some (w, Exit (Inr ()))
        | Inl e \<Rightarrow> Some (w, Panicked)
        | Inr (Some m) \<Rightarrow>
            (case content m of
               Msg destination message_id subscription ack headers body \<Rightarrow>
                 receive_message_loop A conn
                   (app_println A message_id (app_println A (debug_option debug_byte_vec body) w))
             | Connected v s sv hb \<Rightarrow> receive_message_loop A conn w
             | Receipt r \<Rightarrow> receive_message_loop A conn w
             | Error t b \<Rightarrow> receive_message_loop A conn w)))"

definition receive_message_main :: "('w, 'c) app \<Rightarrow> 'w program" where
  "receive_message_main A =
    unwrap_then (app_connect A guest_connector) (\<lambda>conn.
    unwrap_then (app_send A conn (subscribe_to ''queue.test'' ''custom-subscriber-id'')) (\<lambda>_.
    receive_message_loop A conn))"

section \<open>secure_connect\<close>

definition secure_connector :: "(rstring, rstring) connector" where
  "secure_connector =
    set_tls_server_name ''secure-stomp-server.example.com'' (set_use_tls True
      (set_passcode ''guest'' (set_login ''guest'' (set_virtualhost ''/''
        (set_server ''secure-stomp-server.example.com:61614'' connector_builder)))))"

definition secure_line :: "('w, 'c) app \<Rightarrow> from_server message \<Rightarrow> rstring" where
  "secure_line A m =
    (case content m of
       Msg destination message_id subscription ack headers body \<Rightarrow>
         (case body of
            Some b \<Rightarrow>
              ''Received message (id: '' @ message_id @ '') from '' @ destination @ '': '' @ from_utf8_lossy b
          | None \<Rightarrow> ''Received empty message (id: '' @ message_id @ '') from '' @ destination)
     | _ \<Rightarrow> ''Received non-message frame: '' @ app_debug_message A m)"

partial_function (option) secure_connect_loop :: "('w, 'c) app \<Rightarrow> 'c \<Rightarrow> 'w program" where
  "secure_connect_loop A conn w =
    (case app_next A conn w of (w, message_result) \<Rightarrow>
       (case message_result of
          Inr None \<Rightarrow> Some (app_println A ''Connection closed'' w, Exit (Inr ()))
        | Inl e \<Rightarrow>
            secure_connect_loop A conn
              (app_println A (''Error receiving message: '' @ app_display_error A e) w)
        | Inr (Some m) \<Rightarrow> secure_connect_loop A conn (app_println A (secure_line A m) w)))"

definition secure_connect_main :: "('w, 'c) app \<Rightarrow> 'w program" where
  "secure_connect_main A =
    do_then (app_println A ''Connecting to secure STOMP server with TLS...'') (
    try_then (app_connect A secure_connector) (\<lambda>conn.
    do_then (app_println A ''Connected to server'') (
    try_then (app_send A conn (subscribe_to ''secure.topic'' ''tls-subscriber-id'')) (\<lambda>_.
    do_then (app_println A ''Subscribed to secure.topic'') (
    do_then (app_println A ''Waiting for messages...'') (
    secure_connect_loop A conn))))))"

section \<open>heartbeat\<close>

partial_function (option) heartbeat_loop :: "('w, 'c) app \<Rightarrow> 'c \<Rightarrow> 'w \<Rightarrow> 'w option" where
  "heartbeat_loop A conn w =
    (case app_next_within A (from_millis 30000) conn w of (w, result) \<Rightarrow>
       (case result of
          Some (Inr (Some m)) \<Rightarrow>
            heartbeat_loop A conn
              (case content m of
                 Msg destination message_id subscription ack headers body \<Rightarrow>
                   app_println A (''Received: '' @ from_utf8_lossy (case body of None \<Rightarrow> [] | Some b \<Rightarrow> b)) w
               | _ \<Rightarrow> w)
        | Some (Inl e) \<Rightarrow> Some (app_eprintln A (''Connection lost: '' @ app_display_error A e) w)
        | Some (Inr None) \<Rightarrow> Some (app_eprintln A ''Server closed the connection'' w)
        | None \<Rightarrow>
            heartbeat_loop A conn (app_println A ''Still connected, nothing received in the last 30s'' w)))"

definition heartbeat_main :: "('w, 'c) app \<Rightarrow> 'w program" where
  "heartbeat_main A =
    try_then (app_connect A (set_heartbeat 5000 5000 guest_connector)) (\<lambda>conn.
    case app_heartbeat A conn of (outgoing, incoming) \<Rightarrow>
    do_then (app_println A (''Negotiated heart-beats: outgoing '' @ debug_option debug_duration outgoing @
      '', incoming '' @ debug_option debug_duration incoming)) (
    try_then (app_send A conn (subscribe_to ''rusty'' ''myid'')) (\<lambda>_ w.
    case heartbeat_loop A conn w of
      None \<Rightarrow> None
    | Some w \<Rightarrow>
        try_then (app_send A conn (message_from (Disconnect None))) (\<lambda>_. return_ok) w)))"

section \<open>The crate below the programs\<close>

text \<open>
  The operations of a connection that does not beat on its own, with the lines printed as
  part of the world. No read takes longer than a time-out, and sleeping only takes time.
\<close>

definition on_net :: "('w, 'a) io \<Rightarrow> ('w \<times> rstring list, 'a) io" where
  "on_net p s = (case s of (w, out) \<Rightarrow> (case p w of (w, r) \<Rightarrow> ((w, out), r)))"

definition print_line :: "rstring \<Rightarrow> 'w \<times> rstring list \<Rightarrow> 'w \<times> rstring list" where
  "print_line l s = (case s of (w, out) \<Rightarrow> (w, out @ [l]))"

primrec wiring_codec :: "wiring \<Rightarrow> client_codec" where
  "wiring_codec (Direct c) = c"
| "wiring_codec (Pumped c) = c"

definition direct_next :: "winnow \<Rightarrow> 'b bytes_mut \<Rightarrow> ('w, 'b) framing \<Rightarrow> client_transport \<Rightarrow>
    ('w, from_server message option) io" where
  "direct_next W B N conn = fr_next N (decode W B (wiring_codec (ct_transport conn)))"

definition direct_app :: "winnow \<Rightarrow> 'b bytes_mut \<Rightarrow> ('w, rstring, 'tcp, 'tls, 'ip, 'dns) net \<Rightarrow>
    ('w, 'b) framing \<Rightarrow> (rstring \<Rightarrow> rstring) \<Rightarrow> (from_server message \<Rightarrow> rstring) \<Rightarrow>
    (stomp_error \<Rightarrow> rstring) \<Rightarrow> ('w \<times> rstring list, client_transport) app" where
  "direct_app W B net N debug_str debug_message display_error =
    \<lparr>app_connect = (\<lambda>self. on_net (connect W B net (\<lambda>_. N) (\<lambda>v. v) self)),
     app_send = (\<lambda>conn m. on_net (fr_send N (encode_message B m))),
     app_next = (\<lambda>conn. on_net (direct_next W B N conn)),
     app_next_within = (\<lambda>d conn s. case on_net (direct_next W B N conn) s of (s, r) \<Rightarrow> (s, Some r)),
     app_heartbeat = transport_heartbeat, app_println = print_line, app_eprintln = print_line,
     app_sleep = (\<lambda>d s. s), app_debug_str = debug_str, app_debug_message = debug_message,
     app_display_error = display_error\<rparr>"

lemma direct_app_simps [simp]:
  "app_connect (direct_app W B net N ds dm de) self (w, out) =
    (case connect W B net (\<lambda>_. N) (\<lambda>v. v) self w of (w, r) \<Rightarrow> ((w, out), r))"
  "app_send (direct_app W B net N ds dm de) conn m (w, out) =
    (case fr_send N (encode_message B m) w of (w, r) \<Rightarrow> ((w, out), r))"
  "app_next (direct_app W B net N ds dm de) conn (w, out) =
    (case direct_next W B N conn w of (w, r) \<Rightarrow> ((w, out), r))"
  "app_println (direct_app W B net N ds dm de) l (w, out) = (w, out @ [l])"
  by (simp_all add: direct_app_def on_net_def print_line_def)

text \<open>What \<open>receive_message\<close> prints for a message.\<close>

definition received_lines :: "from_server \<Rightarrow> rstring list" where
  "received_lines m =
    (case m of
       Msg destination message_id subscription ack headers body \<Rightarrow>
         [debug_option debug_byte_vec body, message_id]
     | _ \<Rightarrow> [])"

context message_source
begin

lemma receive_loop_prints:
  assumes quiet: "\<And>v v' y. next v = (v', y) \<Longrightarrow> g v' = g v"
    and n: "\<And>w out. app_next A conn (w, out) = (case next w of (w, r) \<Rightarrow> ((w, out), r))"
    and p: "\<And>l w out. app_println A l (w, out) = (w, out @ [l])"
  shows "holds w ms \<Longrightarrow> \<exists>w'. g w' = g w \<and>
    receive_message_loop A conn (w, out) =
      Some ((w', out @ concat (map received_lines ms)), Exit (Inr ()))"
proof (induction ms arbitrary: w out)
  case Nil
  then obtain w' where "next w = (w', Inr None)" using next_end by blast
  with quiet show ?case
    by (intro exI [of _ w']) (simp add: receive_message_loop.simps [of A conn "(w, out)"] n)
next
  case (Cons m ms)
  then obtain w1 ex where m: "next w = (w1, Inr (Some \<lparr>content = m, extra_headers = ex\<rparr>))" "holds w1 ms"
    using next_message by blast
  obtain w' where w': "g w' = g w1" "receive_message_loop A conn (w1, out @ received_lines m) =
      Some ((w', (out @ received_lines m) @ concat (map received_lines ms)), Exit (Inr ()))"
    using Cons.IH [OF m(2)] by blast
  have "receive_message_loop A conn (w, out) = receive_message_loop A conn (w1, out @ received_lines m)"
    by (cases m) (simp_all add: receive_message_loop.simps [of A conn "(w, out)"] n p m(1) received_lines_def)
  with w' quiet [OF m(1)] show ?case by (intro exI [of _ w']) simp
qed

end

lemma guest_connector_simps [simp]:
  "cn_server guest_connector = ''127.0.0.1:61613''" "cn_use_tls guest_connector = False"
  "cn_heartbeat guest_connector = None" "connector_beats guest_connector = False"
  "cn_max_frame_size guest_connector = DEFAULT_MAX_FRAME_SIZE" "cn_auto_heartbeat guest_connector"
  by (simp_all add: guest_connector_def connector_builder_def set_server_def set_virtualhost_def
      set_login_def set_passcode_def connector_beats_def)

text \<open>
  A server that the programs can talk to: it accepts the CONNECT of a guest, sends the
  conforming items \<open>ps\<close> and ends the stream, cut into reads in any way.
\<close>

definition accepts_guest :: "('w \<Rightarrow> bool) \<Rightarrow> ('w \<Rightarrow> bytes) \<Rightarrow> ('w \<Rightarrow> bytes list) \<Rightarrow>
    (bytes \<times> from_server) list \<Rightarrow> 'w \<Rightarrow> bool" where
  "accepts_guest healthy unread inbox ps w \<longleftrightarrow>
    healthy w \<and> unread w = [] \<and> list_all server_item_ok ps \<and>
    length (concat (inbox w)) \<le> DEFAULT_MAX_FRAME_SIZE \<and>
    (\<exists>es s sv hb iv trail.
       server_item_ok (es, Connected ''1.2'' s sv hb) \<and> list_all is_eol trail \<and>
       accept_connected (Some \<lparr>content = Connected ''1.2'' s sv hb, extra_headers = []\<rparr>) None = Inr iv \<and>
       concat (inbox w) =
         server_item (es, Connected ''1.2'' s sv hb) @ concat (map server_item ps) @ trail)"

lemma send_keeps:
  assumes "framing_lib B N sent pumps healthy unread inbox" "healthy w"
  obtains w' where "fr_send N (encode_message B m) w = (w', Inr ())" "healthy w'"
    "unread w' = unread w" "inbox w' = inbox w" "sent w' = sent w @ wire (message_to_frame m)"
proof -
  obtain w' where w': "fr_send N (encode_message B m) w = (w', Inr ())" "healthy w'"
    "unread w' = unread w" "inbox w' = inbox w"
    using framing_lib.send_succeeds [OF assms, of "encode_message B m"]
    by (auto simp: encode_message_def)
  moreover have "sent w' = sent w @ wire (message_to_frame m)"
    using framing_lib.send_writes [OF assms(1) w'(1)]
      bytes_mut_lib.serialize_bytes [OF framing_lib.axioms(1) [OF assms(1)]]
    by (auto simp: encode_message_def)
  ultimately show thesis by (rule that)
qed

text \<open>Connecting, and sending a first message.\<close>

lemma guest_connected:
  assumes "winnow_lib W" and "framing_lib B N sent pumps healthy unread inbox"
    and "net_tcp_connect net ''127.0.0.1:61613'' w = (w1, Inr tcp)"
    and "accepts_guest healthy unread inbox ps w1"
  obtains w2 conn where
    "connect W B net (\<lambda>_. N) (\<lambda>v. v) guest_connector w = (w2, Inr conn)"
    "ct_transport conn = Direct (with_max_frame_size DEFAULT_MAX_FRAME_SIZE)"
    "holds_bytes DEFAULT_MAX_FRAME_SIZE healthy unread inbox w2 (map snd ps)"
    "sent w2 = sent w1 @ wire (message_to_frame (connector_msg (\<lambda>v. v) guest_connector))"
proof -
  let ?limit = DEFAULT_MAX_FRAME_SIZE
  let ?cmsg = "connector_msg (\<lambda>v. v) guest_connector"
  obtain es s sv hb iv trail where srv: "server_item_ok (es, Connected ''1.2'' s sv hb)" "list_all is_eol trail"
    "accept_connected (Some \<lparr>content = Connected ''1.2'' s sv hb, extra_headers = []\<rparr>) None = Inr iv"
    "concat (inbox w1) = server_item (es, Connected ''1.2'' s sv hb) @ concat (map server_item ps) @ trail"
    and ok: "healthy w1" "unread w1 = []" "list_all server_item_ok ps" "length (concat (inbox w1)) \<le> ?limit"
    using assms(4) unfolding accepts_guest_def by blast
  obtain w2 where w2: "establish W B N ?cmsg None False ?limit w1 =
      (w2, Inr (Direct (with_max_frame_size ?limit), iv))"
    "holds_bytes ?limit healthy unread inbox w2 (map snd ps)"
    "sent w2 = sent w1 @ wire (message_to_frame ?cmsg)"
    by (rule handshake_holds [OF assms(1,2) ok(1,2) srv(1) ok(3) srv(2,4) ok(4) srv(3), where beats = False]) simp
  obtain p q where "iv = (p, q)" by (cases iv)
  then have "connect W B net (\<lambda>_. N) (\<lambda>v. v) guest_connector w =
      (w2, Inr (client_transport_new (Direct (with_max_frame_size ?limit)) p q True))"
    using w2(1) by (simp add: connect_def open_stream_def assms(3) ibind_def)
  with w2(2,3) show thesis using that by (simp add: client_transport_new_def)
qed

lemma guest_session:
  assumes "winnow_lib W" and "framing_lib B N sent pumps healthy unread inbox"
    and "net_tcp_connect net ''127.0.0.1:61613'' w = (w1, Inr tcp)"
    and "accepts_guest healthy unread inbox ps w1"
  obtains w2 w3 conn where
    "connect W B net (\<lambda>_. N) (\<lambda>v. v) guest_connector w = (w2, Inr conn)"
    "ct_transport conn = Direct (with_max_frame_size DEFAULT_MAX_FRAME_SIZE)"
    "fr_send N (encode_message B m) w2 = (w3, Inr ())"
    "holds_bytes DEFAULT_MAX_FRAME_SIZE healthy unread inbox w3 (map snd ps)"
    "sent w3 = sent w1 @ wire (message_to_frame (connector_msg (\<lambda>v. v) guest_connector)) @
      wire (message_to_frame m)"
proof -
  obtain w2 conn where c: "connect W B net (\<lambda>_. N) (\<lambda>v. v) guest_connector w = (w2, Inr conn)"
    "ct_transport conn = Direct (with_max_frame_size DEFAULT_MAX_FRAME_SIZE)"
    "holds_bytes DEFAULT_MAX_FRAME_SIZE healthy unread inbox w2 (map snd ps)"
    "sent w2 = sent w1 @ wire (message_to_frame (connector_msg (\<lambda>v. v) guest_connector))"
    by (rule guest_connected [OF assms])
  then have "healthy w2" by (simp add: holds_bytes_def)
  then obtain w3 where w3: "fr_send N (encode_message B m) w2 = (w3, Inr ())" "healthy w3"
    "unread w3 = unread w2" "inbox w3 = inbox w2" "sent w3 = sent w2 @ wire (message_to_frame m)"
    by (rule send_keeps [OF assms(2)])
  with that [OF c(1,2) w3(1) holds_bytes_cong [OF c(3) w3(2-4)]] c(4) show thesis by simp
qed

section \<open>What the programs do\<close>

text \<open>
  C28: the program \<open>receive_message\<close> prints what the server sent. Against any server that
  accepts the CONNECT, then sends conforming messages and heart-beats and closes, however
  its bytes are cut into reads, the program returns without an error; it has written the
  CONNECT and the SUBSCRIBE frame; and it has printed the body and the id of every
  MESSAGE, in order and once each, and nothing else.
\<close>

theorem receive_message_prints:
  assumes "winnow_lib W" and "framing_lib B N sent pumps healthy unread inbox"
    and "net_tcp_connect net ''127.0.0.1:61613'' w = (w1, Inr tcp)"
    and "accepts_guest healthy unread inbox ps w1"
  shows "\<exists>w'. receive_message_main (direct_app W B net N ds dm de) (w, out) =
      Some ((w', out @ concat (map received_lines (map snd ps))), Exit (Inr ())) \<and>
    sent w' = sent w1 @ wire (message_to_frame (connector_msg (\<lambda>v. v) guest_connector)) @
      wire (message_to_frame (subscribe_to ''queue.test'' ''custom-subscriber-id''))"
proof -
  let ?A = "direct_app W B net N ds dm de"
  let ?m = "subscribe_to ''queue.test'' ''custom-subscriber-id''"
  obtain w2 w3 conn where c: "connect W B net (\<lambda>_. N) (\<lambda>v. v) guest_connector w = (w2, Inr conn)"
    "ct_transport conn = Direct (with_max_frame_size DEFAULT_MAX_FRAME_SIZE)"
    "fr_send N (encode_message B ?m) w2 = (w3, Inr ())"
    "holds_bytes DEFAULT_MAX_FRAME_SIZE healthy unread inbox w3 (map snd ps)"
    "sent w3 = sent w1 @ wire (message_to_frame (connector_msg (\<lambda>v. v) guest_connector)) @
      wire (message_to_frame ?m)"
    by (rule guest_session [OF assms])
  have nx: "direct_next W B N conn = fr_next N (decode W B (with_max_frame_size DEFAULT_MAX_FRAME_SIZE))"
    by (simp add: direct_next_def c(2))
  obtain w' where w': "sent w' = sent w3" "receive_message_loop ?A conn (w3, out) =
      Some ((w', out @ concat (map received_lines (map snd ps))), Exit (Inr ()))"
    using message_source.receive_loop_prints [OF holds_bytes_source [OF assms(1,2)] _ _ _ c(4),
        of sent ?A conn out] framing_lib.next_quiet [OF assms(2)]
    by (auto simp: nx)
  have "receive_message_main ?A (w, out) = receive_message_loop ?A conn (w3, out)"
    by (simp add: receive_message_main_def unwrap_then_def c(1,3))
  with w' c(5) show ?thesis by (intro exI [of _ w']) simp
qed

definition guest_items :: "(bytes \<times> from_server) list" where
  "guest_items =
    [([LF], Msg ''q'' ''7'' ''s'' None
        [(''destination'', ''q''), (''message-id'', ''7''), (''subscription'', ''s'')] None)]"

definition guest_reads :: "bytes list" where
  "guest_reads = [server_item ([], Connected ''1.2'' None None None) @ concat (map server_item guest_items)]"

lemma guest_sample:
  "accepts_guest (\<lambda>w. \<not> sim_closed w) (\<lambda>w. vb_data (sim_buf w)) sim_in guest_items (sim_of guest_reads)"
proof -
  have a: "utf8_valid ''1.2''" "utf8_valid ''q''" "utf8_valid ''7''" "utf8_valid ''s''"
    "utf8_valid ''destination''" "utf8_valid ''message-id''" "utf8_valid ''subscription''"
    by (rule utf8_valid_ascii, simp add: ascii_def byte_in_def)+
  have items: "list_all server_item_ok guest_items"
    using a by (simp add: guest_items_def is_eol_def body_ok_def)
  have "server_item_ok ([], Connected ''1.2'' None None None)"
    using a by (simp add: no_eol_def opt_no_eol_def is_eol_def)
  moreover have "accept_connected (Some \<lparr>content = Connected ''1.2'' None None None, extra_headers = []\<rparr>) None =
      Inr (None, None)"
    by (simp add: accept_connected_def negotiate_def)
  moreover have "length (concat guest_reads) \<le> DEFAULT_MAX_FRAME_SIZE"
    by (simp add: guest_reads_def guest_items_def wire_def wire_header_def List.map_filter_def
        headers_are_escaped_def escape_byte_def DEFAULT_MAX_FRAME_SIZE_def)
  moreover have "concat guest_reads = server_item ([], Connected ''1.2'' None None None) @
      concat (map server_item guest_items) @ []"
    by (simp add: guest_reads_def)
  ultimately show ?thesis
    unfolding accepts_guest_def using items
    by (intro conjI exI [of _ "[]"] exI [of _ "None"] exI [of _ "(None, None)"]) (simp_all add: sim_of_def del: server_item_pair)
qed

theorem receive_message_prints_witness:
  "\<exists>w' :: sim. receive_message_main
      (direct_app winnow_ref vec_bytes_mut sample_net sim_net (\<lambda>s. s) (\<lambda>_. []) (\<lambda>_. [])) (sim_of guest_reads, []) =
      Some ((w', [] @ concat (map received_lines (map snd guest_items))), Exit (Inr ())) \<and>
    sim_sent w' = sim_sent (sim_of guest_reads) @
      wire (message_to_frame (connector_msg (\<lambda>v. v) guest_connector)) @
      wire (message_to_frame (subscribe_to ''queue.test'' ''custom-subscriber-id''))"
  by (rule receive_message_prints [OF wref.winnow_lib_axioms sim.framing_lib_axioms _ guest_sample])
    (simp add: sample_net_def)

end
