(* ===== verification/Tasks.thy ===== *)
theory Tasks
  imports Examples
begin

text \<open>
  Futures that are polled. An \<open>async\<close> block is a tree of what it awaits (\<open>task\<close>); polling
  it goes on until something it awaits is not ready (\<open>poll_task\<close>), and \<open>select\<close> polls two
  of them in turn until one has ended (\<open>select_run\<close>; the function of the crate \<open>futures\<close> is a
  parameter with that law, locale \<open>select_lib\<close>). What the tasks await is a record of
  poll functions (\<open>runtime\<close>), which may be pending as often as they like. \<open>watched\<close>
  records what happens; the main fact is that what happens under \<open>select\<close> is an
  interleaving of what either task does alone.
\<close>

section \<open>Tasks\<close>

text \<open>
  The last of each pair \<open>Sleep\<close>, \<open>Asleep\<close> and \<open>Sending\<close>, \<open>Flushing\<close> is the state of the
  awaited future after its first step: a timer with its deadline, a send whose item has
  been taken by the sink.
\<close>

codatatype 'c task =
    Stopped exit
  | Println rstring "'c task"
  | Sleep duration "'c task"
  | Asleep nat "'c task"
  | Opening "(rstring, rstring) connector" "'c result \<Rightarrow> 'c task"
  | Sending 'c "to_server message" "unit result \<Rightarrow> 'c task"
  | Flushing 'c "unit result \<Rightarrow> 'c task"
  | Receiving 'c "from_server message option result \<Rightarrow> 'c task"

definition exit_of :: "'c task \<Rightarrow> exit option" where
  "exit_of t = (case t of Stopped e \<Rightarrow> Some e | _ \<Rightarrow> None)"

lemma exit_of_simps [simp]:
  "exit_of (Stopped e) = Some e" "exit_of (Println l t) = None" "exit_of (Sleep d t) = None"
  "exit_of (Asleep n t) = None" "exit_of (Opening cn j) = None" "exit_of (Sending c m k) = None"
  "exit_of (Flushing c k) = None" "exit_of (Receiving c h) = None"
  by (simp_all add: exit_of_def)

lemma exit_of_Some: "exit_of t = Some e \<longleftrightarrow> t = Stopped e"
  by (cases t) auto

text \<open>
  The poll functions, \<open>None\<close> for \<open>Poll::Pending\<close>; of a task that connects, its number says
  whose connection attempt is polled. \<open>rt_park\<close> is whatever happens until the tasks are
  polled again.
\<close>

record ('w, 'c) runtime =
  rt_connect :: "nat \<Rightarrow> (rstring, rstring) connector \<Rightarrow> 'w \<Rightarrow> 'w \<times> 'c result option"
  rt_feed :: "'c \<Rightarrow> to_server message \<Rightarrow> 'w \<Rightarrow> 'w \<times> unit result option"
  rt_flush :: "'c \<Rightarrow> 'w \<Rightarrow> 'w \<times> unit result option"
  rt_next :: "'c \<Rightarrow> 'w \<Rightarrow> 'w \<times> from_server message option result option"
  rt_now :: "'w \<Rightarrow> nat"
  rt_println :: "rstring \<Rightarrow> 'w \<Rightarrow> 'w"
  rt_park :: "'w \<Rightarrow> 'w"

text \<open>One step of a task: \<open>None\<close> when it cannot go on now, or has ended.\<close>

definition task_step :: "('w, 'c) runtime \<Rightarrow> nat \<Rightarrow> 'c task \<Rightarrow> 'w \<Rightarrow> 'w \<times> 'c task option" where
  "task_step R i t w =
    (case t of
       Stopped e \<Rightarrow> (w, None)
     | Println l t \<Rightarrow> (rt_println R l w, Some t)
     | Sleep d t \<Rightarrow> (w, Some (Asleep (rt_now R w + as_nanos d) t))
     | Asleep deadline t \<Rightarrow> (w, if deadline \<le> rt_now R w then Some t else None)
     | Opening cn k \<Rightarrow> (case rt_connect R i cn w of (w, r) \<Rightarrow> (w, map_option k r))
     | Sending c m k \<Rightarrow>
         (case rt_feed R c m w of (w, r) \<Rightarrow>
            (w, map_option (\<lambda>r. case r of Inl e \<Rightarrow> k (Inl e) | Inr _ \<Rightarrow> Flushing c k) r))
     | Flushing c k \<Rightarrow> (case rt_flush R c w of (w, r) \<Rightarrow> (w, map_option k r))
     | Receiving c k \<Rightarrow> (case rt_next R c w of (w, r) \<Rightarrow> (w, map_option k r)))"

partial_function (option) poll_task :: "('w, 'c) runtime \<Rightarrow> nat \<Rightarrow> 'c task \<Rightarrow> 'w \<Rightarrow> ('w \<times> 'c task) option" where
  "poll_task R i t w =
    (case task_step R i t w of
       (w, None) \<Rightarrow> Some (w, t)
     | (w, Some t) \<Rightarrow> poll_task R i t w)"

lemma poll_step: "task_step R i t w = (w', Some t') \<Longrightarrow> poll_task R i t w = poll_task R i t' w'"
  by (subst poll_task.simps) simp

lemma poll_stuck: "task_step R i t w = (w', None) \<Longrightarrow> poll_task R i t w = Some (w', t)"
  by (subst poll_task.simps) simp

lemma poll_simps:
  "poll_task R i (Stopped e) w = Some (w, Stopped e)"
  "poll_task R i (Println l t) w = poll_task R i t (rt_println R l w)"
  "rt_connect R i cn w = (w', Some r) \<Longrightarrow> poll_task R i (Opening cn j) w = poll_task R i (j r) w'"
  "rt_feed R c m w = (w', Some (Inr ())) \<Longrightarrow> poll_task R i (Sending c m k) w = poll_task R i (Flushing c k) w'"
  "rt_flush R c w = (w', Some u) \<Longrightarrow> poll_task R i (Flushing c k) w = poll_task R i (k u) w'"
  "rt_next R c w = (w', Some x) \<Longrightarrow> poll_task R i (Receiving c h) w = poll_task R i (h x) w'"
  by (simp_all add: poll_task.simps [of R i "Stopped e"] poll_step task_step_def)

text \<open>
  What \<open>futures::future::select(..).await\<close> and \<open>factor_first\<close> return: the first future is
  polled first, and a future that is not ready is kept as polling it has left it. The
  library's function returns exactly that; \<open>select_tasks\<close> is such a function.
\<close>

inductive select_run :: "('w, 'c) runtime \<Rightarrow> 'c task \<Rightarrow> 'c task \<Rightarrow> 'w \<Rightarrow> 'w \<times> exit \<Rightarrow> bool" for R where
  First: "poll_task R 0 t1 w = Some (w', u1) \<Longrightarrow> exit_of u1 = Some e \<Longrightarrow> select_run R t1 t2 w (w', e)"
| Second: "poll_task R 0 t1 w = Some (w1, u1) \<Longrightarrow> exit_of u1 = None \<Longrightarrow>
    poll_task R 1 t2 w1 = Some (w', u2) \<Longrightarrow> exit_of u2 = Some e \<Longrightarrow> select_run R t1 t2 w (w', e)"
| Neither: "poll_task R 0 t1 w = Some (w1, u1) \<Longrightarrow> exit_of u1 = None \<Longrightarrow>
    poll_task R 1 t2 w1 = Some (w2, u2) \<Longrightarrow> exit_of u2 = None \<Longrightarrow>
    select_run R u1 u2 (rt_park R w2) r \<Longrightarrow> select_run R t1 t2 w r"

locale select_lib =
  fixes R :: "('w, 'c) runtime" and sel :: "'c task \<Rightarrow> 'c task \<Rightarrow> 'w \<Rightarrow> ('w \<times> exit) option"
  assumes returns_iff: "sel t1 t2 w = Some r \<longleftrightarrow> select_run R t1 t2 w r"

partial_function (option) select_tasks ::
    "('w, 'c) runtime \<Rightarrow> 'c task \<Rightarrow> 'c task \<Rightarrow> 'w \<Rightarrow> ('w \<times> exit) option" where
  "select_tasks R t1 t2 w =
    (case poll_task R 0 t1 w of
       None \<Rightarrow> None
     | Some (w, t1) \<Rightarrow>
         (case exit_of t1 of
            Some e \<Rightarrow> Some (w, e)
          | None \<Rightarrow>
              (case poll_task R 1 t2 w of
                 None \<Rightarrow> None
               | Some (w, t2) \<Rightarrow>
                   (case exit_of t2 of
                      Some e \<Rightarrow> Some (w, e)
                    | None \<Rightarrow> select_tasks R t1 t2 (rt_park R w)))))"

lemma select_tasks_run: "select_tasks R t1 t2 w = Some r \<Longrightarrow> select_run R t1 t2 w r"
proof (rule select_tasks.raw_induct [where P = "\<lambda>R t1 t2 w r. select_run R t1 t2 w r"])
  fix f R t1 t2 w r
  assume IH: "\<And>R t1 t2 w r. f R t1 t2 w = Some r \<Longrightarrow> select_run R t1 t2 w r"
    and eq: "(case poll_task R 0 t1 w of None \<Rightarrow> None
      | Some (w, t1) \<Rightarrow> (case exit_of t1 of
          None \<Rightarrow> (case poll_task R 1 t2 w of None \<Rightarrow> None
            | Some (w, t2) \<Rightarrow> (case exit_of t2 of None \<Rightarrow> f R t1 t2 (rt_park R w) | Some e \<Rightarrow> Some (w, e)))
        | Some e \<Rightarrow> Some (w, e))) = Some r"
  then show "select_run R t1 t2 w r"
    by (cases r) (auto simp del: One_nat_def split: option.splits prod.splits intro: select_run.intros)
qed

lemma select_run_tasks: "select_run R t1 t2 w r \<Longrightarrow> select_tasks R t1 t2 w = Some r"
  by (induction rule: select_run.induct) (subst select_tasks.simps, simp)+

interpretation sel: select_lib R "select_tasks R" for R
  by unfold_locales (blast intro: select_tasks_run select_run_tasks)

text \<open>A task awaited alone.\<close>

partial_function (option) block_on :: "('w, 'c) runtime \<Rightarrow> ('w \<Rightarrow> 'w \<times> 'a option) \<Rightarrow> 'w \<Rightarrow> ('w \<times> 'a) option" where
  "block_on R p w =
    (case p w of
       (w, Some x) \<Rightarrow> Some (w, x)
     | (w, None) \<Rightarrow> block_on R p (rt_park R w))"

section \<open>What a task does\<close>

text \<open>The events of an operation that was ready, and what a task can do on its own.\<close>

datatype 'c event =
    Printed rstring
  | Opened "'c result"
  | Fed 'c "to_server message" "unit result"
  | Flushed 'c "unit result"
  | Got 'c "from_server message option result"

inductive task_does :: "'c task \<Rightarrow> 'c event list \<Rightarrow> 'c task \<Rightarrow> bool" where
  Rests: "task_does t [] t"
| Prints: "task_does t es t' \<Longrightarrow> task_does (Println l t) (Printed l # es) t'"
| Sleeps: "task_does (Asleep n t) es t' \<Longrightarrow> task_does (Sleep d t) es t'"
| Wakes: "task_does t es t' \<Longrightarrow> task_does (Asleep n t) es t'"
| Opens: "task_does (k r) es t' \<Longrightarrow> task_does (Opening cn k) (Opened r # es) t'"
| Feeds: "task_does (Flushing c k) es t' \<Longrightarrow> task_does (Sending c m k) (Fed c m (Inr ()) # es) t'"
| Fails: "task_does (k (Inl e)) es t' \<Longrightarrow> task_does (Sending c m k) (Fed c m (Inl e) # es) t'"
| Flushes: "task_does (k r) es t' \<Longrightarrow> task_does (Flushing c k) (Flushed c r # es) t'"
| Gets: "task_does (k r) es t' \<Longrightarrow> task_does (Receiving c k) (Got c r # es) t'"

inductive_simps task_does_simps:
  "task_does (Stopped e) es t'" "task_does (Println l t) es t'" "task_does (Sleep d t) es t'"
  "task_does (Asleep n t) es t'" "task_does (Opening cn j) es t'" "task_does (Sending c m k) es t'"
  "task_does (Flushing c k) es t'" "task_does (Receiving c h) es t'"

lemma task_does_trans:
  "task_does t xs t1 \<Longrightarrow> task_does t1 ys t2 \<Longrightarrow> task_does t (xs @ ys) t2"
  by (induction rule: task_does.induct) (auto intro: task_does.intros)

text \<open>A runtime that records the events in the world.\<close>

definition note_ready :: "('w \<Rightarrow> 'w \<times> 'a option) \<Rightarrow> ('a \<Rightarrow> 'e) \<Rightarrow> 'w \<times> 'e list \<Rightarrow> ('w \<times> 'e list) \<times> 'a option" where
  "note_ready p f s =
    (case s of (w, tr) \<Rightarrow>
      (case p w of (w, r) \<Rightarrow> ((w, tr @ (case r of None \<Rightarrow> [] | Some x \<Rightarrow> [f x])), r)))"

definition watched :: "('w, 'c) runtime \<Rightarrow> ('w \<times> 'c event list, 'c) runtime" where
  "watched R =
    \<lparr>rt_connect = (\<lambda>i cn. note_ready (rt_connect R i cn) Opened),
     rt_feed = (\<lambda>c m. note_ready (rt_feed R c m) (Fed c m)),
     rt_flush = (\<lambda>c. note_ready (rt_flush R c) (Flushed c)),
     rt_next = (\<lambda>c. note_ready (rt_next R c) (Got c)),
     rt_now = (\<lambda>s. rt_now R (fst s)),
     rt_println = (\<lambda>l s. (rt_println R l (fst s), snd s @ [Printed l])),
     rt_park = (\<lambda>s. (rt_park R (fst s), snd s))\<rparr>"

lemma watched_step:
  assumes "task_step (watched R) i t (w, tr) = ((w', tr'), r)"
  shows "\<exists>es. tr' = tr @ es \<and> (case r of None \<Rightarrow> es = [] | Some t' \<Rightarrow> task_does t es t')"
  using assms
  by (cases t; cases r)
    (auto simp: task_step_def watched_def note_ready_def
      split: prod.splits option.splits sum.splits if_splits intro: task_does.intros)

lemma watched_poll:
  assumes "poll_task (watched R) i t s = Some r"
  shows "\<exists>es. snd (fst r) = snd s @ es \<and> task_does t es (snd r)"
proof -
  have "Q = watched R \<longrightarrow> (\<exists>es. snd (fst r) = snd s @ es \<and> task_does t es (snd r))"
    if "poll_task Q i t s = Some r" for Q i t s r
  proof (rule poll_task.raw_induct [OF _ that, where P = "\<lambda>Q i t s r. Q = watched R \<longrightarrow>
      (\<exists>es. snd (fst r) = snd s @ es \<and> task_does t es (snd r))"], rule impI)
    fix f Q i t s r
    assume IH: "\<And>Q i t s r. f Q i t s = Some r \<Longrightarrow> Q = watched R \<longrightarrow>
        (\<exists>es. snd (fst r) = snd s @ es \<and> task_does t es (snd r))"
      and eq: "(case task_step Q i t s of
          (w, None) \<Rightarrow> Some (w, t) | (w, Some t) \<Rightarrow> f Q i t w) = Some r"
      and Q: "Q = watched R"
    obtain s1 y where st: "task_step (watched R) i t s = (s1, y)"
      by (cases "task_step (watched R) i t s")
    obtain es where es: "snd s1 = snd s @ es" "case y of None \<Rightarrow> es = [] | Some t' \<Rightarrow> task_does t es t'"
      using watched_step [of R i t "fst s" "snd s" "fst s1" "snd s1" y] st by auto
    show "\<exists>es. snd (fst r) = snd s @ es \<and> task_does t es (snd r)"
    proof (cases y)
      case None
      with eq st es Q show ?thesis by (auto intro: task_does.Rests)
    next
      case (Some t1)
      with eq st Q have "f (watched R) i t1 s1 = Some r" by simp
      with IH obtain es' where "snd (fst r) = snd s1 @ es'" "task_does t1 es' (snd r)" by blast
      with es Some show ?thesis by (auto intro: task_does_trans)
    qed
  qed
  with assms show ?thesis by blast
qed

text \<open>Recording changes nothing else.\<close>

lemma watched_step_same:
  assumes "task_step R i t w = (w', y)"
  shows "\<exists>es. task_step (watched R) i t (w, tr) = ((w', tr @ es), y)"
  using assms
  by (cases t) (auto simp: task_step_def watched_def note_ready_def split: prod.splits)

lemma watched_poll_same:
  assumes "poll_task R i t w = Some (w', t')"
  shows "\<exists>es. poll_task (watched R) i t (w, tr) = Some ((w', tr @ es), t')"
proof -
  have "\<forall>tr. \<exists>es. poll_task (watched R) i t (w, tr) = Some ((fst r, tr @ es), snd r)"
    if "poll_task R i t w = Some r" for R :: "('a, 'b) runtime" and i t w r
  proof (rule poll_task.raw_induct [OF _ that, where P = "\<lambda>R i t w r.
      \<forall>tr. \<exists>es. poll_task (watched R) i t (w, tr) = Some ((fst r, tr @ es), snd r)"], rule allI)
    fix f and R :: "('a, 'b) runtime" and i t w r tr
    assume IH: "\<And>R i t w r. f R i t w = Some r \<Longrightarrow>
        \<forall>tr. \<exists>es. poll_task (watched R) i t (w, tr) = Some ((fst r, tr @ es), snd r)"
      and eq: "(case task_step R i t w of (w, None) \<Rightarrow> Some (w, t) | (w, Some t) \<Rightarrow> f R i t w) = Some r"
    obtain w1 y where st: "task_step R i t w = (w1, y)" by (cases "task_step R i t w")
    from watched_step_same [OF this, of tr]
    obtain es where es: "task_step (watched R) i t (w, tr) = ((w1, tr @ es), y)"
      by (elim exE) (rule that)
    show "\<exists>es. poll_task (watched R) i t (w, tr) = Some ((fst r, tr @ es), snd r)"
    proof (cases y)
      case None
      with eq st es show ?thesis by (auto simp: poll_stuck)
    next
      case (Some t1)
      with eq st have "f R i t1 w1 = Some r" by simp
      with IH obtain es' where "poll_task (watched R) i t1 (w1, tr @ es) = Some ((fst r, (tr @ es) @ es'), snd r)"
        by blast
      with es Some show ?thesis by (auto simp: poll_step)
    qed
  qed
  with assms show ?thesis by fastforce
qed

text \<open>What happens under \<open>select\<close> is an interleaving.\<close>

lemma shuffles_append:
  "zs1 \<in> shuffles xs1 ys1 \<Longrightarrow> zs2 \<in> shuffles xs2 ys2 \<Longrightarrow> zs1 @ zs2 \<in> shuffles (xs1 @ xs2) (ys1 @ ys2)"
proof (induction xs1 ys1 arbitrary: zs1 rule: shuffles.induct)
  case (1 ys)
  then show ?case
    by (induction ys arbitrary: zs1) (auto simp: Cons_in_shuffles_rightI)
next
  case (2 xs)
  then show ?case
    by (induction xs arbitrary: zs1) (auto simp: Cons_in_shuffles_leftI)
next
  case (3 x xs y ys)
  from 3(3) consider z where "zs1 = x # z" "z \<in> shuffles xs (y # ys)"
    | z where "zs1 = y # z" "z \<in> shuffles (x # xs) ys" by auto
  then show ?case
    using 3 by cases (auto simp: Cons_in_shuffles_leftI Cons_in_shuffles_rightI)
qed

lemma append_in_shuffles: "xs @ ys \<in> shuffles xs ys"
  using shuffles_append [of xs xs "[]" ys "[]" ys] by simp

definition interleaved :: "'c task \<Rightarrow> 'c task \<Rightarrow> 'c event list \<Rightarrow> exit \<Rightarrow> bool" where
  "interleaved t1 t2 zs e \<longleftrightarrow>
    (\<exists>xs ys t1' t2'. zs \<in> shuffles xs ys \<and> task_does t1 xs t1' \<and> task_does t2 ys t2' \<and>
      (exit_of t1' = Some e \<or> exit_of t1' = None \<and> exit_of t2' = Some e))"

lemma interleaved_later:
  assumes "interleaved t1' t2' zs e" "task_does t1 xs t1'" "task_does t2 ys t2'"
  shows "interleaved t1 t2 (xs @ ys @ zs) e"
proof -
  obtain xs' ys' u1 u2 where r: "zs \<in> shuffles xs' ys'" "task_does t1' xs' u1" "task_does t2' ys' u2"
    "exit_of u1 = Some e \<or> exit_of u1 = None \<and> exit_of u2 = Some e"
    using assms(1) unfolding interleaved_def by blast
  have "(xs @ ys) @ zs \<in> shuffles (xs @ xs') (ys @ ys')"
    by (rule shuffles_append [OF append_in_shuffles r(1)])
  moreover have "task_does t1 (xs @ xs') u1" "task_does t2 (ys @ ys') u2"
    using r assms(2,3) by (simp_all add: task_does_trans)
  ultimately show ?thesis
    using r(4) unfolding interleaved_def append_assoc by blast
qed

lemma watched_select:
  "select_run (watched R) t1 t2 s r \<Longrightarrow> \<exists>zs. snd (fst r) = snd s @ zs \<and> interleaved t1 t2 zs (snd r)"
proof (induction rule: select_run.induct)
  case (First t1 s s1 u1 e t2)
  obtain xs where xs: "snd s1 = snd s @ xs" "task_does t1 xs u1" using watched_poll [OF First(1)] by auto
  have "interleaved t1 t2 xs e" unfolding interleaved_def using xs(2) First(2)
    by (intro exI [of _ xs] exI [of _ "[]"] exI [of _ u1] exI [of _ t2]) (auto intro: task_does.Rests)
  with xs(1) show ?case by auto
next
  case (Second t1 s s1 u1 t2 s2 u2 e)
  obtain xs ys where xs: "snd s1 = snd s @ xs" "task_does t1 xs u1" "snd s2 = snd s1 @ ys" "task_does t2 ys u2"
    using watched_poll [OF Second(1)] watched_poll [OF Second(3)] by auto
  then have "interleaved t1 t2 (xs @ ys) e" unfolding interleaved_def
    using Second(2,4) append_in_shuffles by blast
  with xs(1,3) show ?case by auto
next
  case (Neither t1 s s1 u1 t2 s2 u2 r)
  obtain xs ys where xs: "snd s1 = snd s @ xs" "task_does t1 xs u1" "snd s2 = snd s1 @ ys" "task_does t2 ys u2"
    using watched_poll [OF Neither(1)] watched_poll [OF Neither(3)] by auto
  obtain zs where zs: "snd (fst r) = snd (rt_park (watched R) s2) @ zs" "interleaved u1 u2 zs (snd r)"
    using Neither.IH by blast
  then have "snd (fst r) = snd s @ xs @ ys @ zs" using xs(1,3) by (simp add: watched_def)
  with interleaved_later [OF zs(2) xs(2,4)] show ?case by blast
qed

end
