(* ===== verification/Example_Tasks.thy ===== *)
theory Example_Tasks
  imports Tasks "HOL-Library.Sublist"
begin

text \<open>
  The programs \<open>ping_pong\<close> and \<open>connect\<close> of \<open>src/examples/\<close>: each polls two futures in
  turn. What the futures do on their own (\<open>pong_history\<close>, \<open>sender_history\<close>,
  \<open>receiver_history\<close>), that the programs do an interleaving of it, and when \<open>connect\<close> ends.
\<close>

section \<open>The futures\<close>

text \<open>\<open>?\<close> on what was awaited.\<close>

definition try_ok :: "('a \<Rightarrow> 'c task) \<Rightarrow> 'a result \<Rightarrow> 'c task" where
  "try_ok k r = (case r of Inl e \<Rightarrow> Stopped (Exit (Inl e)) | Inr x \<Rightarrow> k x)"

lemma try_ok_simps [simp]: "try_ok k (Inl e) = Stopped (Exit (Inl e))" "try_ok k (Inr x) = k x"
  by (simp_all add: try_ok_def)

text \<open>Where a loop is in its round, and where it goes next.\<close>

datatype loop_phase =
    is_Serving: Serving
  | is_Reading: Reading
  | is_Showing: Showing (shown: rstring)
  | is_Resting: Resting
  | is_Leaving: Leaving (left_with: exit)

text \<open>The loop of the ping-pong client: what it does with the next item, and the rounds.\<close>

definition pong_reply :: "(from_server message \<Rightarrow> rstring) \<Rightarrow> from_server message option \<Rightarrow> loop_phase" where
  "pong_reply debug_message msg =
    (case map_option content msg of
       Some (Msg destination message_id subscription ack headers body) \<Rightarrow>
         (case body of
            None \<Rightarrow> Leaving Panicked
          | Some b \<Rightarrow> Showing (from_utf8_lossy b))
     | _ \<Rightarrow> Leaving (Bailed (''Unexpected: '' @ debug_option debug_message msg)))"

definition try_phase :: "('a \<Rightarrow> loop_phase) \<Rightarrow> 'a result \<Rightarrow> loop_phase" where
  "try_phase k r = (case r of Inl e \<Rightarrow> Leaving (Exit (Inl e)) | Inr x \<Rightarrow> k x)"

primcorec ping_pong_loop ::
    "(from_server message \<Rightarrow> rstring) \<Rightarrow> 'c \<Rightarrow> rstring \<Rightarrow> bytes \<Rightarrow> loop_phase \<Rightarrow> 'c task" where
  "ping_pong_loop debug_message conn sends msg phase =
    (case phase of
       Serving \<Rightarrow> Sending conn (greeting sends msg)
         (\<lambda>r. ping_pong_loop debug_message conn sends msg (try_phase (\<lambda>_. Reading) r))
     | Reading \<Rightarrow> Receiving conn
         (\<lambda>r. ping_pong_loop debug_message conn sends msg (try_phase (pong_reply debug_message) r))
     | Showing l \<Rightarrow> Println l (ping_pong_loop debug_message conn sends msg Resting)
     | Resting \<Rightarrow> Sleep (from_millis 1000) (ping_pong_loop debug_message conn sends msg Serving)
     | Leaving e \<Rightarrow> Stopped e)"

definition ping_pong_client ::
    "(from_server message \<Rightarrow> rstring) \<Rightarrow> rstring \<Rightarrow> rstring \<Rightarrow> bytes \<Rightarrow> 'c task" where
  "ping_pong_client debug_message listens sends msg =
    Opening guest_connector (try_ok (\<lambda>conn.
    Sending conn (subscribe_to listens ''myid'') (try_ok (\<lambda>_.
    ping_pong_loop debug_message conn sends msg Serving))))"

text \<open>The programs, over the library's \<open>select\<close> (\<open>sel\<close>) and a runtime.\<close>

type_synonym ('w, 'c) selector = "'c task \<Rightarrow> 'c task \<Rightarrow> 'w \<Rightarrow> ('w \<times> exit) option"

definition ping_pong_main ::
    "('w, 'c) selector \<Rightarrow> (from_server message \<Rightarrow> rstring) \<Rightarrow> 'w \<Rightarrow> ('w \<times> exit) option" where
  "ping_pong_main sel debug_message =
    sel
      (ping_pong_client debug_message ''ping'' ''pong'' ''PONG!'')
      (ping_pong_client debug_message ''pong'' ''ping'' ''PING!'')"

definition connect_sender :: "'c \<Rightarrow> 'c task" where
  "connect_sender sink =
    Sending sink (subscribe_to ''rusty'' ''myid'') (try_ok (\<lambda>_.
    Println ''Subscribe sent'' (
    Sleep (from_millis 200) (
    Sending sink (greeting ''rusty'' ''Hello there rustaceans!'') (try_ok (\<lambda>_.
    Println ''Message sent'' (
    Sleep (from_millis 200) (
    Sending sink (message_from (Unsubscribe ''myid'')) (try_ok (\<lambda>_.
    Println ''Unsubscribe sent'' (
    Sleep (from_millis 200) (
    Sleep (from_millis 1000) (
    Sending sink (message_from (Disconnect None)) (try_ok (\<lambda>_.
    Println ''Disconnect sent'' (
    Stopped (Exit (Inr ()))))))))))))))))))"

text \<open>What the closure given to \<open>try_for_each\<close> prints; \<open>None\<close> where it panics.\<close>

definition connect_handler ::
    "(rstring \<Rightarrow> rstring) \<Rightarrow> (from_server message \<Rightarrow> rstring) \<Rightarrow> from_server message \<Rightarrow> rstring option" where
  "connect_handler debug_str debug_message item =
    (case content item of
       Msg destination message_id subscription ack headers body \<Rightarrow>
         (case body of
            None \<Rightarrow> None
          | Some b \<Rightarrow> Some (''Message received: '' @ debug_str (from_utf8_lossy b)))
     | _ \<Rightarrow> Some (debug_message item))"

text \<open>The second future, the loop of \<open>try_for_each\<close>; it never serves or rests.\<close>

definition receiver_reply :: "(rstring \<Rightarrow> rstring) \<Rightarrow> (from_server message \<Rightarrow> rstring) \<Rightarrow>
    from_server message option \<Rightarrow> loop_phase" where
  "receiver_reply debug_str debug_message item =
    (case item of
       None \<Rightarrow> Leaving (Exit (Inr ()))
     | Some m \<Rightarrow>
         (case connect_handler debug_str debug_message m of
            None \<Rightarrow> Leaving Panicked
          | Some l \<Rightarrow> Showing l))"

primcorec connect_receiver ::
    "(rstring \<Rightarrow> rstring) \<Rightarrow> (from_server message \<Rightarrow> rstring) \<Rightarrow> 'c \<Rightarrow> loop_phase \<Rightarrow> 'c task" where
  "connect_receiver debug_str debug_message stream phase =
    (case phase of
       Showing l \<Rightarrow> Println l (connect_receiver debug_str debug_message stream Reading)
     | Leaving e \<Rightarrow> Stopped e
     | Reading \<Rightarrow> Receiving stream (\<lambda>r.
         connect_receiver debug_str debug_message stream
           (try_phase (receiver_reply debug_str debug_message) r))
     | _ \<Rightarrow> Stopped Panicked)"

definition sleep_until :: "('w, 'c) runtime \<Rightarrow> nat \<Rightarrow> 'w \<Rightarrow> 'w \<times> unit option" where
  "sleep_until R deadline w = (w, if deadline \<le> rt_now R w then Some () else None)"

definition connect_main ::
    "('w, 'c) selector \<Rightarrow> ('w, 'c) runtime \<Rightarrow> (rstring \<Rightarrow> rstring) \<Rightarrow> (from_server message \<Rightarrow> rstring) \<Rightarrow> 'w \<Rightarrow> ('w \<times> exit) option" where
  "connect_main sel R debug_str debug_message w =
    (case block_on R (rt_connect R 0 guest_connector) w of
       None \<Rightarrow> None
     | Some (w, Inl e) \<Rightarrow> Some (w, Exit (Inl e))
     | Some (w, Inr conn) \<Rightarrow>
         (case block_on R (sleep_until R (rt_now R w + as_nanos (from_millis 200))) w of
            None \<Rightarrow> None
          | Some (w, _) \<Rightarrow>
              sel (connect_sender conn) (connect_receiver debug_str debug_message conn Reading) w))"

lemma try_phase_simps [simp]:
  "try_phase k (Inl e) = Leaving (Exit (Inl e))" "try_phase k (Inr x) = k x"
  by (simp_all add: try_phase_def)

lemma ping_pong_loop_simps [simp]:
  "ping_pong_loop dm c sends msg Serving =
    Sending c (greeting sends msg) (\<lambda>r. ping_pong_loop dm c sends msg (try_phase (\<lambda>_. Reading) r))"
  "ping_pong_loop dm c sends msg Reading =
    Receiving c (\<lambda>r. ping_pong_loop dm c sends msg (try_phase (pong_reply dm) r))"
  "ping_pong_loop dm c sends msg (Showing l) = Println l (ping_pong_loop dm c sends msg Resting)"
  "ping_pong_loop dm c sends msg Resting = Sleep (from_millis 1000) (ping_pong_loop dm c sends msg Serving)"
  "ping_pong_loop dm c sends msg (Leaving e) = Stopped e"
  by (subst ping_pong_loop.code, simp)+

lemma connect_receiver_simps [simp]:
  "connect_receiver ds dm c Reading =
    Receiving c (\<lambda>r. connect_receiver ds dm c (try_phase (receiver_reply ds dm) r))"
  "connect_receiver ds dm c (Showing l) = Println l (connect_receiver ds dm c Reading)"
  "connect_receiver ds dm c (Leaving e) = Stopped e"
  by (subst connect_receiver.code, simp)+

section \<open>What the futures do on their own\<close>

text \<open>The error that an event stands for.\<close>

primrec event_error :: "'c event \<Rightarrow> stomp_error option" where
  "event_error (Printed l) = None"
| "event_error (Opened r) = (case r of Inl e \<Rightarrow> Some e | Inr c \<Rightarrow> None)"
| "event_error (Fed c m r) = (case r of Inl e \<Rightarrow> Some e | Inr u \<Rightarrow> None)"
| "event_error (Flushed c r) = (case r of Inl e \<Rightarrow> Some e | Inr u \<Rightarrow> None)"
| "event_error (Got c r) = (case r of Inl e \<Rightarrow> Some e | Inr i \<Rightarrow> None)"

text \<open>
  A script: the events of a task that goes on as planned. What such a task has done is a
  part of the script, and if it has returned, all of it, or a part of it and then an event
  that failed.
\<close>

definition follows :: "'c event list \<Rightarrow> 'c event list \<Rightarrow> exit option \<Rightarrow> bool" where
  "follows script xs r \<longleftrightarrow>
    (case r of
       None \<Rightarrow> prefix xs script
     | Some e \<Rightarrow>
         xs = script \<and> e = Exit (Inr ()) \<or>
         (\<exists>ys ev err. strict_prefix ys script \<and> xs = ys @ [ev] \<and> event_error ev = Some err \<and> e = Exit (Inl err)))"

definition scripted :: "'c task \<Rightarrow> 'c event list \<Rightarrow> bool" where
  "scripted t script \<longleftrightarrow> (\<forall>xs t'. task_does t xs t' \<longrightarrow> follows script xs (exit_of t'))"

lemma follows_Nil: "follows script [] None"
  by (simp add: follows_def)

lemma follows_Cons: "follows script xs r \<Longrightarrow> follows (ev # script) (ev # xs) r"
  unfolding follows_def
  by (cases r) (auto intro: exI [of _ "ev # ys" for ys])

lemma follows_failed: "event_error ev = Some err \<Longrightarrow> follows (ev' # script) [ev] (Some (Exit (Inl err)))"
  unfolding follows_def by (auto intro!: exI [of _ "[]"])

lemma scripted_Stopped: "scripted (Stopped (Exit (Inr ()))) []"
  by (auto simp: scripted_def task_does_simps follows_def)

lemma scripted_Println: "scripted t script \<Longrightarrow> scripted (Println l t) (Printed l # script)"
  by (auto simp: scripted_def task_does_simps follows_Nil intro: follows_Cons)

lemma scripted_Sleep: "scripted t script \<Longrightarrow> scripted (Sleep d t) script"
  by (auto simp: scripted_def task_does_simps follows_Nil)

text \<open>A whole send: it fails when fed, or when flushed, or succeeds.\<close>

lemma task_does_flush:
  "task_does (Flushing c k) xs t' \<longleftrightarrow>
    xs = [] \<and> t' = Flushing c k \<or>
    (\<exists>e es. xs = Flushed c (Inl e) # es \<and> task_does (k (Inl e)) es t') \<or>
    (\<exists>es. xs = Flushed c (Inr ()) # es \<and> task_does (k (Inr ())) es t')"
proof -
  have "(\<exists>r es. xs = Flushed c r # es \<and> task_does (k r) es t') \<longleftrightarrow>
      (\<exists>e es. xs = Flushed c (Inl e) # es \<and> task_does (k (Inl e)) es t') \<or>
      (\<exists>es. xs = Flushed c (Inr ()) # es \<and> task_does (k (Inr ())) es t')"
    by (metis (full_types) old.unit.exhaust sum.exhaust)
  then show ?thesis by (auto simp: task_does_simps(7))
qed

lemmas task_does_send = task_does_simps(6) [where k = k, unfolded task_does_flush] for k

lemma scripted_send:
  assumes "scripted t script"
  shows "scripted (Sending c m (try_ok (\<lambda>_. t))) (Fed c m (Inr ()) # Flushed c (Inr ()) # script)"
  using assms unfolding scripted_def
  by (auto simp: task_does_send task_does_simps(1) follows_Nil intro!: follows_Cons follows_failed)

text \<open>The sender of \<open>connect\<close>.\<close>

definition sender_script :: "'c \<Rightarrow> 'c event list" where
  "sender_script c =
    [Fed c (subscribe_to ''rusty'' ''myid'') (Inr ()), Flushed c (Inr ()), Printed ''Subscribe sent'',
     Fed c (greeting ''rusty'' ''Hello there rustaceans!'') (Inr ()), Flushed c (Inr ()), Printed ''Message sent'',
     Fed c (message_from (Unsubscribe ''myid'')) (Inr ()), Flushed c (Inr ()), Printed ''Unsubscribe sent'',
     Fed c (message_from (Disconnect None)) (Inr ()), Flushed c (Inr ()), Printed ''Disconnect sent'']"

lemma sender_scripted: "scripted (connect_sender c) (sender_script c)"
  unfolding connect_sender_def sender_script_def
  by (intro scripted_send scripted_Println scripted_Sleep scripted_Stopped)

text \<open>
  The receiver of \<open>connect\<close>: the messages it got, each with the line printed for it, and
  then, if it has returned, the item that made it return.
\<close>

definition receiver_log :: "'c \<Rightarrow> (from_server message \<times> rstring) list \<Rightarrow> 'c event list" where
  "receiver_log c mls = concat (map (\<lambda>(m, l). [Got c (Inr (Some m)), Printed l]) mls)"

definition receiver_history :: "(rstring \<Rightarrow> rstring) \<Rightarrow> (from_server message \<Rightarrow> rstring) \<Rightarrow>
    'c \<Rightarrow> 'c event list \<Rightarrow> exit option \<Rightarrow> bool" where
  "receiver_history ds dm c xs r \<longleftrightarrow>
    (\<exists>mls. list_all (\<lambda>(m, l). connect_handler ds dm m = Some l) mls \<and>
      (case r of
         None \<Rightarrow> prefix xs (receiver_log c mls)
       | Some e \<Rightarrow> \<exists>item. xs = receiver_log c mls @ [Got c item] \<and>
           try_phase (receiver_reply ds dm) item = Leaving e))"

lemma receiver_history_Nil: "receiver_history ds dm c [] None"
  unfolding receiver_history_def by (intro exI [of _ "[]"]) simp

lemma receiver_history_Got:
  assumes "connect_handler ds dm m = Some l"
  shows "receiver_history ds dm c [Got c (Inr (Some m))] None"
  unfolding receiver_history_def using assms
  by (intro exI [of _ "[(m, l)]"]) (simp add: receiver_log_def)

lemma receiver_history_Cons:
  assumes "connect_handler ds dm m = Some l" "receiver_history ds dm c xs r"
  shows "receiver_history ds dm c (Got c (Inr (Some m)) # Printed l # xs) r"
proof -
  obtain mls where mls: "list_all (\<lambda>(m, l). connect_handler ds dm m = Some l) mls"
    "case r of None \<Rightarrow> prefix xs (receiver_log c mls)
     | Some e \<Rightarrow> \<exists>item. xs = receiver_log c mls @ [Got c item] \<and> try_phase (receiver_reply ds dm) item = Leaving e"
    using assms(2) unfolding receiver_history_def by blast
  have "receiver_log c ((m, l) # mls) = Got c (Inr (Some m)) # Printed l # receiver_log c mls"
    by (simp add: receiver_log_def)
  with assms(1) mls show ?thesis
    unfolding receiver_history_def by (intro exI [of _ "(m, l) # mls"]) (cases r, auto)
qed

lemma receiver_phases:
  "(\<exists>e. try_phase (receiver_reply ds dm) item = Leaving e) \<or>
   (\<exists>m l. item = Inr (Some m) \<and> connect_handler ds dm m = Some l \<and>
     try_phase (receiver_reply ds dm) item = Showing l)"
  by (cases item) (auto simp: receiver_reply_def split: option.split)

lemma receiver_does:
  "task_does (connect_receiver ds dm c Reading) xs t' \<Longrightarrow> receiver_history ds dm c xs (exit_of t')"
proof (induction "length xs" arbitrary: xs rule: less_induct)
  case less
  show ?case
  proof (cases xs)
    case Nil
    with less.prems have "exit_of t' = None" by (auto simp: task_does_simps)
    with Nil show ?thesis by (simp add: receiver_history_Nil)
  next
    case (Cons ev es)
    with less.prems obtain item where item: "ev = Got c item"
      "task_does (connect_receiver ds dm c (try_phase (receiver_reply ds dm) item)) es t'"
      by (auto simp: task_does_simps)
    from receiver_phases [of ds dm item] show ?thesis
    proof (elim disjE exE conjE)
      fix e
      assume e: "try_phase (receiver_reply ds dm) item = Leaving e"
      with item(2) have "es = []" "exit_of t' = Some e" by (auto simp: task_does_simps)
      with e Cons item(1) show ?thesis
        unfolding receiver_history_def by (intro exI [of _ "[]"]) (simp add: receiver_log_def)
    next
      fix m l
      assume m: "item = Inr (Some m)" "connect_handler ds dm m = Some l"
        "try_phase (receiver_reply ds dm) item = Showing l"
      with item(2) consider "es = []" "exit_of t' = None"
        | es' where "es = Printed l # es'" "task_does (connect_receiver ds dm c Reading) es' t'"
        by (auto simp: task_does_simps)
      then show ?thesis
        using m(1,2) Cons item(1) less.hyps
        by cases (simp_all add: receiver_history_Got receiver_history_Cons)
    qed
  qed
qed

text \<open>
  The client of \<open>ping_pong\<close>: its rounds, and then, if it has returned, what it did in the
  last one. A round sends one message and gets one.
\<close>

definition pong_log :: "'c \<Rightarrow> to_server message \<Rightarrow> (from_server message \<times> rstring) list \<Rightarrow> 'c event list" where
  "pong_log c msg mls =
    concat (map (\<lambda>(m, l). [Fed c msg (Inr ()), Flushed c (Inr ()), Got c (Inr (Some m)), Printed l]) mls)"

definition pong_end :: "(from_server message \<Rightarrow> rstring) \<Rightarrow> 'c \<Rightarrow> to_server message \<Rightarrow>
    'c event list \<Rightarrow> exit \<Rightarrow> bool" where
  "pong_end dm c msg xs e \<longleftrightarrow>
    (\<exists>err. xs = [Fed c msg (Inl err)] \<and> e = Exit (Inl err)) \<or>
    (\<exists>err. xs = [Fed c msg (Inr ()), Flushed c (Inl err)] \<and> e = Exit (Inl err)) \<or>
    (\<exists>item. xs = [Fed c msg (Inr ()), Flushed c (Inr ()), Got c item] \<and>
      try_phase (pong_reply dm) item = Leaving e)"

definition pong_history :: "(from_server message \<Rightarrow> rstring) \<Rightarrow> 'c \<Rightarrow> to_server message \<Rightarrow>
    'c event list \<Rightarrow> exit option \<Rightarrow> bool" where
  "pong_history dm c msg xs r \<longleftrightarrow>
    (\<exists>mls. list_all (\<lambda>(m, l). pong_reply dm (Some m) = Showing l) mls \<and>
      (case r of
         None \<Rightarrow> prefix xs (pong_log c msg mls @ [Fed c msg (Inr ()), Flushed c (Inr ())])
       | Some e \<Rightarrow> \<exists>ys. xs = pong_log c msg mls @ ys \<and> pong_end dm c msg ys e))"

lemma pong_history_short:
  "pong_history dm c msg [] None"
  "pong_history dm c msg [Fed c msg (Inr ())] None"
  "pong_history dm c msg [Fed c msg (Inr ()), Flushed c (Inr ())] None"
  unfolding pong_history_def by (rule exI [of _ "[]"], simp add: pong_log_def)+

lemma pong_history_end: "pong_end dm c msg xs e \<Longrightarrow> pong_history dm c msg xs (Some e)"
  unfolding pong_history_def by (rule exI [of _ "[]"]) (simp add: pong_log_def)

lemma pong_history_got:
  assumes "pong_reply dm (Some m) = Showing l"
  shows "pong_history dm c msg [Fed c msg (Inr ()), Flushed c (Inr ()), Got c (Inr (Some m))] None"
  unfolding pong_history_def using assms by (intro exI [of _ "[(m, l)]"]) (simp add: pong_log_def)

lemma pong_history_Cons:
  assumes "pong_reply dm (Some m) = Showing l" "pong_history dm c msg xs r"
  shows "pong_history dm c msg
    (Fed c msg (Inr ()) # Flushed c (Inr ()) # Got c (Inr (Some m)) # Printed l # xs) r"
proof -
  obtain mls where mls: "list_all (\<lambda>(m, l). pong_reply dm (Some m) = Showing l) mls"
    "case r of None \<Rightarrow> prefix xs (pong_log c msg mls @ [Fed c msg (Inr ()), Flushed c (Inr ())])
     | Some e \<Rightarrow> \<exists>ys. xs = pong_log c msg mls @ ys \<and> pong_end dm c msg ys e"
    using assms(2) unfolding pong_history_def by blast
  have "pong_log c msg ((m, l) # mls) =
      Fed c msg (Inr ()) # Flushed c (Inr ()) # Got c (Inr (Some m)) # Printed l # pong_log c msg mls"
    by (simp add: pong_log_def)
  with assms(1) mls show ?thesis
    unfolding pong_history_def by (intro exI [of _ "(m, l) # mls"]) (cases r, auto)
qed

lemma pong_phases:
  "(\<exists>e. try_phase (pong_reply dm) item = Leaving e) \<or>
   (\<exists>m l. item = Inr (Some m) \<and> pong_reply dm (Some m) = Showing l)"
  by (cases item) (auto simp: pong_reply_def split: option.split from_server.split)

lemma pong_does:
  "task_does (ping_pong_loop dm c sends body Serving) xs t' \<Longrightarrow>
    pong_history dm c (greeting sends body) xs (exit_of t')"
proof (induction "length xs" arbitrary: xs rule: less_induct)
  case less
  let ?msg = "greeting sends body"
  from less.prems consider "xs = []" "exit_of t' = None"
    | err where "xs = [Fed c ?msg (Inl err)]" "exit_of t' = Some (Exit (Inl err))"
    | "xs = [Fed c ?msg (Inr ())]" "exit_of t' = None"
    | err where "xs = [Fed c ?msg (Inr ()), Flushed c (Inl err)]" "exit_of t' = Some (Exit (Inl err))"
    | es where "xs = Fed c ?msg (Inr ()) # Flushed c (Inr ()) # es"
        "task_does (ping_pong_loop dm c sends body Reading) es t'"
    by (auto simp: task_does_send task_does_simps(1) simp del: ping_pong_loop_simps(2))
  then show ?case
  proof cases
    case (5 es)
    then consider "es = []" "exit_of t' = None"
      | item es' where "es = Got c item # es'"
        "task_does (ping_pong_loop dm c sends body (try_phase (pong_reply dm) item)) es' t'"
      by (auto simp: task_does_simps)
    then show ?thesis
    proof cases
      case (2 item es')
      from pong_phases [of dm item] show ?thesis
      proof (elim disjE exE conjE)
        fix e
        assume e: "try_phase (pong_reply dm) item = Leaving e"
        with 2(2) have "es' = []" "exit_of t' = Some e" by (auto simp: task_does_simps)
        with e 5(1) 2(1) show ?thesis
          by (auto simp: pong_end_def intro: pong_history_end)
      next
        fix m l
        assume m: "item = Inr (Some m)" "pong_reply dm (Some m) = Showing l"
        with 2(2) consider "es' = []" "exit_of t' = None" | "es' = [Printed l]" "exit_of t' = None"
          | es3 where "es' = Printed l # es3" "task_does (ping_pong_loop dm c sends body Serving) es3 t'"
          by (auto simp: task_does_simps simp del: ping_pong_loop_simps(1))
        then show ?thesis
          using m 5(1) 2(1) less.hyps pong_history_short(1)
          by cases (simp_all add: pong_history_got pong_history_Cons
              pong_history_Cons [OF m(2) pong_history_short(1)] del: ping_pong_loop_simps)
      qed
    qed (use 5(1) in \<open>simp add: pong_history_short\<close>)
  qed (simp_all add: pong_history_short pong_history_end pong_end_def)
qed

definition client_history :: "(from_server message \<Rightarrow> rstring) \<Rightarrow> to_server message \<Rightarrow> to_server message \<Rightarrow>
    'c event list \<Rightarrow> exit option \<Rightarrow> bool" where
  "client_history dm sub msg xs r \<longleftrightarrow>
    xs = [] \<and> r = None \<or>
    (\<exists>err. xs = [Opened (Inl err)] \<and> r = Some (Exit (Inl err))) \<or>
    (\<exists>c ys. xs = Opened (Inr c) # ys \<and>
      (prefix ys [Fed c sub (Inr ())] \<and> r = None \<or>
       (\<exists>err. ys = [Fed c sub (Inl err)] \<and> r = Some (Exit (Inl err))) \<or>
       (\<exists>err. ys = [Fed c sub (Inr ()), Flushed c (Inl err)] \<and> r = Some (Exit (Inl err))) \<or>
       (\<exists>zs. ys = Fed c sub (Inr ()) # Flushed c (Inr ()) # zs \<and> pong_history dm c msg zs r)))"

lemma client_does:
  assumes "task_does (ping_pong_client dm listens sends body) xs t'"
  shows "client_history dm (subscribe_to listens ''myid'') (greeting sends body) xs (exit_of t')"
proof -
  let ?sub = "subscribe_to listens ''myid''"
  from assms consider "xs = []" "exit_of t' = None"
    | r es where "xs = Opened r # es" "task_does (try_ok (\<lambda>conn. Sending conn ?sub (try_ok (\<lambda>_.
        ping_pong_loop dm conn sends body Serving))) r) es t'"
    unfolding ping_pong_client_def by (auto simp: task_does_simps(5))
  then show ?thesis
  proof cases
    case (2 r es)
    show ?thesis
    proof (cases r)
      case (Inl err)
      with 2 show ?thesis by (simp add: client_history_def task_does_simps(1))
    next
      case (Inr c)
      with 2(2) consider "prefix es [Fed c ?sub (Inr ())]" "exit_of t' = None"
        | err where "es = [Fed c ?sub (Inl err)]" "exit_of t' = Some (Exit (Inl err))"
        | err where "es = [Fed c ?sub (Inr ()), Flushed c (Inl err)]" "exit_of t' = Some (Exit (Inl err))"
        | zs where "es = Fed c ?sub (Inr ()) # Flushed c (Inr ()) # zs"
            "task_does (ping_pong_loop dm c sends body Serving) zs t'"
        by (auto simp: task_does_send task_does_simps(1) simp del: ping_pong_loop_simps)
      then show ?thesis
        using 2(1) Inr pong_does [of dm c sends body _ t'] by cases (auto simp: client_history_def)
    qed
  qed (simp add: client_history_def)
qed

lemma pong_leaves: "try_phase (pong_reply dm) item = Leaving e \<Longrightarrow> e \<noteq> Exit (Inr ())"
proof (cases item)
  case (Inr i)
  assume "try_phase (pong_reply dm) item = Leaving e"
  with Inr show ?thesis
    by (cases i; cases "content (the i)") (auto simp: pong_reply_def split: option.splits)
qed auto

lemma pong_history_not_ok: "pong_history dm c msg xs (Some e) \<Longrightarrow> e \<noteq> Exit (Inr ())"
  by (auto simp: pong_history_def pong_end_def dest: pong_leaves)

lemma client_history_not_ok: "client_history dm sub msg xs (Some e) \<Longrightarrow> e \<noteq> Exit (Inr ())"
  by (auto simp: client_history_def dest: pong_history_not_ok)

section \<open>Waiting\<close>

text \<open>An invariant of a future that is awaited alone.\<close>

lemma block_on_inv:
  assumes "block_on R p s = Some r" "I s"
    and step: "\<And>s s1. p s = (s1, None) \<Longrightarrow> I s \<Longrightarrow> I (rt_park R s1)"
  shows "\<exists>s1. I s1 \<and> p s1 = (fst r, Some (snd r))"
proof -
  have "Q = R \<longrightarrow> q = p \<longrightarrow> I s \<longrightarrow> (\<exists>s1. I s1 \<and> p s1 = (fst r, Some (snd r)))"
    if "block_on Q q s = Some r" for Q q s r
  proof (rule block_on.raw_induct [OF _ that, where P = "\<lambda>Q q s r.
      Q = R \<longrightarrow> q = p \<longrightarrow> I s \<longrightarrow> (\<exists>s1. I s1 \<and> p s1 = (fst r, Some (snd r)))"], intro impI)
    fix f Q q s r
    assume IH: "\<And>Q q s r. f Q q s = Some r \<Longrightarrow> Q = R \<longrightarrow> q = p \<longrightarrow> I s \<longrightarrow>
        (\<exists>s1. I s1 \<and> p s1 = (fst r, Some (snd r)))"
      and eq: "(case q s of (w, None) \<Rightarrow> f Q q (rt_park Q w) | (w, Some x) \<Rightarrow> Some (w, x)) = Some r"
      and Q: "Q = R" "q = p" and I: "I s"
    obtain s1 y where p: "p s = (s1, y)" by (cases "p s")
    show "\<exists>s1. I s1 \<and> p s1 = (fst r, Some (snd r))"
    proof (cases y)
      case None
      with eq Q p have "f R p (rt_park R s1) = Some r" by simp
      with IH step [of s s1] p None I show ?thesis by blast
    next
      case (Some x)
      with eq Q p I show ?thesis by auto
    qed
  qed
  with assms(1,2) show ?thesis by blast
qed

lemma block_on_connect:
  assumes "block_on (watched R) (rt_connect (watched R) i cn) s = Some (s', x)"
  shows "snd s' = snd s @ [Opened x]"
  using block_on_inv [OF assms, where I = "\<lambda>u. snd u = snd s"]
  by (force simp: watched_def note_ready_def split: prod.splits option.splits)

lemma block_on_sleep:
  assumes "block_on (watched R) (sleep_until (watched R) n) s = Some (s', x)"
  shows "snd s' = snd s"
  using block_on_inv [OF assms, where I = "\<lambda>u. snd u = snd s"]
  by (force simp: watched_def sleep_until_def split: if_splits)

end
