(* ===== verification/Example_Runs.thy ===== *)
theory Example_Runs
  imports Example_Tasks
begin

text \<open>
  What the programs \<open>ping_pong\<close> and \<open>connect\<close> do, over any runtime, and that \<open>connect\<close> ends
  over a runtime where time passes (locale \<open>timely_runtime\<close>). The crate's own connection,
  polled on one thread with a clock, is such a runtime (\<open>on_one_thread\<close>).
\<close>

section \<open>Runtimes where time passes\<close>

text \<open>
  Sends on the connection \<open>c\<close> are never pending, the clock moves while the tasks are
  parked, and only finitely many messages (\<open>n\<close> with \<open>pace w n\<close>) are there to be read at once.
\<close>

locale timely_runtime =
  fixes R :: "('w, 'c) runtime" and c :: 'c and pace :: "'w \<Rightarrow> nat \<Rightarrow> bool"
  assumes feed_ready: "pace w n \<Longrightarrow> rt_feed R c m w = (w', r) \<Longrightarrow>
      r \<noteq> None \<and> pace w' n \<and> rt_now R w \<le> rt_now R w'"
    and flush_ready: "pace w n \<Longrightarrow> rt_flush R c w = (w', r') \<Longrightarrow>
      r' \<noteq> None \<and> pace w' n \<and> rt_now R w \<le> rt_now R w'"
    and println_keeps: "pace w n \<Longrightarrow> pace (rt_println R l w) n \<and> rt_now R w \<le> rt_now R (rt_println R l w)"
    and next_consumes: "pace w n \<Longrightarrow> rt_next R c w = (w', item) \<Longrightarrow> rt_now R w \<le> rt_now R w' \<and>
      (case item of
         None \<Rightarrow> \<exists>k. pace w' k
       | Some (Inr (Some m)) \<Rightarrow> \<exists>k < n. pace w' k
       | _ \<Rightarrow> True)"
    and park_advances: "pace w n \<Longrightarrow> rt_now R w < rt_now R (rt_park R w) \<and> (\<exists>k. pace (rt_park R w) k)"

inductive brief :: "'c \<Rightarrow> 'c task \<Rightarrow> bool" for c where
  Brief_Stopped: "brief c (Stopped e)"
| Brief_Println: "brief c t \<Longrightarrow> brief c (Println l t)"
| Brief_Asleep: "brief c t \<Longrightarrow> brief c (Asleep n t)"
| Brief_Sleep: "brief c t \<Longrightarrow> brief c (Sleep d t)"
| Brief_Flushing: "(\<And>r. brief c (k r)) \<Longrightarrow> brief c (Flushing c k)"
| Brief_Sending: "(\<And>r. brief c (k r)) \<Longrightarrow> brief c (Sending c m k)"

lemma brief_try: "brief c t \<Longrightarrow> brief c (try_ok (\<lambda>_. t) r)"
  by (cases r) (auto intro: Brief_Stopped)

lemma sender_brief: "brief c (connect_sender c)"
  unfolding connect_sender_def by (intro brief.intros brief_try)

lemma select_step: "task_step R 0 t1 w = (w', Some t1') \<Longrightarrow> select_tasks R t1 t2 w = select_tasks R t1' t2 w'"
  by (subst select_tasks.simps, subst (2) select_tasks.simps) (simp add: poll_step)

context timely_runtime
begin

lemma receiver_poll:
  "pace w n \<Longrightarrow> \<exists>w' t'. poll_task R i (connect_receiver ds dm c Reading) w = Some (w', t') \<and>
    (exit_of t' = None \<longrightarrow> t' = connect_receiver ds dm c Reading \<and> rt_now R w \<le> rt_now R w' \<and> (\<exists>k. pace w' k))"
proof (induction n arbitrary: w rule: less_induct)
  case (less n)
  let ?rec = "connect_receiver ds dm c"
  obtain w1 item where nx: "rt_next R c w = (w1, item)" by (cases "rt_next R c w")
  note nc = next_consumes [OF less.prems nx]
  show ?case
  proof (cases item)
    case None
    then have "task_step R i (?rec Reading) w = (w1, None)" by (simp add: task_step_def nx)
    with nc None show ?thesis by (auto simp: poll_stuck)
  next
    case (Some it)
    let ?ph = "try_phase (receiver_reply ds dm) it"
    have st: "task_step R i (?rec Reading) w = (w1, Some (?rec ?ph))" by (simp add: task_step_def nx Some)
    from receiver_phases [of ds dm it] show ?thesis
    proof (elim disjE exE conjE)
      fix e
      assume "?ph = Leaving e"
      with st have "poll_task R i (?rec Reading) w = Some (w1, Stopped e)"
        by (simp add: poll_step poll_stuck task_step_def)
      then show ?thesis by auto
    next
      fix m l
      assume it: "it = Inr (Some m)" "?ph = Showing l"
      with nc Some obtain k where k: "k < n" "pace w1 k" "rt_now R w \<le> rt_now R w1" by auto
      let ?w2 = "rt_println R l w1"
      have "pace ?w2 k" "rt_now R w1 \<le> rt_now R ?w2" using println_keeps [OF k(2)] by simp_all
      with less.IH [OF k(1), of ?w2] k(3) obtain w' t' where
        "poll_task R i (?rec Reading) ?w2 = Some (w', t')"
        "exit_of t' = None \<longrightarrow> t' = ?rec Reading \<and> rt_now R w \<le> rt_now R w' \<and> (\<exists>k. pace w' k)"
        by fastforce
      moreover have "poll_task R i (?rec Reading) w = poll_task R i (?rec Reading) ?w2"
        using poll_step [OF st] it(2) poll_step [of R i "?rec (Showing l)" w1 ?w2 "?rec Reading"]
        by (simp add: task_step_def)
      ultimately show ?thesis by auto
    qed
  qed
qed

text \<open>A brief task, with its timer running, ends under \<open>select\<close> with the receiver.\<close>

lemma asleep_ends:
  assumes "\<And>w n. pace w n \<Longrightarrow> \<exists>r. select_tasks R t (connect_receiver ds dm c Reading) w = Some r"
    and "pace w n"
  shows "\<exists>r. select_tasks R (Asleep deadline t) (connect_receiver ds dm c Reading) w = Some r"
  using assms(2)
proof (induction "deadline - rt_now R w" arbitrary: w n rule: less_induct)
  case less
  let ?rec = "connect_receiver ds dm c Reading"
  show ?case
  proof (cases "deadline \<le> rt_now R w")
    case True
    then have "task_step R 0 (Asleep deadline t) w = (w, Some t)" by (simp add: task_step_def)
    with assms(1) [OF less.prems] show ?thesis by (simp add: select_step)
  next
    case False
    then have p1: "poll_task R 0 (Asleep deadline t) w = Some (w, Asleep deadline t)"
      by (intro poll_stuck) (simp add: task_step_def)
    obtain w' t' where p2: "poll_task R 1 ?rec w = Some (w', t')"
      "exit_of t' = None \<longrightarrow> t' = ?rec \<and> rt_now R w \<le> rt_now R w' \<and> (\<exists>k. pace w' k)"
      using receiver_poll [OF less.prems, where i = 1 and ds = ds and dm = dm] by (elim exE conjE) (rule that)
    show ?thesis
    proof (cases "exit_of t'")
      case (Some e)
      with p1 p2(1) show ?thesis by (subst select_tasks.simps) simp
    next
      case None
      with p2(2) obtain k where k: "t' = ?rec" "rt_now R w \<le> rt_now R w'" "pace w' k" by blast
      from park_advances [OF k(3)] obtain j where "rt_now R w' < rt_now R (rt_park R w')" "pace (rt_park R w') j"
        by blast
      with less.hyps [of "rt_park R w'" j] False k(2)
      have "\<exists>r. select_tasks R (Asleep deadline t) ?rec (rt_park R w') = Some r" by simp
      with p1 p2(1) None k(1) show ?thesis by (subst select_tasks.simps) simp
    qed
  qed
qed

lemma select_ends:
  "brief c t \<Longrightarrow> pace w n \<Longrightarrow> \<exists>r. select_tasks R t (connect_receiver ds dm c Reading) w = Some r"
proof (induction arbitrary: w n rule: brief.induct)
  case (Brief_Stopped e)
  have "poll_task R 0 (Stopped e) w = Some (w, Stopped e)" by (intro poll_stuck) (simp add: task_step_def)
  then show ?case by (subst select_tasks.simps) simp
next
  case (Brief_Println t l)
  have "task_step R 0 (Println l t) w = (rt_println R l w, Some t)" by (simp add: task_step_def)
  with Brief_Println(2) [of "rt_println R l w" n] println_keeps [OF Brief_Println(3), of l] show ?case
    by (simp add: select_step)
next
  case (Brief_Asleep t at)
  then show ?case by (blast intro: asleep_ends)
next
  case (Brief_Sleep t d)
  have "task_step R 0 (Sleep d t) w = (w, Some (Asleep (rt_now R w + as_nanos d) t))"
    by (simp add: task_step_def)
  with asleep_ends Brief_Sleep show ?case by (simp add: select_step)
next
  case (Brief_Flushing k)
  obtain w' r where f: "rt_flush R c w = (w', r)" by (cases "rt_flush R c w")
  from flush_ready [OF Brief_Flushing(3) f] obtain x where "r = Some x" "pace w' n" by auto
  moreover from this f have "task_step R 0 (Flushing c k) w = (w', Some (k x))" by (simp add: task_step_def)
  ultimately show ?case using Brief_Flushing(2) by (simp add: select_step)
next
  case (Brief_Sending k m)
  obtain w1 r where f: "rt_feed R c m w = (w1, r)" by (cases "rt_feed R c m w")
  from feed_ready [OF Brief_Sending(3) f] obtain x where x: "r = Some x" "pace w1 n" by auto
  show ?case
  proof (cases x)
    case (Inl e)
    with f x have "task_step R 0 (Sending c m k) w = (w1, Some (k (Inl e)))" by (simp add: task_step_def)
    with Brief_Sending(2) x(2) show ?thesis by (simp add: select_step)
  next
    case (Inr u)
    with f x have s: "task_step R 0 (Sending c m k) w = (w1, Some (Flushing c k))" by (simp add: task_step_def)
    obtain w2 r2 where g: "rt_flush R c w1 = (w2, r2)" by (cases "rt_flush R c w1")
    from flush_ready [OF x(2) g] obtain y where y: "r2 = Some y" "pace w2 n" by auto
    with g have "task_step R 0 (Flushing c k) w1 = (w2, Some (k y))" by (simp add: task_step_def)
    with s y Brief_Sending(2) show ?thesis by (simp add: select_step)
  qed
qed

lemma sleep_ends:
  "pace w n \<Longrightarrow> \<exists>w' k. block_on R (sleep_until R deadline) w = Some (w', ()) \<and> pace w' k"
proof (induction "deadline - rt_now R w" arbitrary: w n rule: less_induct)
  case less
  show ?case
  proof (cases "deadline \<le> rt_now R w")
    case True
    with less.prems show ?thesis by (subst block_on.simps) (auto simp: sleep_until_def)
  next
    case False
    from park_advances [OF less.prems] obtain k where "rt_now R w < rt_now R (rt_park R w)" "pace (rt_park R w) k"
      by blast
    with False less.hyps [of "rt_park R w" k] show ?thesis
      by (subst block_on.simps) (simp add: sleep_until_def)
  qed
qed

lemma main_ends:
  assumes "select_lib R sel" "rt_connect R 0 guest_connector w = (w1, Some (Inr c))" "pace w1 n"
  shows "\<exists>w' e. connect_main sel R ds dm w = Some (w', e)"
proof -
  have "block_on R (rt_connect R 0 guest_connector) w = Some (w1, Inr c)"
    by (subst block_on.simps) (simp add: assms(2))
  moreover obtain w2 k where "block_on R (sleep_until R (rt_now R w1 + as_nanos (from_millis 200))) w1 = Some (w2, ())"
    and "pace w2 k"
    using sleep_ends [OF assms(3)] by blast
  moreover obtain r where "select_tasks R (connect_sender c) (connect_receiver ds dm c Reading) w2 = Some r"
    using select_ends [OF sender_brief \<open>pace w2 k\<close>, of ds dm] by (elim exE) (rule that)
  then have "sel (connect_sender c) (connect_receiver ds dm c Reading) w2 = Some r"
    unfolding select_lib.returns_iff [OF assms(1)] by (rule select_tasks_run)
  ultimately show ?thesis by (cases r) (simp add: connect_main_def)
qed

text \<open>Recording what happens changes nothing of this.\<close>

lemma watched_timely: "timely_runtime (watched R) c (\<lambda>s. pace (fst s))"
proof (unfold_locales, goal_cases)
  case (1 s n m s' r)
  then show ?case using feed_ready [of "fst s" n m]
    by (auto simp: watched_def note_ready_def split: prod.splits)
next
  case (2 s n s' r)
  then show ?case using flush_ready [of "fst s" n]
    by (auto simp: watched_def note_ready_def split: prod.splits)
next
  case (3 s n l)
  then show ?case using println_keeps [of "fst s" n l] by (simp add: watched_def)
next
  case (4 s n s' item)
  then show ?case using next_consumes [of "fst s" n]
    by (auto simp: watched_def note_ready_def split: prod.splits option.splits sum.splits)
next
  case (5 s n)
  then show ?case using park_advances [of "fst s" n] by (simp add: watched_def)
qed

end

section \<open>The crate on one thread\<close>

text \<open>
  A runtime over the operations of \<open>app\<close>: each completes at once, and parking moves the clock,
  which counts nanoseconds beside the world. The sink has written an item when it took it.
\<close>

definition at_once :: "('w \<Rightarrow> 'w \<times> 'a) \<Rightarrow> 'w \<times> nat \<Rightarrow> ('w \<times> nat) \<times> 'a option" where
  "at_once p s = (case s of (w, now) \<Rightarrow> (case p w of (w, r) \<Rightarrow> ((w, now), Some r)))"

definition on_one_thread :: "('w, 'c) app \<Rightarrow> ('w \<times> nat, 'c) runtime" where
  "on_one_thread A =
    \<lparr>rt_connect = (\<lambda>i cn. at_once (app_connect A cn)),
     rt_feed = (\<lambda>c m. at_once (app_send A c m)),
     rt_flush = (\<lambda>c s. (s, Some (Inr ()))),
     rt_next = (\<lambda>c. at_once (app_next A c)),
     rt_now = snd,
     rt_println = (\<lambda>l (w, now). (app_println A l w, now)),
     rt_park = (\<lambda>(w, now). (w, Suc now))\<rparr>"

lemma on_one_thread_simps [simp]:
  "rt_connect (on_one_thread A) i cn (w, now) = (case app_connect A cn w of (w, r) \<Rightarrow> ((w, now), Some r))"
  "rt_feed (on_one_thread A) c m (w, now) = (case app_send A c m w of (w, r) \<Rightarrow> ((w, now), Some r))"
  "rt_flush (on_one_thread A) c s = (s, Some (Inr ()))"
  "rt_next (on_one_thread A) c (w, now) = (case app_next A c w of (w, r) \<Rightarrow> ((w, now), Some r))"
  "rt_now (on_one_thread A) (w, now) = now"
  "rt_println (on_one_thread A) l (w, now) = (app_println A l w, now)"
  "rt_park (on_one_thread A) (w, now) = (w, Suc now)"
  by (simp_all add: on_one_thread_def at_once_def)

definition at_hand :: "nat \<Rightarrow> ('w \<Rightarrow> bool) \<Rightarrow> ('w \<Rightarrow> bytes) \<Rightarrow> ('w \<Rightarrow> bytes list) \<Rightarrow>
    ('w \<times> rstring list) \<times> nat \<Rightarrow> nat \<Rightarrow> bool" where
  "at_hand limit healthy unread inbox s n \<longleftrightarrow>
    (\<exists>ms. length ms = n \<and> holds_bytes limit healthy unread inbox (fst (fst s)) ms)"

lemma one_thread_timely:
  assumes "winnow_lib W" and N: "framing_lib B N sent pumps healthy unread inbox"
    and conn: "ct_transport conn = Direct (with_max_frame_size limit)"
  shows "timely_runtime (on_one_thread (direct_app W B net N ds dm de)) conn (at_hand limit healthy unread inbox)"
proof (unfold_locales, goal_cases)
  case (1 s n m s' r)
  obtain w out now where s: "s = ((w, out), now)" by (metis prod.exhaust)
  from 1(1) s obtain ms where ms: "length ms = n" "holds_bytes limit healthy unread inbox w ms"
    by (auto simp: at_hand_def)
  then have "healthy w" by (simp add: holds_bytes_def)
  then obtain w' where w': "fr_send N (encode_message B m) w = (w', Inr ())" "healthy w'"
    "unread w' = unread w" "inbox w' = inbox w"
    by (rule send_keeps [OF N])
  with 1(2) s ms(1) holds_bytes_cong [OF ms(2) w'(2-4)] show ?case by (auto simp: at_hand_def)
next
  case (4 s n s' item)
  obtain w out now where s: "s = ((w, out), now)" by (metis prod.exhaust)
  have nx: "direct_next W B N conn = fr_next N (decode W B (with_max_frame_size limit))"
    by (simp add: direct_next_def conn)
  note src = holds_bytes_source [OF assms(1) N]
  from 4(1) s obtain ms where ms: "length ms = n" "holds_bytes limit healthy unread inbox w ms"
    by (auto simp: at_hand_def)
  show ?case
  proof (cases ms)
    case Nil
    with ms(2) obtain w' where "fr_next N (decode W B (with_max_frame_size limit)) w = (w', Inr None)"
      using message_source.next_end [OF src] by blast
    with 4(2) s nx show ?thesis by auto
  next
    case (Cons m ms')
    with ms(2) obtain w' ex where "fr_next N (decode W B (with_max_frame_size limit)) w =
        (w', Inr (Some \<lparr>content = m, extra_headers = ex\<rparr>))" "holds_bytes limit healthy unread inbox w' ms'"
      using message_source.next_message [OF src] by blast
    with 4(2) s nx ms(1) Cons show ?thesis
      by (auto simp: at_hand_def intro!: exI [of _ "length ms'"] exI [of _ ms'])
  qed
qed (auto simp: at_hand_def)

interpretation one_thread: timely_runtime
  "on_one_thread (direct_app winnow_ref vec_bytes_mut sample_net sim_net (\<lambda>s. s) (\<lambda>_. []) (\<lambda>_. []))"
  "client_transport_new (Direct (with_max_frame_size DEFAULT_MAX_FRAME_SIZE)) None None True"
  "at_hand DEFAULT_MAX_FRAME_SIZE (\<lambda>w. \<not> sim_closed w) (\<lambda>w. vb_data (sim_buf w)) sim_in"
  by (rule one_thread_timely [OF wref.winnow_lib_axioms sim.framing_lib_axioms]) (simp add: client_transport_new_def)

text \<open>Against a server that accepts a guest, such a connection is there after the handshake.\<close>

lemma one_thread_connected:
  assumes "winnow_lib W" and "framing_lib B N sent pumps healthy unread inbox"
    and "net_tcp_connect net ''127.0.0.1:61613'' w = (w1, Inr tcp)"
    and "accepts_guest healthy unread inbox ps w1"
  obtains s c n where
    "rt_connect (on_one_thread (direct_app W B net N ds dm de)) i guest_connector ((w, out), now) = (s, Some (Inr c))"
    "timely_runtime (on_one_thread (direct_app W B net N ds dm de)) c (at_hand DEFAULT_MAX_FRAME_SIZE healthy unread inbox)"
    "at_hand DEFAULT_MAX_FRAME_SIZE healthy unread inbox s n"
proof -
  obtain w2 conn where c: "connect W B net (\<lambda>_. N) (\<lambda>v. v) guest_connector w = (w2, Inr conn)"
    "ct_transport conn = Direct (with_max_frame_size DEFAULT_MAX_FRAME_SIZE)"
    "holds_bytes DEFAULT_MAX_FRAME_SIZE healthy unread inbox w2 (map snd ps)"
    by (rule guest_connected [OF assms])
  show thesis
    by (rule that [where s = "((w2, out), now)" and n = "length ps", OF _ one_thread_timely [OF assms(1,2) c(2)]])
      (use c(1,3) in \<open>auto simp: at_hand_def intro!: exI [of _ "map snd ps"]\<close>)
qed

lemma sample_connected_guest:
  obtains s c n where
    "rt_connect (on_one_thread (direct_app winnow_ref vec_bytes_mut sample_net sim_net (\<lambda>s. s) (\<lambda>_. []) (\<lambda>_. [])))
      0 guest_connector ((sim_of guest_reads, []), 0) = (s, Some (Inr c))"
    "timely_runtime (on_one_thread (direct_app winnow_ref vec_bytes_mut sample_net sim_net (\<lambda>s. s) (\<lambda>_. []) (\<lambda>_. [])))
      c (at_hand DEFAULT_MAX_FRAME_SIZE (\<lambda>w. \<not> sim_closed w) (\<lambda>w. vb_data (sim_buf w)) sim_in)"
    "at_hand DEFAULT_MAX_FRAME_SIZE (\<lambda>w. \<not> sim_closed w) (\<lambda>w. vb_data (sim_buf w)) sim_in s n"
proof -
  have "net_tcp_connect sample_net ''127.0.0.1:61613'' (sim_of guest_reads) = (sim_of guest_reads, Inr ())"
    by (simp add: sample_net_def)
  from one_thread_connected [OF wref.winnow_lib_axioms sim.framing_lib_axioms this guest_sample] that
  show thesis by blast
qed

section \<open>What the programs do\<close>

text \<open>
  C30: the program \<open>connect\<close> ends. Over a runtime whose sends are never pending, whose clock
  moves while the two futures wait, and where only finitely many messages can be read
  without waiting: if connecting succeeds, then \<open>main\<close> returns, at the latest when the
  sender's script is through, whether or not the server ever closes the stream.
\<close>

theorem connect_ends:
  assumes "timely_runtime R c pace" and "select_lib R sel" and "pace w1 n"
    and "rt_connect R 0 guest_connector w = (w1, Some (Inr c))"
  shows "\<exists>w' e. connect_main sel R ds dm w = Some (w', e)"
  by (rule timely_runtime.main_ends [OF assms(1,2,4,3)])

theorem connect_ends_witness:
  "\<exists>s e. connect_main (select_tasks (on_one_thread (direct_app winnow_ref vec_bytes_mut sample_net sim_net (\<lambda>s. s) (\<lambda>_. []) (\<lambda>_. []))))
      (on_one_thread (direct_app winnow_ref vec_bytes_mut sample_net sim_net (\<lambda>s. s) (\<lambda>_. []) (\<lambda>_. [])))
      (\<lambda>s. s) (\<lambda>_. []) ((sim_of guest_reads, []), 0) = Some (s, e)"
  by (rule sample_connected_guest) (rule connect_ends [OF _ sel.select_lib_axioms])

text \<open>
  C29: the program \<open>connect\<close>. Over any runtime, pending whenever it likes: when the program
  returns, it has failed to connect, or else what happened since is an interleaving of
  what its sender and its receiver did: the sender a part of its script (SUBSCRIBE, SEND,
  UNSUBSCRIBE, DISCONNECT, each fed, flushed and then reported), the receiver messages,
  each with the line for it. It returns what the sender returned, or if it had not, what
  the receiver returned; so without an error exactly if all four frames are out or the
  stream has ended.
\<close>

theorem connect_interleaves:
  assumes "select_lib (watched R) sel" and main: "connect_main sel (watched R) ds dm (w, []) = Some ((w', tr), e)"
  shows "(\<exists>err. tr = [Opened (Inl err)] \<and> e = Exit (Inl err)) \<or>
    (\<exists>c zs xs ys r1 r2. tr = Opened (Inr c) # zs \<and> zs \<in> shuffles xs ys \<and>
      follows (sender_script c) xs r1 \<and> receiver_history ds dm c ys r2 \<and>
      (r1 = Some e \<or> r1 = None \<and> r2 = Some e))"
proof -
  from main obtain s1 x where c: "block_on (watched R) (rt_connect (watched R) 0 guest_connector) (w, []) = Some (s1, x)"
    unfolding connect_main_def by (auto split: option.splits)
  have s1: "snd s1 = [Opened x]" using block_on_connect [OF c] by simp
  show ?thesis
  proof (cases x)
    case (Inl err)
    with main c s1 show ?thesis by (auto simp: connect_main_def)
  next
    case (Inr conn)
    with main c obtain s2 u where b: "block_on (watched R)
        (sleep_until (watched R) (rt_now (watched R) s1 + as_nanos (from_millis 200))) s1 = Some (s2, u)"
      unfolding connect_main_def by (auto split: option.splits)
    have s2: "snd s2 = [Opened (Inr conn)]" using block_on_sleep [OF b] s1 Inr by simp
    from main c b Inr have "sel (connect_sender conn) (connect_receiver ds dm conn Reading) s2 =
        Some ((w', tr), e)"
      by (simp add: connect_main_def)
    then have "select_run (watched R) (connect_sender conn) (connect_receiver ds dm conn Reading) s2 ((w', tr), e)"
      by (simp only: select_lib.returns_iff [OF assms(1)])
    from watched_select [OF this] s2 obtain zs where zs: "tr = Opened (Inr conn) # zs"
      "interleaved (connect_sender conn) (connect_receiver ds dm conn Reading) zs e" by auto
    then obtain xs ys t1 t2 where r: "zs \<in> shuffles xs ys" "task_does (connect_sender conn) xs t1"
      "task_does (connect_receiver ds dm conn Reading) ys t2"
      "exit_of t1 = Some e \<or> exit_of t1 = None \<and> exit_of t2 = Some e"
      unfolding interleaved_def by blast
    have "follows (sender_script conn) xs (exit_of t1)"
      using sender_scripted [of conn] r(2) unfolding scripted_def by blast
    with receiver_does [OF r(3)] r(1,4) zs(1) show ?thesis by blast
  qed
qed

lemma watched_ends:
  assumes "timely_runtime R c pace" "pace w1 n" "rt_connect R 0 guest_connector w = (w1, Some (Inr c))"
  obtains w' tr e where "connect_main (select_tasks (watched R)) (watched R) ds dm (w, []) = Some ((w', tr), e)"
proof -
  have "rt_connect (watched R) 0 guest_connector (w, []) = ((w1, [Opened (Inr c)]), Some (Inr c))"
    by (simp add: watched_def note_ready_def assms(3))
  then have "\<exists>s e. connect_main (select_tasks (watched R)) (watched R) ds dm (w, []) = Some (s, e)"
    using timely_runtime.main_ends [OF timely_runtime.watched_timely [OF assms(1)] sel.select_lib_axioms, where n = n]
      assms(2) by fastforce
  then show thesis using that by (metis prod.exhaust)
qed

theorem connect_interleaves_witness:
  "\<exists>w' tr e. connect_main (select_tasks (watched (on_one_thread (direct_app winnow_ref vec_bytes_mut sample_net sim_net (\<lambda>s. s) (\<lambda>_. []) (\<lambda>_. [])))))
      (watched (on_one_thread (direct_app winnow_ref vec_bytes_mut sample_net sim_net (\<lambda>s. s) (\<lambda>_. []) (\<lambda>_. []))))
      (\<lambda>s. s) (\<lambda>_. []) (((sim_of guest_reads, []), 0), []) = Some ((w', tr), e) \<and>
    ((\<exists>err. tr = [Opened (Inl err)] \<and> e = Exit (Inl err)) \<or>
     (\<exists>c zs xs ys r1 r2. tr = Opened (Inr c) # zs \<and> zs \<in> shuffles xs ys \<and>
       follows (sender_script c) xs r1 \<and> receiver_history (\<lambda>s. s) (\<lambda>_. []) c ys r2 \<and>
       (r1 = Some e \<or> r1 = None \<and> r2 = Some e)))"
proof -
  obtain w' tr e where r: "connect_main (select_tasks (watched (on_one_thread (direct_app winnow_ref vec_bytes_mut sample_net sim_net (\<lambda>s. s) (\<lambda>_. []) (\<lambda>_. [])))))
      (watched (on_one_thread (direct_app winnow_ref vec_bytes_mut sample_net sim_net (\<lambda>s. s) (\<lambda>_. []) (\<lambda>_. []))))
      (\<lambda>s. s) (\<lambda>_. []) (((sim_of guest_reads, []), 0), []) = Some ((w', tr), e)"
    by (rule sample_connected_guest) (rule watched_ends)
  with connect_interleaves [OF sel.select_lib_axioms r] show ?thesis by blast
qed

text \<open>
  Both programs take it for granted that a MESSAGE has a body, which an empty one has not.
  Against a server whose first message is such a one, \<open>ping_pong\<close> panics as soon as its first
  client has read it.
\<close>

theorem empty_message_panics:
  assumes "winnow_lib W" and N: "framing_lib B N sent pumps healthy unread inbox"
    and "net_tcp_connect net ''127.0.0.1:61613'' w = (w1, Inr tcp)"
    and "accepts_guest healthy unread inbox ((es, Msg d i s a hs None) # ps) w1"
  shows "\<exists>w'. poll_task (on_one_thread (direct_app W B net N ds dm de)) j
      (ping_pong_client dm listens sends msg) ((w, out), now) = Some (((w', out), now), Stopped Panicked)"
proof -
  let ?A = "direct_app W B net N ds dm de" and ?limit = DEFAULT_MAX_FRAME_SIZE
  let ?m = "subscribe_to listens ''myid''"
  obtain w2 w3 conn where c: "connect W B net (\<lambda>_. N) (\<lambda>v. v) guest_connector w = (w2, Inr conn)"
    "ct_transport conn = Direct (with_max_frame_size ?limit)"
    "fr_send N (encode_message B ?m) w2 = (w3, Inr ())"
    "holds_bytes ?limit healthy unread inbox w3 (map snd ((es, Msg d i s a hs None) # ps))"
    by (rule guest_session [OF assms])
  then have "healthy w3" by (simp add: holds_bytes_def)
  then obtain w4 where w4: "fr_send N (encode_message B (greeting sends msg)) w3 = (w4, Inr ())" "healthy w4"
    "unread w4 = unread w3" "inbox w4 = inbox w3"
    by (rule send_keeps [OF N])
  have "holds_bytes ?limit healthy unread inbox w4 (Msg d i s a hs None # map snd ps)"
    using holds_bytes_cong [OF c(4) w4(2-4)] by simp
  then obtain w5 ex where w5: "fr_next N (decode W B (with_max_frame_size ?limit)) w4 =
      (w5, Inr (Some \<lparr>content = Msg d i s a hs None, extra_headers = ex\<rparr>))"
    using message_source.next_message [OF holds_bytes_source [OF assms(1,2)]] by blast
  have "poll_task (on_one_thread ?A) j (ping_pong_client dm listens sends msg) ((w, out), now) =
      Some (((w5, out), now), Stopped Panicked)"
    unfolding ping_pong_client_def
    by (simp add: poll_simps c(1,3) w4(1) w5 direct_next_def c(2) pong_reply_def)
  then show ?thesis by blast
qed

text \<open>
  C31: the program \<open>ping_pong\<close>. Over any runtime, pending whenever it likes: what has
  happened when the program returns is an interleaving of what its two clients did, each
  of which connected, subscribed to its queue and then played rounds, sending one message
  and printing one received, never sending again before it has got a message; it returns
  what made one of them leave, the first one if both did, and it never returns without an
  error.
\<close>

theorem ping_pong_interleaves:
  assumes "select_lib (watched R) sel" and "ping_pong_main sel dm (w, []) = Some ((w', tr), e)"
  shows "e \<noteq> Exit (Inr ()) \<and>
    (\<exists>xs ys r1 r2. tr \<in> shuffles xs ys \<and>
      client_history dm (subscribe_to ''ping'' ''myid'') (greeting ''pong'' ''PONG!'') xs r1 \<and>
      client_history dm (subscribe_to ''pong'' ''myid'') (greeting ''ping'' ''PING!'') ys r2 \<and>
      (r1 = Some e \<or> r1 = None \<and> r2 = Some e))"
proof -
  have "interleaved (ping_pong_client dm ''ping'' ''pong'' ''PONG!'')
      (ping_pong_client dm ''pong'' ''ping'' ''PING!'') tr e"
    using watched_select [OF iffD1 [OF select_lib.returns_iff [OF assms(1)] assms(2) [unfolded ping_pong_main_def]]]
    by simp
  then obtain xs ys t1 t2 where r: "tr \<in> shuffles xs ys"
    "task_does (ping_pong_client dm ''ping'' ''pong'' ''PONG!'') xs t1"
    "task_does (ping_pong_client dm ''pong'' ''ping'' ''PING!'') ys t2"
    "exit_of t1 = Some e \<or> exit_of t1 = None \<and> exit_of t2 = Some e"
    unfolding interleaved_def by blast
  from client_does [OF r(2)] client_does [OF r(3)] r(1,4) show ?thesis
    using client_history_not_ok by metis
qed

lemma sample_panics:
  obtains s tr where "ping_pong_main
      (select_tasks (watched (on_one_thread (direct_app winnow_ref vec_bytes_mut sample_net sim_net (\<lambda>s. s) (\<lambda>_. []) (\<lambda>_. [])))))
      (\<lambda>_. []) (((sim_of guest_reads, []), 0), []) = Some ((s, tr), Panicked)"
proof -
  let ?R = "on_one_thread (direct_app winnow_ref vec_bytes_mut sample_net sim_net (\<lambda>s. s) (\<lambda>_. []) (\<lambda>_. []))"
  let ?t = "ping_pong_client (\<lambda>_. []) ''ping'' ''pong'' ''PONG!''"
  have "net_tcp_connect sample_net ''127.0.0.1:61613'' (sim_of guest_reads) = (sim_of guest_reads, Inr ())"
    by (simp add: sample_net_def)
  from empty_message_panics [OF wref.winnow_lib_axioms sim.framing_lib_axioms this guest_sample [unfolded guest_items_def]]
  obtain w' where "poll_task ?R 0 ?t ((sim_of guest_reads, []), 0) = Some (((w', []), 0), Stopped Panicked)"
    by blast
  from watched_poll_same [OF this, of "[]"]
  obtain es where "poll_task (watched ?R) 0 ?t (((sim_of guest_reads, []), 0), []) =
      Some ((((w', []), 0), [] @ es), Stopped Panicked)"
    by (elim exE) (rule that)
  then have "select_run (watched ?R) ?t (ping_pong_client (\<lambda>_. []) ''pong'' ''ping'' ''PING!'')
      (((sim_of guest_reads, []), 0), []) ((((w', []), 0), [] @ es), Panicked)"
    by (rule select_run.First) simp
  from that [unfolded ping_pong_main_def, OF select_run_tasks [OF this]] show thesis .
qed

theorem ping_pong_interleaves_witness:
  "\<exists>s tr. ping_pong_main
      (select_tasks (watched (on_one_thread (direct_app winnow_ref vec_bytes_mut sample_net sim_net (\<lambda>s. s) (\<lambda>_. []) (\<lambda>_. [])))))
      (\<lambda>_. []) (((sim_of guest_reads, []), 0), []) = Some ((s, tr), Panicked) \<and>
    Panicked \<noteq> Exit (Inr ()) \<and>
    (\<exists>xs ys r1 r2. tr \<in> shuffles xs ys \<and>
      client_history (\<lambda>_. []) (subscribe_to ''ping'' ''myid'') (greeting ''pong'' ''PONG!'') xs r1 \<and>
      client_history (\<lambda>_. []) (subscribe_to ''pong'' ''myid'') (greeting ''ping'' ''PING!'') ys r2 \<and>
      (r1 = Some Panicked \<or> r1 = None \<and> r2 = Some Panicked))"
proof -
  obtain s tr where r: "ping_pong_main
      (select_tasks (watched (on_one_thread (direct_app winnow_ref vec_bytes_mut sample_net sim_net (\<lambda>s. s) (\<lambda>_. []) (\<lambda>_. [])))))
      (\<lambda>_. []) (((sim_of guest_reads, []), 0), []) = Some ((s, tr), Panicked)"
    by (rule sample_panics)
  with ping_pong_interleaves [OF sel.select_lib_axioms r] show ?thesis by blast
qed

end
