(* ===== verification/Silent_Server.thy ===== *)
theory Silent_Server
  imports Supervised_Peer
begin

text \<open>
  Awaiting a message from a server that has gone silent: what \<open>conn.next()\<close> and
  \<open>tokio::time::timeout\<close> around it come to, with the runtime that wakes the caller as a
  parameter. \<open>Transport\<close> says what one poll returns; this is about the polls together.
\<close>

section \<open>Awaiting the stream\<close>

text \<open>
  \<open>StreamExt::next\<close>: poll; while the answer is pending, sleep until woken (\<open>idle\<close>) and poll
  again. A future that is never ready is \<open>None\<close>.
\<close>

partial_function (option) transport_next :: "('w \<Rightarrow> 'w) \<Rightarrow> 'w endpoint \<Rightarrow> ('k, 'z) live_transport_scheme \<Rightarrow>
    'w \<Rightarrow> ('w \<times> from_server message result option) option" where
  "transport_next idle E self w =
    (case transport_poll_next E self w of
       None \<Rightarrow> None
     | Some (w, y) \<Rightarrow>
         (case y of Ready x \<Rightarrow> Some (w, x) | Pending \<Rightarrow> transport_next idle E self (idle w)))"

text \<open>
  The same under \<open>timeout\<close>, which polls the future before it looks at the clock: \<open>None\<close> as the
  outcome is that the time \<open>until\<close> came first.
\<close>

partial_function (option) transport_next_until :: "('w \<Rightarrow> 'w) \<Rightarrow> 'w endpoint \<Rightarrow> ('k, 'z) live_transport_scheme \<Rightarrow>
    nat \<Rightarrow> 'w \<Rightarrow> ('w \<times> from_server message result option option) option" where
  "transport_next_until idle E self until w =
    (case transport_poll_next E self w of
       None \<Rightarrow> None
     | Some (w, y) \<Rightarrow>
         (case y of
            Ready x \<Rightarrow> Some (w, Some x)
          | Pending \<Rightarrow>
              if until \<le> ep_now E w then Some (w, None)
              else transport_next_until idle E self until (idle w)))"

section \<open>A silent server\<close>

text \<open>
  Reading finds nothing. A ticker that was polled and not ready has registered the caller
  (\<open>armed\<close>), which is then woken at most \<open>late\<close> after the deadline; one that was ready has not.
  Being woken early or for nothing is allowed.
\<close>

locale silent_server = ticker_lib E deadline period
  for E :: "'w endpoint" and deadline :: "'w \<Rightarrow> nat" and period :: nat +
  fixes idle :: "'w \<Rightarrow> 'w" and armed :: "'w \<Rightarrow> bool" and late :: nat
  assumes nothing_read: "ep_poll_next E w = (w', y) \<or> ep_reader_next E w = (w', y) \<Longrightarrow>
        y = Pending \<and> ep_now E w' = ep_now E w \<and> deadline w' = deadline w \<and>
        ep_last_read E w' = ep_last_read E w \<and> ep_reader_last_read E w' = ep_reader_last_read E w"
    and time_passes: "ep_now E w < ep_now E (idle w)"
    and registers: "ep_poll_tick E w = (w', False) \<Longrightarrow> armed w'"
    and woken: "armed w \<Longrightarrow> ep_now E (idle w) \<le> deadline w + late"
    and idle_keeps: "deadline (idle w) = deadline w" "ep_last_read E (idle w) = ep_last_read E w"
        "ep_reader_last_read E (idle w) = ep_reader_last_read E w"
begin

lemma idle_last_read: "transport_last_read E self (idle w) = transport_last_read E self w"
  by (simp add: transport_last_read_def idle_keeps split: wiring.split)

lemma silent_poll:
  obtains w1 where "transport_poll_next E self w = poll_server_timeout E self w1" "ep_now E w1 = ep_now E w"
    "deadline w1 = deadline w" "ep_last_read E w1 = ep_last_read E w"
    "ep_reader_last_read E w1 = ep_reader_last_read E w"
proof -
  obtain w1 y where p: "(case ct_transport self of Direct c \<Rightarrow> ep_poll_next E w | Pumped c \<Rightarrow> ep_reader_next E w) = (w1, y)"
    by (rule prod.exhaust)
  with nothing_read [of w w1 y]
  have q: "y = Pending" "ep_now E w1 = ep_now E w" "deadline w1 = deadline w"
    "ep_last_read E w1 = ep_last_read E w" "ep_reader_last_read E w1 = ep_reader_last_read E w"
    by (auto split: wiring.splits)
  from p q(1) have "transport_poll_next E self w = poll_server_timeout E self w1"
    by (simp add: transport_poll_next_def)
  from that [OF this q(2-5)] show thesis .
qed

lemma supervised_silence:
  assumes "ct_supervise self = Some (tolerance, d)"
  obtains w' where "transport_poll_next E self w =
      Some (w', if as_nanos tolerance < ep_now E w - transport_last_read E self w
              then Ready (Some (Inl (Server_Quiet (ep_now E w - transport_last_read E self w)
                                       (as_nanos (div_duration tolerance 2)))))
              else Pending)"
    "ep_now E w' = ep_now E w" "transport_last_read E self w' = transport_last_read E self w"
    "armed w'" "deadline w' \<le> max (deadline w) (ep_now E w + period)"
proof -
  obtain w1 where w1: "transport_poll_next E self w = poll_server_timeout E self w1" "ep_now E w1 = ep_now E w"
    "deadline w1 = deadline w" "ep_last_read E w1 = ep_last_read E w"
    "ep_reader_last_read E w1 = ep_reader_last_read E w"
    by (rule silent_poll)
  obtain w' where w': "drain_ticks E w1 = Some w'" "ep_now E w' = ep_now E w1"
    "ep_last_read E w' = ep_last_read E w1" "ep_reader_last_read E w' = ep_reader_last_read E w1"
    "armed w'" "deadline w' \<le> max (deadline w1) (ep_now E w1 + period)"
    using drain_ends [of w1] registers by blast
  have r: "transport_last_read E self w' = transport_last_read E self w"
    using w1(4,5) w'(3,4) by (simp add: transport_last_read_def split: wiring.split)
  show thesis
    by (rule that [of w']) (use w1 w' r assms in \<open>simp_all add: poll_server_timeout_def Let_def\<close>)
qed

text \<open>A server that is watched is found out, after no more than the tolerance and one more period.\<close>

lemma silence_detected:
  fixes self :: "('k, 'z) live_transport_scheme"
  assumes sup: "ct_supervise self = Some (tolerance, d)"
  shows "deadline w \<le> ep_now E w + period \<Longrightarrow>
    \<exists>w'. (let quiet = ep_now E w' - transport_last_read E self w;
              e = Some (Inl (Server_Quiet quiet (as_nanos (div_duration tolerance 2))))
          in transport_next idle E self w = Some (w', e) \<and> as_nanos tolerance < quiet \<and>
             (\<forall>until. ep_now E w' \<le> until \<longrightarrow> transport_next_until idle E self until w = Some (w', Some e))) \<and>
      ep_now E w \<le> ep_now E w' \<and>
      ep_now E w' \<le> max (ep_now E w) (transport_last_read E self w + as_nanos tolerance + period + late)"
proof (induction "Suc (transport_last_read E self w + as_nanos tolerance) - ep_now E w" arbitrary: w
    rule: less_induct)
  case less
  let ?r = "transport_last_read E self w"
  obtain w1 where w1: "transport_poll_next E self w =
      Some (w1, if as_nanos tolerance < ep_now E w - ?r
              then Ready (Some (Inl (Server_Quiet (ep_now E w - ?r) (as_nanos (div_duration tolerance 2)))))
              else Pending)"
    "ep_now E w1 = ep_now E w" "transport_last_read E self w1 = ?r"
    "armed w1" "deadline w1 \<le> max (deadline w) (ep_now E w + period)"
    by (rule supervised_silence [OF sup])
  note step = transport_next.simps [of idle E self w] transport_next_until.simps [of idle E self _ w]
  show ?case
  proof (cases "as_nanos tolerance < ep_now E w - ?r")
    case True
    with w1(1,2) show ?thesis by (intro exI [of _ w1]) (simp add: step)
  next
    case False
    let ?v = "idle w1"
    have v: "ep_now E w < ep_now E ?v" "ep_now E ?v \<le> deadline w1 + late" "deadline ?v = deadline w1"
      "transport_last_read E self ?v = ?r"
      using time_passes [of w1] woken [of w1] w1(2-4) by (simp_all add: idle_keeps(1) idle_last_read)
    then have "Suc (transport_last_read E self ?v + as_nanos tolerance) - ep_now E ?v <
        Suc (?r + as_nanos tolerance) - ep_now E w" "deadline ?v \<le> ep_now E ?v + period"
      using False w1(5) less.prems by auto
    from less.hyps [OF this] v(4) obtain w' where w': "let quiet = ep_now E w' - ?r;
              e = Some (Inl (Server_Quiet quiet (as_nanos (div_duration tolerance 2))))
          in transport_next idle E self ?v = Some (w', e) \<and> as_nanos tolerance < quiet \<and>
             (\<forall>until. ep_now E w' \<le> until \<longrightarrow> transport_next_until idle E self until ?v = Some (w', Some e))"
      "ep_now E ?v \<le> ep_now E w'"
      "ep_now E w' \<le> max (ep_now E ?v) (?r + as_nanos tolerance + period + late)"
      by auto
    have "ep_now E w' \<le> max (ep_now E w) (?r + as_nanos tolerance + period + late)"
      using w'(3) v(2) w1(5) less.prems False by auto
    with w' v(1) w1(1,2) False show ?thesis
      by (intro exI [of _ w']) (auto simp: step Let_def)
  qed
qed

text \<open>One that is not watched is waited for as long as the caller is ready to wait.\<close>

lemma unsupervised_silence:
  assumes "ct_supervise self = None"
  obtains w' where "transport_poll_next E self w = Some (w', Pending)" "ep_now E w' = ep_now E w"
  using silent_poll [of self w] that assms by (force simp: poll_server_timeout_def)

lemma silence_endured:
  assumes "ct_supervise self = None"
  shows "transport_next idle E self w = None" (is ?never)
    and "\<exists>w'. transport_next_until idle E self until w = Some (w', None) \<and> until \<le> ep_now E w'" (is "?waits w")
proof -
  have "False" if "transport_next idle E self w = Some y" for y w
  proof (rule transport_next.raw_induct
      [where P = "\<lambda>i (e :: 'w endpoint) s w y. i = idle \<longrightarrow> e = E \<longrightarrow> s = self \<longrightarrow> False",
        OF _ that, rule_format])
    fix f :: "('w \<Rightarrow> 'w) \<Rightarrow> 'w endpoint \<Rightarrow> ('a, 'b) live_transport_scheme \<Rightarrow> 'w \<Rightarrow> _"
    fix i e s w y
    assume ih: "\<And>i e s w y. f i e s w = Some y \<Longrightarrow> i = idle \<Longrightarrow> e = E \<Longrightarrow> s = self \<Longrightarrow> False"
      and eq: "(case transport_poll_next e s w of None \<Rightarrow> None
        | Some (w, y) \<Rightarrow> (case y of Pending \<Rightarrow> f i e s (i w) | Ready x \<Rightarrow> Some (w, x))) = Some y"
      and "i = idle" "e = E" "s = self"
    moreover obtain w' where "transport_poll_next E self w = Some (w', Pending)"
      by (rule unsupervised_silence [OF assms])
    ultimately show False using ih [of idle E self "idle w'" y] by simp
  qed simp_all
  then show ?never by (metis option.exhaust)
  show "?waits w"
  proof (induction "Suc until - ep_now E w" arbitrary: w rule: less_induct)
    case less
    obtain w1 where w1: "transport_poll_next E self w = Some (w1, Pending)" "ep_now E w1 = ep_now E w"
      by (rule unsupervised_silence [OF assms])
    note step = transport_next_until.simps [of idle E self until w]
    show ?case
    proof (cases "until \<le> ep_now E w")
      case False
      then have "Suc until - ep_now E (idle w1) < Suc until - ep_now E w"
        using time_passes [of w1] w1(2) by auto
      from less.hyps [OF this] False w1 show ?thesis by (simp add: step)
    qed (use w1 in \<open>simp add: step\<close>)
  qed
qed

end

text \<open>The simulated ticker, on a runtime that wakes the caller at the deadline.\<close>

definition tick_idle :: "tick_sim \<Rightarrow> tick_sim" where
  "tick_idle w = w\<lparr>ts_now := (if ts_now w < ts_deadline w then ts_deadline w else Suc (ts_now w))\<rparr>"

interpretation silence: silent_server "tick_endpoint (Suc n)" ts_deadline "Suc n" tick_idle
  "\<lambda>w. ts_now w < ts_deadline w" 0 for n
  by unfold_locales (auto simp: tick_endpoint_def tick_idle_def split: if_splits)

section \<open>Detection\<close>

text \<open>
  C14: a dead server is found out, and in time. Awaiting the next message of a connection
  whose server has gone silent returns when an incoming interval was negotiated and the
  handling is automatic, over either wiring: with the error that says for how long the
  server was quiet, more than twice the interval after it was last heard, and no later
  than three intervals after it (or at once, where these have already passed), plus the
  lateness of the runtime. In every other case it never returns, and a timeout around it
  runs out.
\<close>

theorem silent_server_detected:
  fixes pump :: "'k pump"
  assumes "silent_server E deadline period idle armed late" and "deadline w \<le> ep_now E w + period"
    and "\<And>d. q = Some d \<Longrightarrow> period = as_nanos d"
  shows "let self = live_of (client_transport_new tr p q auto) pump;
      heard = (case tr of Direct c \<Rightarrow> ep_last_read E w | Pumped c \<Rightarrow> ep_reader_last_read E w)
    in (if q \<noteq> None \<and> auto
        then \<exists>w'. transport_next idle E self w =
              Some (w', Some (Inl (Server_Quiet (ep_now E w' - heard) (as_nanos (the q))))) \<and>
            heard + 2 * as_nanos (the q) < ep_now E w' \<and>
            ep_now E w' \<le> max (ep_now E w) (heard + 3 * as_nanos (the q) + late)
        else transport_next idle E self w = None \<and>
            (\<forall>until. \<exists>w'. transport_next_until idle E self until w = Some (w', None) \<and> until \<le> ep_now E w'))"
proof -
  let ?self = "live_of (client_transport_new tr p q auto) pump"
  have t: "ct_supervise ?self = (if auto then map_option (\<lambda>d. (times_duration d 2, d)) q else None)"
    "transport_last_read E ?self w = (case tr of Direct c \<Rightarrow> ep_last_read E w | Pumped c \<Rightarrow> ep_reader_last_read E w)"
    by (simp_all add: live_of_def client_transport_new_def transport_last_read_def Let_def)
  show ?thesis
  proof (cases "q \<noteq> None \<and> auto")
    case True
    then obtain d where d: "q = Some d" by auto
    with True t(1) have "ct_supervise ?self = Some (times_duration d 2, d)" by simp
    from silent_server.silence_detected [OF assms(1) this assms(2)] obtain w' where
      "transport_next idle E ?self w =
        Some (w', Some (Inl (Server_Quiet (ep_now E w' - transport_last_read E ?self w) (as_nanos d))))"
      "2 * as_nanos d < ep_now E w' - transport_last_read E ?self w"
      "ep_now E w' \<le> max (ep_now E w) (transport_last_read E ?self w + 3 * as_nanos d + late)"
      by (auto simp: Let_def assms(3) [OF d] mult.commute)
    with True d show ?thesis
      unfolding Let_def t(2) by (auto intro!: exI [of _ w'])
  next
    case False
    then have "ct_supervise ?self = None" using t(1) by (cases q) auto
    from silent_server.silence_endured [OF assms(1) this] False show ?thesis
      unfolding Let_def by auto
  qed
qed

theorem silent_server_detected_witness:
  "\<exists>w'. transport_next tick_idle (tick_endpoint (Suc 9))
      (live_of (client_transport_new (Direct codec_new) None (Some (Nanos 10)) True) idle_pump)
      \<lparr>ts_now = 8, ts_deadline = 3, ts_last_read = 2\<rparr> =
    Some (w', Some (Inl (Server_Quiet (ts_now w' - 2) 10))) \<and> 22 < ts_now w' \<and> ts_now w' \<le> 32"
  using silent_server_detected [OF silence.silent_server_axioms [of 9],
      where w = "\<lparr>ts_now = 8, ts_deadline = 3, ts_last_read = 2\<rparr>" and q = "Some (Nanos 10)" and auto = True
        and tr = "Direct codec_new" and p = None and pump = idle_pump]
  by (simp add: tick_endpoint_def Let_def)

end
