(* ===== verification/Heartbeat_Tests.thy ===== *)
theory Heartbeat_Tests
  imports Network_Tests Silent_Server
begin

text \<open>
  The integration tests of \<open>tests/heartbeat.rs\<close> that bring their own server. As in
  \<open>Network_Tests\<close>, what the server writes is the inbox of the client's network and what it
  reads is what the client \<open>sent\<close>. A window of time in which the client is left alone is a run
  of the task that writes for it (\<open>idle_window\<close>), or of nothing where there is none.
\<close>

section \<open>The server of the tests\<close>

text \<open>\<open>read_frame\<close>: byte by byte up to the NULL that ends the frame, and what is left to read.\<close>

fun read_frame_bytes :: "bytes \<Rightarrow> bytes \<Rightarrow> bytes \<times> bytes" where
  "read_frame_bytes frame [] = (frame, [])"
| "read_frame_bytes frame (byte # sock) =
    (if byte \<noteq> NUL then read_frame_bytes (frame @ [byte]) sock else (frame, sock))"

definition read_frame_text :: "bytes \<Rightarrow> (rstring \<times> bytes) option" where
  "read_frame_text sock =
    (case read_frame_bytes [] sock of
       (frame, sock) \<Rightarrow> if utf8_valid frame then Some (frame, sock) else None)"

text \<open>\<open>accept_handshake\<close>: what it answers, and the CONNECT frame it returns.\<close>

definition handshake_reply :: "rstring \<Rightarrow> bytes" where
  "handshake_reply heartbeat = ''CONNECTED\<newline>version:1.2\<newline>heart-beat:'' @ heartbeat @ [LF, LF, NUL]"

definition accept_handshake :: "bytes \<Rightarrow> (bytes \<times> rstring) option" where
  "accept_handshake sock = map_option (\<lambda>(connect_frame, sock). (sock, connect_frame)) (read_frame_text sock)"

text \<open>
  \<open>collect_for\<close> while the client is idle: the rounds of its task until the time \<open>until\<close>, with
  \<open>wait\<close> for what the task waits for; \<open>None\<close> is that nothing comes in the window.
\<close>

primrec idle_window :: "'b bytes_mut \<Rightarrow> ('w, 'k) channels \<Rightarrow> ('w, 'b) framed_writer \<Rightarrow>
    (duration option \<Rightarrow> 'w \<Rightarrow> ('w \<times> 'k pump_event) option) \<Rightarrow> ('w \<Rightarrow> nat) \<Rightarrow> duration option \<Rightarrow> nat \<Rightarrow>
    nat \<Rightarrow> 'w \<Rightarrow> 'w" where
  "idle_window B C X wait now interval until 0 w = w"
| "idle_window B C X wait now interval until (Suc n) w =
    (case wait interval w of
       None \<Rightarrow> w
     | Some (v, ev) \<Rightarrow>
         (case pump_turn B C X ev v of
            (v, go) \<Rightarrow>
              if until < now v then w
              else if go then idle_window B C X wait now interval until n v else v))"

definition collect_for :: "('w \<Rightarrow> bytes) \<Rightarrow> 'w \<Rightarrow> 'w \<Rightarrow> bytes" where
  "collect_for out w v = drop (length (out w)) (out v)"

text \<open>\<open>send_msg\<close>.\<close>

definition send_msg :: "to_server message" where
  "send_msg = message_from (Send ''/test'' None None (Some ''payload''))"

definition heartbeat_connector :: "rstring \<Rightarrow> (rstring, rstring) connector" where
  "heartbeat_connector addr = set_virtualhost ''/'' (set_server addr connector_builder)"

definition millis :: "nat \<Rightarrow> nat" where
  "millis n = as_nanos (from_millis n)"

section \<open>The tests\<close>

text \<open>\<open>connect\<close> and \<open>expect\<close>: what the rest of the test does with the connection.\<close>

definition connected :: "('w \<times> client_transport result) \<Rightarrow> ('w \<Rightarrow> client_transport \<Rightarrow> bool) \<Rightarrow> bool" where
  "connected r test = (case r of (w, Inl e) \<Rightarrow> False | (w, Inr conn) \<Rightarrow> test w conn)"

text \<open>
  \<open>connecting\<close> is \<open>Connector::connect\<close> on the server at hand. The state \<open>u\<close> is that of the
  task's end of the connection, with the interval the task was started with.
\<close>

definition sends_heartbeats_when_idle :: "'b bytes_mut \<Rightarrow> ('u, 'k) channels \<Rightarrow> ('u, 'b) framed_writer \<Rightarrow>
    (duration option \<Rightarrow> 'u \<Rightarrow> ('u \<times> 'k pump_event) option) \<Rightarrow> ('u \<Rightarrow> nat) \<Rightarrow> ('u \<Rightarrow> bytes) \<Rightarrow> nat \<Rightarrow> 'u \<Rightarrow>
    ((rstring, rstring) connector \<Rightarrow> 'w \<times> client_transport result) \<Rightarrow> ('w \<Rightarrow> bytes) \<Rightarrow>
    ('w \<Rightarrow> duration option list) \<Rightarrow> rstring \<Rightarrow> bool" where
  "sends_heartbeats_when_idle B C X wait now out n u connecting sent pumps addr =
    connected (connecting (set_heartbeat 250 250 (heartbeat_connector addr))) (\<lambda>w conn.
      (case accept_handshake (sent w) of
         None \<Rightarrow> False
       | Some (sock, connect_frame) \<Rightarrow>
           str_contains ''heart-beat:250,250'' connect_frame \<and>
           transport_heartbeat conn = (Some (from_millis 250), Some (from_millis 250)) \<and>
           (let data = sock @ collect_for out u
                  (idle_window B C X wait now (last (pumps w)) (now u + millis 1200) n u)
            in list_all (\<lambda>b. b = LF) data \<and> 2 \<le> length data)))"

definition no_heartbeats_when_server_declines :: "'b bytes_mut \<Rightarrow> ('u, 'k) channels \<Rightarrow> ('u, 'b) framed_writer \<Rightarrow>
    (duration option \<Rightarrow> 'u \<Rightarrow> ('u \<times> 'k pump_event) option) \<Rightarrow> ('u \<Rightarrow> nat) \<Rightarrow> ('u \<Rightarrow> bytes) \<Rightarrow> nat \<Rightarrow> 'u \<Rightarrow>
    ((rstring, rstring) connector \<Rightarrow> 'w \<times> client_transport result) \<Rightarrow> ('w \<Rightarrow> bytes) \<Rightarrow>
    ('w \<Rightarrow> duration option list) \<Rightarrow> rstring \<Rightarrow> bool" where
  "no_heartbeats_when_server_declines B C X wait now out n u connecting sent pumps addr =
    connected (connecting (set_heartbeat 250 250 (heartbeat_connector addr))) (\<lambda>w conn.
      transport_heartbeat conn = (None, None) \<and>
      (case accept_handshake (sent w) of
         None \<Rightarrow> False
       | Some (sock, connect_frame) \<Rightarrow>
           sock @ collect_for out u
             (idle_window B C X wait now (last (pumps w)) (now u + millis 800) n u) = []))"

definition negotiates_slower_of_the_two ::
    "((rstring, rstring) connector \<Rightarrow> 'w \<times> client_transport result) \<Rightarrow> rstring \<Rightarrow> bool" where
  "negotiates_slower_of_the_two connecting addr =
    connected (connecting (set_heartbeat 20000 20000 (heartbeat_connector addr))) (\<lambda>w conn.
      transport_heartbeat conn = (Some (from_millis 20000), Some (from_millis 20000)))"

definition reply_message :: bytes where
  "reply_message = ''MESSAGE\<newline>destination:/test\<newline>message-id:1\<newline>subscription:s\<newline>\<newline>hi'' @ [NUL]"

definition receives_frame_after_heartbeats ::
    "((rstring, rstring) connector \<Rightarrow> 'w \<times> client_transport result) \<Rightarrow>
    (client_transport \<Rightarrow> ('w, from_server message option) io) \<Rightarrow> rstring \<Rightarrow> bool" where
  "receives_frame_after_heartbeats connecting next addr =
    connected (connecting (set_heartbeat 0 250 (heartbeat_connector addr))) (\<lambda>w conn.
      (case next conn w of
         (w, Inr (Some msg)) \<Rightarrow>
           (case content msg of Msg d i s a hs body \<Rightarrow> body = Some ''hi'' | _ \<Rightarrow> False)
       | _ \<Rightarrow> False))"

definition is_stream_error :: "('v \<times> from_server message result option option) option \<Rightarrow> bool" where
  "is_stream_error r \<longleftrightarrow> (case r of Some (v, Some (Some (Inl e))) \<Rightarrow> True | _ \<Rightarrow> False)"

text \<open>Both tests of a silent server, with what the client asks for as an argument.\<close>

definition detects_silence :: "((rstring, rstring) connector \<Rightarrow> 'w \<times> client_transport result) \<Rightarrow>
    ('v \<Rightarrow> 'v) \<Rightarrow> 'v endpoint \<Rightarrow> 'k pump \<Rightarrow> 'v \<Rightarrow> u32 \<Rightarrow> duration option \<Rightarrow> rstring \<Rightarrow> bool" where
  "detects_silence connecting idle E pump v offer beating addr =
    connected (connecting (set_heartbeat offer 250 (heartbeat_connector addr))) (\<lambda>w conn.
      fst (transport_heartbeat conn) = beating \<and>
      is_stream_error (transport_next_until idle E (live_of conn pump) (ep_now E v + millis 2000) v))"

definition detects_silent_server :: "((rstring, rstring) connector \<Rightarrow> 'w \<times> client_transport result) \<Rightarrow>
    ('v \<Rightarrow> 'v) \<Rightarrow> 'v endpoint \<Rightarrow> 'k pump \<Rightarrow> 'v \<Rightarrow> rstring \<Rightarrow> bool" where
  "detects_silent_server connecting idle E pump v addr =
    detects_silence connecting idle E pump v 0 None addr"

definition detects_silent_server_while_beating :: "((rstring, rstring) connector \<Rightarrow> 'w \<times> client_transport result) \<Rightarrow>
    ('v \<Rightarrow> 'v) \<Rightarrow> 'v endpoint \<Rightarrow> 'k pump \<Rightarrow> 'v \<Rightarrow> rstring \<Rightarrow> bool" where
  "detects_silent_server_while_beating connecting idle E pump v addr =
    detects_silence connecting idle E pump v 250 (Some (from_millis 250)) addr"

definition messages_pass_through_the_pump_in_order ::
    "((rstring, rstring) connector \<Rightarrow> 'w \<times> client_transport result) \<Rightarrow>
    (client_transport \<Rightarrow> to_server message \<Rightarrow> ('w, unit) io) \<Rightarrow> ('w \<Rightarrow> bytes) \<Rightarrow> rstring \<Rightarrow> bool" where
  "messages_pass_through_the_pump_in_order connecting send sent addr =
    connected (connecting (heartbeat_connector addr)) (\<lambda>w conn.
      (case ibind (send conn (message_from (Subscribe ''/test'' ''sub'' None))) (\<lambda>_. send conn send_msg) w of
         (w, Inl e) \<Rightarrow> False
       | (w, Inr u) \<Rightarrow>
           (case accept_handshake (sent w) of
              None \<Rightarrow> False
            | Some (sock, connect_frame) \<Rightarrow>
                (case read_frame_text sock of
                   None \<Rightarrow> False
                 | Some (first, sock) \<Rightarrow>
                     (case read_frame_text sock of
                        None \<Rightarrow> False
                      | Some (second, sock) \<Rightarrow>
                          starts_with ''SUBSCRIBE'' first \<and> starts_with ''SEND'' second)))))"

text \<open>The connection has no task (\<open>pumps\<close> is empty), so that leaving it alone runs nothing.\<close>

definition manual_heartbeat_opt_out :: "((rstring, rstring) connector \<Rightarrow> 'w \<times> client_transport result) \<Rightarrow>
    (client_transport \<Rightarrow> ('w, unit) io) \<Rightarrow> ('w \<Rightarrow> bytes) \<Rightarrow> ('w \<Rightarrow> duration option list) \<Rightarrow> rstring \<Rightarrow> bool" where
  "manual_heartbeat_opt_out connecting send_heartbeat sent pumps addr =
    connected (connecting (set_auto_heartbeat False (set_heartbeat 250 250 (heartbeat_connector addr)))) (\<lambda>w conn.
      transport_heartbeat conn = (Some (from_millis 250), Some (from_millis 250)) \<and> pumps w = [] \<and>
      (case accept_handshake (sent w) of
         None \<Rightarrow> False
       | Some (idle_data, connect_frame) \<Rightarrow>
           str_contains ''heart-beat:250,250'' connect_frame \<and> idle_data = [] \<and>
           (case send_heartbeat conn w of
              (w', Inl e) \<Rightarrow> False
            | (w', Inr u) \<Rightarrow> collect_for sent w w' = [LF])))"

definition manual_opt_out_does_not_supervise_the_server ::
    "((rstring, rstring) connector \<Rightarrow> 'w \<times> client_transport result) \<Rightarrow>
    ('v \<Rightarrow> 'v) \<Rightarrow> 'v endpoint \<Rightarrow> 'k pump \<Rightarrow> 'v \<Rightarrow> rstring \<Rightarrow> bool" where
  "manual_opt_out_does_not_supervise_the_server connecting idle E pump v addr =
    connected (connecting (set_auto_heartbeat False (set_heartbeat 0 250 (heartbeat_connector addr)))) (\<lambda>w conn.
      snd (transport_heartbeat conn) = Some (from_millis 250) \<and>
      (case transport_next_until idle E (live_of conn pump) (ep_now E v + millis 1000) v of
         Some (v, None) \<Rightarrow> True
       | _ \<Rightarrow> False))"

text \<open>\<open>feed\<close> is polling until ready and then starting to send; these sinks are ready at once.\<close>

definition transport_feed :: "'v endpoint \<Rightarrow> ('v, 'k) channels \<Rightarrow> to_server message \<Rightarrow> 'k live_transport \<Rightarrow> 'v \<Rightarrow>
    ('k live_transport \<times> 'v) option" where
  "transport_feed E C m self v =
    (case transport_poll_ready E C self v of
       (self, v, Ready (Inr u)) \<Rightarrow>
         (case transport_start_send E C m self v of
            (self, v, Inr u) \<Rightarrow> Some (self, v)
          | (self, v, Inl e) \<Rightarrow> None)
     | _ \<Rightarrow> None)"

definition plain_connection_still_batches ::
    "((rstring, rstring) connector \<Rightarrow> 'w \<times> client_transport result) \<Rightarrow> ('w \<Rightarrow> bytes) \<Rightarrow>
    'v endpoint \<Rightarrow> ('v, 'k) channels \<Rightarrow> 'k pump \<Rightarrow> ('v \<Rightarrow> bytes) \<Rightarrow> 'v \<Rightarrow> rstring \<Rightarrow> bool" where
  "plain_connection_still_batches connecting sent E C pump out v addr =
    connected (connecting (heartbeat_connector addr)) (\<lambda>w conn.
      (case accept_handshake (sent w) of
         None \<Rightarrow> False
       | Some (sock, connect_frame) \<Rightarrow>
           \<not> str_contains ''heart-beat'' connect_frame \<and>
           (case Option.bind (transport_feed E C send_msg (live_of conn pump) v)
               (\<lambda>(self, v). transport_feed E C send_msg self v) of
              None \<Rightarrow> False
            | Some (self, fed) \<Rightarrow>
                (case transport_poll_flush E C self fed of
                   (self, w, Ready (Inr u)) \<Rightarrow>
                     collect_for out v fed = [] \<and>
                     length (filter (\<lambda>b. b = NUL) (collect_for out fed w)) = 2
                 | _ \<Rightarrow> False))))"

section \<open>What the client sends\<close>

lemma read_frame_bytes_stop:
  "NUL \<notin> set t \<Longrightarrow> read_frame_bytes frame (t @ NUL # rest) = (frame @ t, rest)"
  by (induction t arbitrary: frame) auto

lemma read_frame_text_ascii:
  "NUL \<notin> set t \<Longrightarrow> ascii t \<Longrightarrow> read_frame_text (t @ NUL # rest) = Some (t, rest)"
  by (simp add: read_frame_text_def read_frame_bytes_stop utf8_valid_ascii)

lemma connect_wires:
  "wire (message_to_frame (connector_msg (\<lambda>s. s) (set_heartbeat 250 250 (heartbeat_connector addr)))) =
    ''CONNECT\<newline>accept-version:1.2\<newline>host:/\<newline>heart-beat:250,250\<newline>\<newline>'' @ [NUL]"
  "wire (message_to_frame (connector_msg (\<lambda>s. s) (heartbeat_connector addr))) =
    ''CONNECT\<newline>accept-version:1.2\<newline>host:/\<newline>\<newline>'' @ [NUL]"
  by (simp_all add: heartbeat_connector_def builders wires)

lemma sent_wires:
  "wire (message_to_frame (message_from (Subscribe ''/test'' ''sub'' None))) =
    ''SUBSCRIBE\<newline>destination:/test\<newline>id:sub\<newline>\<newline>'' @ [NUL]"
  "wire (message_to_frame send_msg) =
    ''SEND\<newline>destination:/test\<newline>\<newline>payload'' @ [NUL]"
  by (simp_all add: send_msg_def wires)

lemma reply_wires:
  "handshake_reply hb = wire (server_frame (Connected ''1.2'' None None (Some hb)))"
  "reply_message = wire (server_frame (Msg ''/test'' ''1'' ''s'' None
      [(''destination'', ''/test''), (''message-id'', ''1''), (''subscription'', ''s'')] (Some ''hi'')))"
  by (simp_all add: handshake_reply_def reply_message_def wires)

lemma heartbeat_texts:
  "parse_heartbeat ''250,250'' = Inr (250, 250)" "parse_heartbeat ''250,0'' = Inr (250, 0)"
  "parse_heartbeat ''0,0'' = Inr (0, 0)" "parse_heartbeat ''10000,10000'' = Inr (10000, 10000)"
  using parse_heartbeat_value [of 250 250] parse_heartbeat_value [of 250 0] parse_heartbeat_value [of 0 0]
    parse_heartbeat_value [of 10000 10000]
  by (simp_all add: wires)

lemma slower_of_two:
  "negotiate 250 250 = Some (from_millis 250)" "negotiate 20000 10000 = Some (from_millis 20000)"
  "negotiate 10000 20000 = Some (from_millis 20000)"
  "negotiate n 0 = None" "negotiate 0 n = None"
  by (simp_all add: negotiate_def)

end
