(* ===== verification/Heartbeat_Runs.thy ===== *)
theory Heartbeat_Runs
  imports Heartbeat_Tests
begin

text \<open>
  That the tests of \<open>tests/heartbeat.rs\<close> pass: the connection each of them makes, what the
  libraries below an idle or a batching client promise, and the tests on top of these.
\<close>

section \<open>The connection of a test\<close>

text \<open>The server of a test accepts, answers the CONNECT with \<open>heartbeat\<close> and writes \<open>rest\<close>.\<close>

definition answers :: "('w, 's, 'tcp, 'tls, 'ip, 'dns) net \<Rightarrow> ('w \<Rightarrow> bytes) \<Rightarrow> ('w \<Rightarrow> duration option list) \<Rightarrow>
    ('w \<Rightarrow> bool) \<Rightarrow> ('w \<Rightarrow> bytes) \<Rightarrow> ('w \<Rightarrow> bytes list) \<Rightarrow> 's \<Rightarrow> rstring \<Rightarrow> bytes \<Rightarrow> 'w \<Rightarrow> bool" where
  "answers net sent pumps healthy unread inbox addr heartbeat rest w \<longleftrightarrow>
    (\<exists>v tcp. net_tcp_connect net addr w = (v, Inr tcp) \<and> sent v = [] \<and> pumps v = [] \<and>
      healthy v \<and> unread v = [] \<and> concat (inbox v) = handshake_reply heartbeat @ rest)"

lemma test_settings [simp]:
  "cn_server (heartbeat_connector addr) = addr" "\<not> cn_use_tls (heartbeat_connector addr)"
  "cn_heartbeat (heartbeat_connector addr) = None" "cn_auto_heartbeat (heartbeat_connector addr)"
  "cn_max_frame_size (heartbeat_connector addr) = DEFAULT_MAX_FRAME_SIZE"
  "cn_server (set_heartbeat x y c) = cn_server c" "cn_use_tls (set_heartbeat x y c) = cn_use_tls c"
  "cn_heartbeat (set_heartbeat x y c) = Some (x, y)" "cn_auto_heartbeat (set_heartbeat x y c) = cn_auto_heartbeat c"
  "cn_max_frame_size (set_heartbeat x y c) = cn_max_frame_size c"
  "cn_server (set_auto_heartbeat b c) = cn_server c" "cn_use_tls (set_auto_heartbeat b c) = cn_use_tls c"
  "cn_heartbeat (set_auto_heartbeat b c) = cn_heartbeat c" "cn_auto_heartbeat (set_auto_heartbeat b c) = b"
  "cn_max_frame_size (set_auto_heartbeat b c) = cn_max_frame_size c"
  "connector_msg into (set_auto_heartbeat b c) = connector_msg into c"
  by (simp_all add: heartbeat_connector_def builders set_auto_heartbeat_def)

lemma connect_answered:
  assumes "winnow_lib W" "framing_lib B N sent pumps healthy unread inbox"
    and "answers net sent pumps healthy unread inbox (cn_server c) hb (concat (map server_item ps)) w"
    and "\<not> cn_use_tls c" "cn_max_frame_size c = DEFAULT_MAX_FRAME_SIZE"
    and "no_eol hb" "utf8_valid hb" "list_all server_item_ok ps"
    and "length hb \<le> 100" "length (concat (map server_item ps)) \<le> 1000"
    and "parse_heartbeat hb = Inr (sx, sy)"
    and "iv = (case cn_heartbeat c of None \<Rightarrow> (None, None) | Some (cx, cy) \<Rightarrow> (negotiate cx sy, negotiate sx cy))"
  obtains w1 where "connect W B net (\<lambda>_. N) (\<lambda>s. s) c w = (w1, Inr (client_transport_new
      ((if connector_beats c then Pumped else Direct) (with_max_frame_size DEFAULT_MAX_FRAME_SIZE))
      (fst iv) (snd iv) (cn_auto_heartbeat c)))"
    "holds_bytes DEFAULT_MAX_FRAME_SIZE healthy unread inbox w1 (map snd ps)"
    "sent w1 = wire (message_to_frame (connector_msg (\<lambda>s. s) c))"
    "pumps w1 = (if connector_beats c then [fst iv] else [])"
proof -
  let ?m = "Connected ''1.2'' None None (Some hb)"
  obtain v tcp where v: "net_tcp_connect net (cn_server c) w = (v, Inr tcp)" "sent v = []" "pumps v = []"
    "healthy v" "unread v = []" "concat (inbox v) = handshake_reply hb @ concat (map server_item ps)"
    using assms(3) by (auto simp: answers_def)
  have acc: "accept_connected (Some \<lparr>content = ?m, extra_headers = []\<rparr>) (cn_heartbeat c) = Inr iv"
    using assms(11,12) by (simp add: accept_connected_def negotiate_def split: option.split)
  have ok: "server_item_ok ([], ?m)"
    using assms(6,7) by (simp add: no_eol_def opt_no_eol_def is_eol_def conversions)
  have reads: "concat (inbox v) = server_item ([], ?m) @ concat (map server_item ps) @ []"
    using v(6) by (simp add: reply_wires)
  have "length (handshake_reply hb) = 36 + length hb" by (simp add: handshake_reply_def)
  with v(6) assms(9,10) have len: "length (concat (inbox v)) \<le> cn_max_frame_size c"
    by (simp add: assms(5) DEFAULT_MAX_FRAME_SIZE_def)
  obtain w1 where w1: "establish W B N (connector_msg (\<lambda>s. s) c) (cn_heartbeat c) (connector_beats c)
      (cn_max_frame_size c) v =
      (w1, Inr ((if connector_beats c then Pumped else Direct) (with_max_frame_size (cn_max_frame_size c)), iv))"
    "holds_bytes (cn_max_frame_size c) healthy unread inbox w1 (map snd ps)"
    "sent w1 = sent v @ wire (message_to_frame (connector_msg (\<lambda>s. s) c))"
    "pumps w1 = pumps v @ (if connector_beats c then [fst iv] else [])"
    by (rule handshake_holds [OF assms(1,2) v(4,5) ok assms(8) _ reads len acc]) simp
  have "open_stream net c w = (v, Inr (Plain tcp))"
    using v(1) assms(4) by (simp add: open_stream_def ibind_def)
  with w1(1) have "connect W B net (\<lambda>_. N) (\<lambda>s. s) c w = (w1, Inr (client_transport_new
      ((if connector_beats c then Pumped else Direct) (with_max_frame_size DEFAULT_MAX_FRAME_SIZE))
      (fst iv) (snd iv) (cn_auto_heartbeat c)))"
    by (cases iv) (simp add: connect_def ibind_def Let_def assms(5))
  with w1(2-4) v(2,3) show thesis using that by (simp add: assms(5))
qed

section \<open>An idle client\<close>

text \<open>
  The task of a caller that sends nothing: without an interval it waits for ever; with one
  the wait ends when it has elapsed, at most \<open>late\<close> after; a write puts what was encoded
  on the wire and takes at most \<open>busy\<close>.
\<close>

locale quiet_caller = bytes_mut_lib B for B :: "'b bytes_mut" +
  fixes X :: "('u, 'b) framed_writer" and wait :: "duration option \<Rightarrow> 'u \<Rightarrow> ('u \<times> 'k pump_event) option"
    and now :: "'u \<Rightarrow> nat" and out :: "'u \<Rightarrow> bytes" and quiet :: "'u \<Rightarrow> bool" and late :: nat and busy :: nat
  assumes waits: "quiet u \<Longrightarrow> wait None u = None"
    and elapses: "quiet u \<Longrightarrow> \<exists>u'. wait (Some d) u = Some (u', Elapsed) \<and> quiet u' \<and> out u' = out u \<and>
        now u + as_nanos d \<le> now u' \<and> now u' \<le> now u + as_nanos d + late"
    and writes: "quiet u \<Longrightarrow> (\<And>buf. fst (enc buf) = Inr ()) \<Longrightarrow>
        \<exists>u' buf. fw_send X enc u = (u', Inr ()) \<and> quiet u' \<and> bm_bytes B buf = [] \<and>
          out u' = out u @ bm_bytes B (snd (enc buf)) \<and> now u \<le> now u' \<and> now u' \<le> now u + busy"
begin

lemma idle_beat:
  assumes "quiet u"
  obtains u' v where "wait (Some d) u = Some (u', Elapsed)" "pump_turn B C X Elapsed u' = (v, True)" "quiet v"
    "out v = out u @ [LF]" "now v \<le> now u + as_nanos d + late + busy"
proof -
  obtain u' where u': "wait (Some d) u = Some (u', Elapsed)" "quiet u'" "out u' = out u"
    "now u' \<le> now u + as_nanos d + late"
    using elapses [OF assms] by blast
  obtain v buf where v: "fw_send X (encode_heartbeat B) u' = (v, Inr ())" "quiet v" "bm_bytes B buf = []"
    "out v = out u' @ bm_bytes B (snd (encode_heartbeat B buf))" "now v \<le> now u' + busy"
    using writes [OF u'(2), of "encode_heartbeat B"] by (auto simp: encode_heartbeat_def)
  show thesis
    by (rule that [OF u'(1), of v]) (use u' v in \<open>simp_all add: pump_turn_def encode_heartbeat_def\<close>)
qed

text \<open>Nothing but heart-beats, and one for each interval of the window.\<close>

lemma idle_beats:
  assumes "quiet u"
  shows "\<exists>k. out (idle_window B C X wait now (Some d) until n u) = out u @ replicate k LF \<and>
    (\<forall>j \<le> n. now u + j * (as_nanos d + late + busy) \<le> until \<longrightarrow> j \<le> k)"
  using assms
proof (induction n arbitrary: u)
  case 0
  then show ?case by (intro exI [of _ 0]) simp
next
  case (Suc n)
  obtain u' v where v: "wait (Some d) u = Some (u', Elapsed)" "pump_turn B C X Elapsed u' = (v, True)" "quiet v"
    "out v = out u @ [LF]" "now v \<le> now u + as_nanos d + late + busy"
    by (rule idle_beat [OF Suc.prems])
  show ?case
  proof (cases "until < now v")
    case True
    have "j = 0" if "now u + j * (as_nanos d + late + busy) \<le> until" for j
      using that v(5) True by (cases j) auto
    with True v show ?thesis by (intro exI [of _ 0]) simp
  next
    case False
    obtain k where k: "out (idle_window B C X wait now (Some d) until n v) = out v @ replicate k LF"
      "\<And>j. j \<le> n \<Longrightarrow> now v + j * (as_nanos d + late + busy) \<le> until \<Longrightarrow> j \<le> k"
      using Suc.IH [OF v(3)] by blast
    have "j \<le> Suc k" if "j \<le> Suc n" "now u + j * (as_nanos d + late + busy) \<le> until" for j
      using that v(5) k(2) [of "j - 1"] by (cases j) auto
    with False v k(1) show ?thesis by (intro exI [of _ "Suc k"]) simp
  qed
qed

lemma idle_silence: "quiet u \<Longrightarrow> idle_window B C X wait now None until n u = u"
  by (cases n) (simp_all add: waits)

end

section \<open>A sink that buffers\<close>

text \<open>
  \<open>Framed\<close> as a sink: what is started is encoded behind what is queued, \<open>poll_ready\<close> writes nothing
  while less than the backpressure boundary is queued, and flushing writes all of it.
\<close>

locale framed_sink =
  fixes E :: "'v endpoint" and queued :: "'v \<Rightarrow> bytes" and out :: "'v \<Rightarrow> bytes"
  assumes ready: "length (queued v) < 8192 \<Longrightarrow>
        \<exists>v'. ep_poll_ready E v = (v', Ready (Inr ())) \<and> queued v' = queued v \<and> out v' = out v"
    and starts: "\<exists>v'. ep_start_send E m v = (v', Inr ()) \<and>
        queued v' = queued v @ wire (message_to_frame m) \<and> out v' = out v"
    and flushes: "\<exists>v'. ep_poll_flush E v = (v', Ready (Inr ())) \<and> queued v' = [] \<and> out v' = out v @ queued v"
begin

lemma feeds:
  assumes "ct_transport self = Direct c" "length (queued v) < 8192"
  obtains v' where "transport_feed E C m self v = Some (self, v')"
    "queued v' = queued v @ wire (message_to_frame m)" "out v' = out v"
proof -
  obtain v1 where v1: "ep_poll_ready E v = (v1, Ready (Inr ()))" "queued v1 = queued v" "out v1 = out v"
    using ready [OF assms(2)] by blast
  obtain v2 where "ep_start_send E m v1 = (v2, Inr ())" "queued v2 = queued v1 @ wire (message_to_frame m)"
    "out v2 = out v1"
    using starts [of m v1] by blast
  with v1 assms(1) show thesis
    by (intro that [of v2])
      (simp_all add: transport_feed_def transport_poll_ready_def transport_start_send_def on_framed_def)
qed

lemma flushed:
  assumes "ct_transport self = Direct c"
  obtains v' where "transport_poll_flush E C self v = (self, v', Ready (Inr ()))" "out v' = out v @ queued v"
  using flushes [of v] assms that by (auto simp: transport_poll_flush_def on_framed_def)

end

section \<open>They pass\<close>

lemma frames_read:
  "read_frame_text (''CONNECT\<newline>accept-version:1.2\<newline>host:/\<newline>heart-beat:250,250\<newline>\<newline>'' @ NUL # rest) =
    Some (''CONNECT\<newline>accept-version:1.2\<newline>host:/\<newline>heart-beat:250,250\<newline>\<newline>'', rest)"
  "read_frame_text (''CONNECT\<newline>accept-version:1.2\<newline>host:/\<newline>\<newline>'' @ NUL # rest) =
    Some (''CONNECT\<newline>accept-version:1.2\<newline>host:/\<newline>\<newline>'', rest)"
  "read_frame_text (''SUBSCRIBE\<newline>destination:/test\<newline>id:sub\<newline>\<newline>'' @ NUL # rest) =
    Some (''SUBSCRIBE\<newline>destination:/test\<newline>id:sub\<newline>\<newline>'', rest)"
  "read_frame_text (''SEND\<newline>destination:/test\<newline>\<newline>payload'' @ NUL # rest) =
    Some (''SEND\<newline>destination:/test\<newline>\<newline>payload'', rest)"
  by (rule read_frame_text_ascii; simp add: ascii_def byte_in_def)+

text \<open>What the server makes of the two CONNECT frames that it reads.\<close>

lemma connects_read:
  "accept_handshake (wire (message_to_frame (connector_msg (\<lambda>s. s) (set_heartbeat 250 250 (heartbeat_connector addr))))) =
    Some ([], ''CONNECT\<newline>accept-version:1.2\<newline>host:/\<newline>heart-beat:250,250\<newline>\<newline>'')"
  "accept_handshake (wire (message_to_frame (connector_msg (\<lambda>s. s) (heartbeat_connector addr))) @ rest) =
    Some (rest, ''CONNECT\<newline>accept-version:1.2\<newline>host:/\<newline>\<newline>'')"
  using frames_read(1) [of "[]"] frames_read(2) [of rest] by (simp_all add: accept_handshake_def connect_wires)

lemma server_texts:
  "no_eol ''250,250''" "no_eol ''250,0''" "no_eol ''0,0''" "no_eol ''10000,10000''"
  "utf8_valid ''250,250''" "utf8_valid ''250,0''" "utf8_valid ''0,0''" "utf8_valid ''10000,10000''"
  by (simp_all add: no_eol_def is_eol_def utf8_valid_ascii ascii_def byte_in_def)

lemma beats [simp]:
  "connector_beats (set_heartbeat x y (heartbeat_connector addr)) \<longleftrightarrow> 0 < x"
  "\<not> connector_beats (heartbeat_connector addr)"
  "\<not> connector_beats (set_auto_heartbeat False c)"
  by (simp_all add: connector_beats_def)

text \<open>The two outcomes of waiting for a silent server, on the transport of a test.\<close>

lemma silence_fails:
  assumes "silent_server E deadline (millis 250) idle armed lag" "deadline v \<le> ep_now E v + millis 250"
    and "ep_last_read E v \<le> ep_now E v" "ep_reader_last_read E v \<le> ep_now E v" "lag \<le> millis 1250"
  shows "is_stream_error (transport_next_until idle E
    (live_of (client_transport_new tr p (Some (from_millis 250)) True) pump) (ep_now E v + millis 2000) v)"
proof -
  let ?self = "live_of (client_transport_new tr p (Some (from_millis 250)) True) pump"
  have sup: "ct_supervise ?self = Some (times_duration (from_millis 250) 2, from_millis 250)"
    by (simp add: live_of_def client_transport_new_def)
  have heard: "transport_last_read E ?self v \<le> ep_now E v"
    using assms(3,4) by (simp add: transport_last_read_def split: wiring.split)
  obtain w' e where w': "ep_now E w' \<le> max (ep_now E v)
      (transport_last_read E ?self v + as_nanos (times_duration (from_millis 250) 2) + millis 250 + lag)"
    "\<And>until. ep_now E w' \<le> until \<Longrightarrow> transport_next_until idle E ?self until v = Some (w', Some (Some (Inl e)))"
    using silent_server.silence_detected [OF assms(1) sup assms(2)] unfolding Let_def by blast
  from w'(1) have "ep_now E w' \<le> ep_now E v + millis 2000"
    using heard assms(5) by (simp add: millis_def)
  from w'(2) [OF this] show ?thesis by (simp add: is_stream_error_def)
qed

lemma silence_ignored:
  assumes "silent_server E deadline period idle armed lag"
  shows "case transport_next_until idle E (live_of (client_transport_new tr p q False) pump) until v of
    Some (v', None) \<Rightarrow> True | _ \<Rightarrow> False"
proof -
  have "ct_supervise (live_of (client_transport_new tr p q False) pump) = None"
    by (simp add: live_of_def client_transport_new_def)
  from silent_server.silence_endured(2) [OF assms this, of until v] show ?thesis by auto
qed

lemma heartbeat_new [simp]: "transport_heartbeat (client_transport_new tr p q auto) = (p, q)"
  by (simp add: transport_heartbeat_def client_transport_new_def Let_def)

text \<open>\<open>Connector::connect\<close> on a network whose server answers with \<open>hb\<close> and then writes \<open>rest\<close>.\<close>

abbreviation connecting_to :: "winnow \<Rightarrow> 'b bytes_mut \<Rightarrow> ('w, 'b) framing \<Rightarrow>
    ('w, rstring, 'tcp, 'tls, 'ip, 'dns) net \<Rightarrow> (rstring \<Rightarrow> bytes \<Rightarrow> 'w) \<Rightarrow> rstring \<Rightarrow> bytes \<Rightarrow>
    (rstring, rstring) connector \<Rightarrow> 'w \<times> client_transport result" where
  "connecting_to W B N net serving hb rest c \<equiv> connect W B net (\<lambda>_. N) (\<lambda>s. s) c (serving hb rest)"

text \<open>What every test needs: lawful libraries and a network on which its server answers.\<close>

locale heartbeat_setting = framing_lib B N sent pumps healthy unread inbox + winnow_lib W
  for W :: winnow and B :: "'b bytes_mut" and N :: "('w, 'b) framing" and sent pumps healthy unread inbox +
  fixes net :: "('w, rstring, 'tcp, 'tls, 'ip, 'dns) net" and addr :: rstring
    and serving :: "rstring \<Rightarrow> bytes \<Rightarrow> 'w"
  assumes answering: "answers net sent pumps healthy unread inbox addr hb rest (serving hb rest)"
begin

abbreviation connecting :: "rstring \<Rightarrow> bytes \<Rightarrow> (rstring, rstring) connector \<Rightarrow> 'w \<times> client_transport result" where
  "connecting hb rest c \<equiv> connect W B net (\<lambda>_. N) (\<lambda>s. s) c (serving hb rest)"

lemma connected_plain:
  assumes "cn_server c = addr" "\<not> cn_use_tls c" "cn_max_frame_size c = DEFAULT_MAX_FRAME_SIZE"
    and "no_eol hb" "utf8_valid hb" "list_all server_item_ok ps" "length hb \<le> 100"
    and "length (concat (map server_item ps)) \<le> 1000" "parse_heartbeat hb = Inr (sx, sy)"
    and "iv = (case cn_heartbeat c of None \<Rightarrow> (None, None) | Some (cx, cy) \<Rightarrow> (negotiate cx sy, negotiate sx cy))"
    and "\<And>w1. holds_bytes DEFAULT_MAX_FRAME_SIZE healthy unread inbox w1 (map snd ps) \<Longrightarrow>
      sent w1 = wire (message_to_frame (connector_msg (\<lambda>s. s) c)) \<Longrightarrow>
      pumps w1 = (if connector_beats c then [fst iv] else []) \<Longrightarrow>
      test w1 (client_transport_new
        ((if connector_beats c then Pumped else Direct) (with_max_frame_size DEFAULT_MAX_FRAME_SIZE))
        (fst iv) (snd iv) (cn_auto_heartbeat c))"
  shows "connected (connecting hb (concat (map server_item ps)) c) test"
proof -
  have "answers net sent pumps healthy unread inbox (cn_server c) hb (concat (map server_item ps))
      (serving hb (concat (map server_item ps)))"
    using answering assms(1) by simp
  then show ?thesis
  proof (rule connect_answered [OF winnow_lib_axioms framing_lib_axioms _ assms(2-6,7-10)])
    fix w1
    assume c: "connecting hb (concat (map server_item ps)) c = (w1, Inr (client_transport_new
        ((if connector_beats c then Pumped else Direct) (with_max_frame_size DEFAULT_MAX_FRAME_SIZE))
        (fst iv) (snd iv) (cn_auto_heartbeat c)))"
      and "holds_bytes DEFAULT_MAX_FRAME_SIZE healthy unread inbox w1 (map snd ps)"
        "sent w1 = wire (message_to_frame (connector_msg (\<lambda>s. s) c))"
        "pumps w1 = (if connector_beats c then [fst iv] else [])"
    from assms(11) [OF this(2-4)] show ?thesis unfolding c connected_def by simp
  qed
qed

lemmas connected_quiet = connected_plain [where ps = "[]", simplified]
lemmas test_facts = heartbeat_texts slower_of_two server_texts

lemma negotiates_slower_passes: "negotiates_slower_of_the_two (connecting ''10000,10000'' []) addr"
  unfolding negotiates_slower_of_the_two_def
  by (rule connected_quiet [where hb = "''10000,10000''" and sx = 10000 and sy = 10000
        and iv = "(Some (from_millis 20000), Some (from_millis 20000))"])
    (simp_all add: test_facts transport_heartbeat_def client_transport_new_def)

lemma declines_passes:
  assumes "quiet_caller B X wait now out quiet late busy" "quiet u"
  shows "no_heartbeats_when_server_declines B C X wait now out n u (connecting ''0,0'' []) sent pumps addr"
  unfolding no_heartbeats_when_server_declines_def
  by (rule connected_quiet [where hb = "''0,0''" and sx = 0 and sy = 0 and iv = "(None, None)"])
    (simp_all add: test_facts transport_heartbeat_def client_transport_new_def connects_read
      collect_for_def quiet_caller.idle_silence [OF assms])

lemma idle_passes:
  assumes "quiet_caller B X wait now out quiet late busy" "quiet u" "2 \<le> n" "2 * (late + busy) \<le> millis 700"
  shows "sends_heartbeats_when_idle B C X wait now out n u (connecting ''250,250'' []) sent pumps addr"
proof -
  let ?until = "now u + millis 1200"
  obtain k where k: "out (idle_window B C X wait now (Some (from_millis 250)) ?until n u) = out u @ replicate k LF"
    "\<And>j. j \<le> n \<Longrightarrow> now u + j * (as_nanos (from_millis 250) + late + busy) \<le> ?until \<Longrightarrow> j \<le> k"
    using quiet_caller.idle_beats [OF assms(1,2), of C "from_millis 250" ?until n] by blast
  have "2 \<le> k" using k(2) [of 2] assms(3,4) by (simp add: millis_def)
  with k(1) show ?thesis
    unfolding sends_heartbeats_when_idle_def
    by (intro connected_quiet [where hb = "''250,250''" and sx = 250 and sy = 250
        and iv = "(Some (from_millis 250), Some (from_millis 250))"])
      (simp_all add: test_facts transport_heartbeat_def client_transport_new_def connects_read
        collect_for_def Let_def list_all_iff)
qed

lemma sends:
  assumes "healthy w"
  shows "\<exists>w'. fr_send N (encode_message B m) w = (w', Inr ()) \<and> healthy w' \<and>
    sent w' = sent w @ wire (message_to_frame m)"
  using send_succeeds [OF assms, of "encode_message B m"] send_writes [of "encode_message B m" w]
  by (fastforce simp: encode_message_def serialize_bytes)

lemma beats_once:
  assumes "healthy w"
  shows "\<exists>w'. fr_send N (encode_heartbeat B) w = (w', Inr ()) \<and> sent w' = sent w @ [LF]"
  using send_succeeds [OF assms, of "encode_heartbeat B"] send_writes [of "encode_heartbeat B" w]
  by (fastforce simp: encode_heartbeat_def)

lemmas reads_next = message_source.next_message [OF holds_bytes_source [OF winnow_lib_axioms framing_lib_axioms]]

lemma after_heartbeats_passes:
  "receives_frame_after_heartbeats (connecting ''250,0'' ([LF, LF, LF] @ reply_message))
    (\<lambda>conn. fr_next N (decode W B (wiring_codec (ct_transport conn)))) addr"
  (is "receives_frame_after_heartbeats _ ?next _")
proof -
  let ?m = "Msg ''/test'' ''1'' ''s'' None
      [(''destination'', ''/test''), (''message-id'', ''1''), (''subscription'', ''s'')] (Some ''hi'')"
  have ok: "list_all server_item_ok [([LF, LF, LF], ?m)]"
    by (simp add: plain_name_def body_ok_def conversions wires)
  have rest: "[LF, LF, LF] @ reply_message = concat (map server_item [([LF, LF, LF], ?m)])"
    by (simp add: reply_wires)
  have len: "length (concat (map server_item [([LF, LF, LF], ?m)])) \<le> 1000"
    unfolding rest [symmetric] by (simp add: reply_message_def)
  show ?thesis
    unfolding receives_frame_after_heartbeats_def rest
  proof (rule connected_plain [where hb = "''250,0''" and ps = "[([LF, LF, LF], ?m)]"
        and sx = 250 and sy = 0 and iv = "(None, Some (from_millis 250))", OF _ _ _ _ _ ok _ len])
    fix w1
    assume "holds_bytes DEFAULT_MAX_FRAME_SIZE healthy unread inbox w1 (map snd [([LF, LF, LF], ?m)])"
    then have "holds_bytes DEFAULT_MAX_FRAME_SIZE healthy unread inbox w1 [?m]" by simp
    from reads_next [OF this]
    obtain w2 ex where "fr_next N (decode W B (with_max_frame_size DEFAULT_MAX_FRAME_SIZE)) w1 =
        (w2, Inr (Some \<lparr>content = ?m, extra_headers = ex\<rparr>))"
      by blast
    then show "case ?next (client_transport_new ((if connector_beats (set_heartbeat 0 250 (heartbeat_connector addr))
        then Pumped else Direct) (with_max_frame_size DEFAULT_MAX_FRAME_SIZE)) (fst (None, Some (from_millis 250)))
        (snd (None, Some (from_millis 250))) (cn_auto_heartbeat (set_heartbeat 0 250 (heartbeat_connector addr)))) w1 of
        (w, Inr (Some msg)) \<Rightarrow>
          (case content msg of Msg d i s a hs body \<Rightarrow> body = Some ''hi'' | _ \<Rightarrow> False)
      | _ \<Rightarrow> False"
      by (simp add: client_transport_new_def)
  qed (simp_all add: test_facts)
qed

lemma detects_passes:
  assumes "silent_server E deadline (millis 250) idle armed lag" "deadline v \<le> ep_now E v + millis 250"
    and "ep_last_read E v \<le> ep_now E v" "ep_reader_last_read E v \<le> ep_now E v" "lag \<le> millis 1250"
  shows "detects_silent_server (connecting ''250,0'' []) idle E pump v addr"
    and "detects_silent_server_while_beating (connecting ''250,250'' []) idle E pump v addr"
proof -
  show "detects_silent_server (connecting ''250,0'' []) idle E pump v addr"
    unfolding detects_silent_server_def detects_silence_def
    by (rule connected_quiet [where hb = "''250,0''" and sx = 250 and sy = 0 and iv = "(None, Some (from_millis 250))"])
      (simp_all add: test_facts silence_fails [OF assms])
  show "detects_silent_server_while_beating (connecting ''250,250'' []) idle E pump v addr"
    unfolding detects_silent_server_while_beating_def detects_silence_def
    by (rule connected_quiet [where hb = "''250,250''" and sx = 250 and sy = 250
        and iv = "(Some (from_millis 250), Some (from_millis 250))"])
      (simp_all add: test_facts silence_fails [OF assms])
qed

lemma in_order_passes:
  "messages_pass_through_the_pump_in_order (connecting ''0,0'' [])
    (\<lambda>conn m. fr_send N (encode_message B m)) sent addr"
  unfolding messages_pass_through_the_pump_in_order_def
proof (rule connected_quiet [where hb = "''0,0''" and sx = 0 and sy = 0 and iv = "(None, None)"])
  fix w1
  assume h: "holds_bytes DEFAULT_MAX_FRAME_SIZE healthy unread inbox w1 []"
    and s: "sent w1 = wire (message_to_frame (connector_msg (\<lambda>s. s) (heartbeat_connector addr)))"
  let ?sub = "message_from (Subscribe ''/test'' ''sub'' None)"
  obtain w2 where w2: "fr_send N (encode_message B ?sub) w1 = (w2, Inr ())" "healthy w2"
    "sent w2 = sent w1 @ wire (message_to_frame ?sub)"
    using sends [of w1 ?sub] h by (auto simp: holds_bytes_def)
  obtain w3 where w3: "fr_send N (encode_message B send_msg) w2 = (w3, Inr ())"
    "sent w3 = sent w2 @ wire (message_to_frame send_msg)"
    using sends [OF w2(2), of send_msg] by auto
  have "accept_handshake (sent w3) = Some (wire (message_to_frame ?sub) @ wire (message_to_frame send_msg),
      ''CONNECT\<newline>accept-version:1.2\<newline>host:/\<newline>\<newline>'')"
    using connects_read(2) by (simp add: w3(2) w2(3) s)
  moreover have "read_frame_text (wire (message_to_frame ?sub) @ wire (message_to_frame send_msg)) =
      Some (''SUBSCRIBE\<newline>destination:/test\<newline>id:sub\<newline>\<newline>'', wire (message_to_frame send_msg))"
    using frames_read(3) [of "wire (message_to_frame send_msg)"] by (simp add: sent_wires(1))
  moreover have "read_frame_text (wire (message_to_frame send_msg)) =
      Some (''SEND\<newline>destination:/test\<newline>\<newline>payload'', [])"
    using frames_read(4) [of "[]"] by (simp add: sent_wires(2))
  ultimately show "case ibind (fr_send N (encode_message B ?sub)) (\<lambda>_. fr_send N (encode_message B send_msg)) w1 of
      (w, Inl e) \<Rightarrow> False
    | (w, Inr u) \<Rightarrow>
        (case accept_handshake (sent w) of
           None \<Rightarrow> False
         | Some (sock, connect_frame) \<Rightarrow>
             (case read_frame_text sock of
                None \<Rightarrow> False
              | Some (first, sock) \<Rightarrow>
                  (case read_frame_text sock of
                     None \<Rightarrow> False
                   | Some (second, sock) \<Rightarrow> starts_with ''SUBSCRIBE'' first \<and> starts_with ''SEND'' second)))"
    by (simp add: ibind_def w2(1) w3(1) starts_with_def)
qed (simp_all add: test_facts)

lemma manual_passes:
  "manual_heartbeat_opt_out (connecting ''250,250'' []) (\<lambda>conn. fr_send N (encode_heartbeat B)) sent pumps addr"
  unfolding manual_heartbeat_opt_out_def
proof (rule connected_quiet [where hb = "''250,250''" and sx = 250 and sy = 250
      and iv = "(Some (from_millis 250), Some (from_millis 250))"])
  fix w1
  assume h: "holds_bytes DEFAULT_MAX_FRAME_SIZE healthy unread inbox w1 []"
    and s: "sent w1 = wire (message_to_frame (connector_msg (\<lambda>s. s)
      (set_auto_heartbeat False (set_heartbeat 250 250 (heartbeat_connector addr)))))"
    and p: "pumps w1 = (if connector_beats (set_auto_heartbeat False (set_heartbeat 250 250 (heartbeat_connector addr)))
      then [fst (Some (from_millis 250), Some (from_millis 250))] else [])"
  obtain w2 where "fr_send N (encode_heartbeat B) w1 = (w2, Inr ())" "sent w2 = sent w1 @ [LF]"
    using beats_once [of w1] h by (auto simp: holds_bytes_def)
  with s p show "transport_heartbeat (client_transport_new ((if connector_beats (set_auto_heartbeat False
        (set_heartbeat 250 250 (heartbeat_connector addr))) then Pumped else Direct)
        (with_max_frame_size DEFAULT_MAX_FRAME_SIZE)) (fst (Some (from_millis 250), Some (from_millis 250)))
        (snd (Some (from_millis 250), Some (from_millis 250)))
        (cn_auto_heartbeat (set_auto_heartbeat False (set_heartbeat 250 250 (heartbeat_connector addr))))) =
      (Some (from_millis 250), Some (from_millis 250)) \<and> pumps w1 = [] \<and>
    (case accept_handshake (sent w1) of
       None \<Rightarrow> False
     | Some (idle_data, connect_frame) \<Rightarrow>
         str_contains ''heart-beat:250,250'' connect_frame \<and> idle_data = [] \<and>
         (case fr_send N (encode_heartbeat B) w1 of
            (w', Inl e) \<Rightarrow> False
          | (w', Inr u) \<Rightarrow> collect_for sent w1 w' = [LF]))"
    by (simp add: connects_read collect_for_def transport_heartbeat_def client_transport_new_def Let_def)
qed (simp_all add: test_facts)

lemma manual_unsupervised_passes:
  assumes "silent_server E deadline period idle armed lag"
  shows "manual_opt_out_does_not_supervise_the_server (connecting ''250,0'' []) idle E pump v addr"
  unfolding manual_opt_out_does_not_supervise_the_server_def
  by (rule connected_quiet [where hb = "''250,0''" and sx = 250 and sy = 0 and iv = "(None, Some (from_millis 250))"])
    (simp_all add: test_facts silence_ignored [OF assms])

lemma batches_passes:
  assumes "framed_sink E queued out" "queued v = []"
  shows "plain_connection_still_batches (connecting ''0,0'' []) sent E C pump out v addr"
  unfolding plain_connection_still_batches_def
proof (rule connected_quiet [where hb = "''0,0''" and sx = 0 and sy = 0 and iv = "(None, None)"])
  fix w1
  assume s: "sent w1 = wire (message_to_frame (connector_msg (\<lambda>s. s) (heartbeat_connector addr)))"
  let ?iv = "(None, None) :: intervals"
  let ?conn = "client_transport_new ((if connector_beats (heartbeat_connector addr) then Pumped else Direct)
    (with_max_frame_size DEFAULT_MAX_FRAME_SIZE)) (fst ?iv) (snd ?iv)
    (cn_auto_heartbeat (heartbeat_connector addr))"
  let ?self = "live_of ?conn pump"
  have direct: "ct_transport ?self = Direct (with_max_frame_size DEFAULT_MAX_FRAME_SIZE)"
    by (simp add: live_of_def client_transport_new_def)
  have room: "length (queued v) < 8192" by (simp add: assms(2))
  obtain v1 where v1: "transport_feed E C send_msg ?self v = Some (?self, v1)"
    "queued v1 = queued v @ wire (message_to_frame send_msg)" "out v1 = out v"
    by (rule framed_sink.feeds [OF assms(1) direct room])
  have room': "length (queued v1) < 8192" by (simp add: v1(2) assms(2) sent_wires)
  obtain v2 where v2: "transport_feed E C send_msg ?self v1 = Some (?self, v2)"
    "queued v2 = queued v1 @ wire (message_to_frame send_msg)" "out v2 = out v1"
    by (rule framed_sink.feeds [OF assms(1) direct room'])
  obtain v3 where v3: "transport_poll_flush E C ?self v2 = (?self, v3, Ready (Inr ()))" "out v3 = out v2 @ queued v2"
    by (rule framed_sink.flushed [OF assms(1) direct])
  have "length (filter (\<lambda>b. b = NUL) (queued v2)) = 2"
    by (simp add: v2(2) v1(2) assms(2) sent_wires)
  with v1(1,3) v2(1,3) v3 show "case accept_handshake (sent w1) of
      None \<Rightarrow> False
    | Some (sock, connect_frame) \<Rightarrow>
        \<not> str_contains ''heart-beat'' connect_frame \<and>
        (case Option.bind (transport_feed E C send_msg ?self v) (\<lambda>(self, v). transport_feed E C send_msg self v) of
           None \<Rightarrow> False
         | Some (self, fed) \<Rightarrow>
             (case transport_poll_flush E C self fed of
                (self, w, Ready (Inr u)) \<Rightarrow>
                  collect_for out v fed = [] \<and> length (filter (\<lambda>b. b = NUL) (collect_for out fed w)) = 2
              | _ \<Rightarrow> False))"
    using connects_read(2) [of addr "[]"] by (simp add: s collect_for_def del: fst_conv snd_conv beats test_settings)
qed (simp_all add: test_facts)

end

text \<open>
  C34: the tests of \<open>tests/heartbeat.rs\<close> that bring their own server pass, all but three, over any lawful
  libraries and any network on which that server answers as the test has it. An idle
  client sends heart-beats and nothing else, at least two in the window, unless the server
  declined; the slower interval of the two is settled on; a frame that follows heart-beats
  is received; a server that goes silent fails the stream within two seconds, over either
  wiring, unless the handling is manual, when nothing is sent either until the caller beats;
  messages arrive in order, and those that are fed are written when flushed.
\<close>

theorem heartbeat_tests_pass:
  fixes C :: "('u, 'k) channels" and D :: "('f, 'k) channels" and pump :: "'k pump"
  assumes "winnow_lib W" and "framing_lib B N sent pumps healthy unread inbox"
    and "\<And>hb rest. answers net sent pumps healthy unread inbox addr hb rest (serving hb rest)"
    and "quiet_caller B X wait now out quiet late busy" and "quiet u" and "2 \<le> n"
    and "2 * (late + busy) \<le> millis 700"
    and "silent_server E deadline (millis 250) idle armed lag" and "deadline v \<le> ep_now E v + millis 250"
    and "ep_last_read E v \<le> ep_now E v" and "ep_reader_last_read E v \<le> ep_now E v" and "lag \<le> millis 1250"
    and "framed_sink F queued written" and "queued f = []"
  shows "sends_heartbeats_when_idle B C X wait now out n u
      (connecting_to W B N net serving ''250,250'' []) sent pumps addr \<and>
    no_heartbeats_when_server_declines B C X wait now out n u
      (connecting_to W B N net serving ''0,0'' []) sent pumps addr \<and>
    negotiates_slower_of_the_two (connecting_to W B N net serving ''10000,10000'' []) addr \<and>
    receives_frame_after_heartbeats (connecting_to W B N net serving ''250,0'' ([LF, LF, LF] @ reply_message))
      (\<lambda>conn. fr_next N (decode W B (wiring_codec (ct_transport conn)))) addr \<and>
    detects_silent_server (connecting_to W B N net serving ''250,0'' []) idle E pump v addr \<and>
    detects_silent_server_while_beating (connecting_to W B N net serving ''250,250'' []) idle E pump v addr \<and>
    messages_pass_through_the_pump_in_order (connecting_to W B N net serving ''0,0'' [])
      (\<lambda>conn m. fr_send N (encode_message B m)) sent addr \<and>
    manual_heartbeat_opt_out (connecting_to W B N net serving ''250,250'' [])
      (\<lambda>conn. fr_send N (encode_heartbeat B)) sent pumps addr \<and>
    manual_opt_out_does_not_supervise_the_server (connecting_to W B N net serving ''250,0'' []) idle E pump v addr \<and>
    plain_connection_still_batches (connecting_to W B N net serving ''0,0'' []) sent F D pump written f addr"
proof -
  have "heartbeat_setting W B N sent pumps healthy unread inbox net addr serving"
    using assms(1-3) by (intro heartbeat_setting.intro heartbeat_setting_axioms.intro)
  note tests = heartbeat_setting.idle_passes [OF this assms(4-7)]
    heartbeat_setting.declines_passes [OF this assms(4,5)] heartbeat_setting.negotiates_slower_passes [OF this]
    heartbeat_setting.after_heartbeats_passes [OF this] heartbeat_setting.detects_passes [OF this assms(8-12)]
    heartbeat_setting.in_order_passes [OF this] heartbeat_setting.manual_passes [OF this]
    heartbeat_setting.manual_unsupervised_passes [OF this assms(8)]
    heartbeat_setting.batches_passes [OF this assms(13,14)]
  show ?thesis by (intro conjI) (rule tests)+
qed

section \<open>A closed instance\<close>

interpretation beat_sim: heartbeat_setting winnow_ref vec_bytes_mut sim_net sim_sent sim_pumps
  "\<lambda>w. \<not> sim_closed w" "\<lambda>w. vb_data (sim_buf w)" sim_in local_net addr
  "\<lambda>hb rest. sim_of [handshake_reply hb @ rest]" for addr
  by unfold_locales (simp add: answers_def local_net_def sim_of_def)

text \<open>An idle task on the simulated clock, with a writer that never fails.\<close>

definition clocked_steady :: "(chan_sim \<times> nat, vec_buf) framed_writer" where
  "clocked_steady =
    \<lparr>fw_send = (\<lambda>enc (v, t). case fw_send steady_writer enc v of (v, r) \<Rightarrow> ((v, Suc t), r)),
     fw_close = clocked (fw_close steady_writer)\<rparr>"

definition clocked_wait :: "duration option \<Rightarrow> chan_sim \<times> nat \<Rightarrow> ((chan_sim \<times> nat) \<times> nat pump_event) option" where
  "clocked_wait interval u = map_option (\<lambda>d. ((fst u, snd u + as_nanos d), Elapsed)) interval"

interpretation idling: quiet_caller vec_bytes_mut clocked_steady clocked_wait snd "\<lambda>u. cs_sent (fst u)" "\<lambda>_. True" 0 1
proof (unfold_locales, goal_cases)
  case (3 u enc)
  obtain x b where e: "enc (vec_of []) = (x, b)" by (cases "enc (vec_of [])")
  with 3 have "x = Inr ()" by (metis fst_conv)
  with e show ?case
    by (cases u) (auto simp: clocked_steady_def steady_writer_def intro!: exI [of _ "vec_of []"])
qed (simp_all add: clocked_wait_def)

text \<open>A sink that is ready whenever its buffer has room: what is queued, and what was written.\<close>

definition buffer_endpoint :: "(bytes \<times> bytes) endpoint" where
  "buffer_endpoint = \<lparr>ep_poll_next = (\<lambda>w. (w, Pending)), ep_last_read = (\<lambda>_. 0),
     ep_poll_ready = (\<lambda>(q, s). if length q < 8192 then ((q, s), Ready (Inr ())) else (([], s @ q), Ready (Inr ()))),
     ep_start_send = (\<lambda>m (q, s). ((q @ wire (message_to_frame m), s), Inr ())),
     ep_poll_flush = (\<lambda>(q, s). (([], s @ q), Ready (Inr ()))), ep_poll_close = (\<lambda>w. (w, Ready (Inr ()))),
     ep_send_heartbeat = (\<lambda>(q, s). (([], s @ q @ [LF]), Inr ())), ep_reader_next = (\<lambda>w. (w, Pending)),
     ep_reader_last_read = (\<lambda>_. 0), ep_now = (\<lambda>_. 0), ep_poll_tick = (\<lambda>w. (w, False))\<rparr>"

interpretation buffering: framed_sink buffer_endpoint fst snd
  by unfold_locales (auto simp: buffer_endpoint_def)

theorem heartbeat_tests_pass_witness:
  "sends_heartbeats_when_idle vec_bytes_mut clocked_channels clocked_steady clocked_wait snd
      (\<lambda>u. cs_sent (fst u)) 5 (chan_sim_init, 0)
      (connecting_to winnow_ref vec_bytes_mut sim_net local_net (\<lambda>hb rest. sim_of [handshake_reply hb @ rest])
        ''250,250'' []) sim_sent sim_pumps ''127.0.0.1:0'' \<and>
    detects_silent_server (connecting_to winnow_ref vec_bytes_mut sim_net local_net
      (\<lambda>hb rest. sim_of [handshake_reply hb @ rest]) ''250,0'' [])
      tick_idle (tick_endpoint (Suc (millis 250 - 1))) idle_pump \<lparr>ts_now = 8, ts_deadline = 3, ts_last_read = 2\<rparr>
      ''127.0.0.1:0''"
proof -
  let ?v = "\<lparr>ts_now = 8, ts_deadline = 3, ts_last_read = 2\<rparr>"
  have period: "Suc (millis 250 - 1) = millis 250" by (simp add: millis_def)
  show ?thesis
    using heartbeat_tests_pass [OF wref.winnow_lib_axioms sim.framing_lib_axioms beat_sim.answering
        idling.quiet_caller_axioms _ _ _ silence.silent_server_axioms [of "millis 250 - 1", unfolded period] _ _ _ _
        buffering.framed_sink_axioms, where n = 5 and u = "(chan_sim_init, 0)" and v = ?v and f = "([], [])"
        and C = clocked_channels and addr = "''127.0.0.1:0''" and pump = idle_pump]
    unfolding period by (simp add: millis_def tick_endpoint_def)
qed

end
