(* ===== verification/Split_Session.thy ===== *)
theory Split_Session
  imports Pump_Session Disconnect
begin

text \<open>
  A session over a split socket, as a beating connection has it: the read half belongs to
  the caller, the write half to \<open>write_pump\<close>. The world has both; \<open>disconnect\<close> sends
  through the pump and reads from the other half.
\<close>

section \<open>The two halves\<close>

definition reader_io :: "('r, 'a) io \<Rightarrow> ('r \<times> 'v, 'a) io" where
  "reader_io p s = (case s of (r, v) \<Rightarrow> (case p r of (r, x) \<Rightarrow> ((r, v), x)))"

text \<open>
  \<open>send\<close> on a pumped transport, the task scheduled; it returns whenever the connection is
  idle (\<open>pump_send_reports\<close>, \<open>pump_send_after_close\<close>).
\<close>

definition pumped_send :: "'b bytes_mut \<Rightarrow> ('w, 'k) channels \<Rightarrow> ('w, 'b) framed_writer \<Rightarrow> duration option \<Rightarrow>
    to_server message \<Rightarrow> ('r \<times> 'k pump \<times> 'w, unit) io" where
  "pumped_send B C X interval m s =
    (case s of (r, p, w) \<Rightarrow>
       (case pump_send (task_run B C X interval) C (Message m) p w of
          Some (p, w, y) \<Rightarrow> ((r, p, w), y)
        | None \<Rightarrow> (s, Inl Connection_Closed)))"

lemma reader_source:
  fixes src :: "('r, from_server message option) io"
  assumes "message_source src holds"
  shows "message_source (reader_io src) (\<lambda>s. holds (fst s))"
proof
  fix s :: "'r \<times> 'v" and m ms
  assume "holds (fst s) (m # ms)"
  then show "\<exists>s' ex. reader_io src s = (s', Inr (Some \<lparr>content = m, extra_headers = ex\<rparr>)) \<and> holds (fst s') ms"
    using message_source.next_message [OF assms] by (cases s) (fastforce simp: reader_io_def)
next
  fix s :: "'r \<times> 'v"
  assume "holds (fst s) []"
  then show "\<exists>s'. reader_io src s = (s', Inr None)"
    using message_source.next_end [OF assms] by (cases s) (fastforce simp: reader_io_def)
qed

lemma reader_keeps: "reader_io src s = (s', y) \<Longrightarrow> snd s' = snd s"
  by (auto simp: reader_io_def split: prod.splits)

section \<open>Disconnecting through the pump\<close>

lemma split_disconnect:
  assumes "winnow_lib W" and "framing_lib B N sent pumps healthy unread inbox"
    and "holds_bytes limit healthy unread inbox v ms" and "pump_lib B C X view"
    and "pu_pending p = None" and "lk_queue (view w) = []" and "lk_tx (view w)" and "lk_rx (view w)"
  shows "\<exists>v' p' w' r. disconnect (pumped_send B C X interval)
      (reader_io (fr_next N (decode W B (with_max_frame_size limit)))) close receipt (v, p, w) =
      Some (case r of
              Inl e \<Rightarrow> ((v', p', w'), Inl e)
            | Inr u \<Rightarrow>
                (case verdict receipt ms of Inr u \<Rightarrow> close (v', p', w') | Inl e \<Rightarrow> ((v', p', w'), Inl e))) \<and>
    pu_pending p' = None \<and>
    (if r = Inr ()
     then lk_sent (view w') = lk_sent (view w) @ wire (frame_new ''DISCONNECT'' [(''receipt'', Some receipt)] None)
     else lk_shut (view w')) \<and>
    ((\<forall>it u. snd (fw_send X (encode_outgoing B it) u) = Inr ()) \<longrightarrow> r = Inr ())"
proof -
  let ?m = "message_from (Disconnect (Some receipt))"
  let ?next = "fr_next N (decode W B (with_max_frame_size limit))"
  obtain p1 w1 r w0 where s: "pump_send (task_run B C X interval) C (Message ?m) p w = Some (p1, w1, r)"
    "r = snd (fw_send X (encode_outgoing B (Message ?m)) w0)" "pu_pending p1 = None"
    "if r = Inr () then lk_sent (view w1) = lk_sent (view w) @ wire_item (Message ?m) else lk_shut (view w1)"
    using pump_lib.send_open [OF assms(4-8), of interval "Message ?m"] by blast
  have w: "(\<forall>it u. snd (fw_send X (encode_outgoing B it) u) = Inr ()) \<longrightarrow> r = Inr ()" using s(2) by blast
  have f: "wire_item (Message ?m) = wire (frame_new ''DISCONNECT'' [(''receipt'', Some receipt)] None)"
    by (simp add: message_to_frame_def add_extra_headers_def)
  have src: "message_source (reader_io ?next) (\<lambda>s. holds_bytes limit healthy unread inbox (fst s))"
    by (rule reader_source [OF holds_bytes_source [OF assms(1,2)]])
  have h: "holds_bytes limit healthy unread inbox (fst (v, p1, w1)) ms" using assms(3) by simp
  obtain t where t: "snd t = (p1, w1)" "disconnect_loop (reader_io ?next) close receipt (v, p1, w1) =
      Some (case verdict receipt ms of Inr u \<Rightarrow> close t | Inl e \<Rightarrow> (t, Inl e))"
    using message_source.loop_verdict [OF src, where g = snd, OF _ h, of receipt close] reader_keeps by force
  show ?thesis
  proof (cases r)
    case (Inl e)
    then have "disconnect (pumped_send B C X interval) (reader_io ?next) close receipt (v, p, w) =
        Some ((v, p1, w1), Inl e)"
      by (simp add: disconnect_def pumped_send_def s(1))
    with s(3,4) w Inl show ?thesis
      by (intro exI [of _ v] exI [of _ p1] exI [of _ w1] exI [of _ r]) simp
  next
    case (Inr u)
    obtain v' where v': "t = (v', p1, w1)" using t(1) by (cases t) simp
    have "disconnect (pumped_send B C X interval) (reader_io ?next) close receipt (v, p, w) =
        disconnect_loop (reader_io ?next) close receipt (v, p1, w1)"
      by (simp add: disconnect_def pumped_send_def s(1) Inr)
    with s(3,4) Inr t(2) [unfolded v'] f show ?thesis
      by (intro exI [of _ v'] exI [of _ p1] exI [of _ w1] exI [of _ r]) simp
  qed
qed

end
