(* ===== verification/Spec2Isabelle.thy ===== *)
theory Spec2Isabelle
  imports Codec_Properties Message_Properties Connection_Properties Transport_Properties
    Network_Tests Pump_Session Pump_Refinement Supervised_Peer Example_Runs Heartbeat_Runs Split_Session Session_Delivery
begin

text \<open>
  A model of \<open>async-stomp\<close>, a STOMP 1.2 client library in Rust, and what makes it correct.

  The program. \<open>src/frame.rs\<close> turns messages into frames and frames into bytes, and back.
  \<open>src/lib.rs\<close> has the public message types. \<open>src/client.rs\<close> has the codec that finds
  frames in a stream, the connection: \<open>Connector\<close> opens a socket and performs the
  handshake, \<open>ClientTransport\<close> is a sink of client messages and a stream of server
  messages, a connection that beats on its own hands its write half to a task
  (\<open>write_pump\<close>) that it talks to through \<open>Pump\<close>, and \<open>disconnect\<close> ends the session.

  Conventions. A byte is a \<open>char\<close>, a byte string and a Rust string are byte lists, the
  strings with the side condition \<open>utf8_valid\<close> where the type \<open>String\<close> guarantees it. A
  \<open>u32\<close> is a 32-bit word, a \<open>usize\<close> length a natural number, a \<open>Duration\<close> or \<open>Instant\<close> a number of
  nanoseconds. \<open>Result\<close> is a sum with the errors of \<open>stomp_error\<close>, one constructor per
  place that fails; an operation that can panic returns an option. Asynchronous code is
  state passing over a world: an awaited function is a value of the type \<open>io\<close>, a poll
  function returns a \<open>poll\<close>, and awaiting a poll function (\<open>await\<close>) is
  \<open>partial_function (option)\<close>, so that a future that never completes is \<open>None\<close>.

  The theories, in the order of the code.
  \<^item> \<open>Stomp_Prelude\<close>: bytes, errors, the operations on results, list lemmas.
  \<^item> \<open>Rust_Std\<close>: the standard library the source uses: UTF-8 validity, parsing and
    printing of \<open>u32\<close>, \<open>splitn\<close>, durations.
  \<^item> \<open>Winnow\<close>: the parser combinator crate as a record of operations with the laws its
    documentation gives (locale \<open>winnow_lib\<close>), and a reference instance.
  \<^item> \<open>Bytes_Mut\<close>: the buffer crate likewise (locale \<open>bytes_mut_lib\<close>).
  \<^item> \<open>Stomp_Message\<close>: \<open>Message\<close>, \<open>FromServer\<close>, \<open>ToServer\<close>, \<open>AckMode\<close>.
  \<^item> \<open>Frame\<close>: \<open>Frame\<close>, \<open>Frame::new\<close>, \<open>add_extra_headers\<close>, \<open>ToServer::to_frame\<close>, escaping,
    \<open>serialize\<close>. \<open>wire\<close> is the byte string that serialization appends.
  \<^item> \<open>Frame_Parse\<close>: \<open>parse_header\<close> and \<open>parse_frame\<close>, combinator by combinator; that every
    lawful library parses as \<open>frame_parser\<close> does; that a parse consumes input, that more
    input never changes an answer already given, and that parsing inverts \<open>wire\<close>.
  \<^item> \<open>Frame_Msg\<close>: the header lookups, \<open>to_client_msg\<close>, \<open>to_server_msg\<close>, \<open>parse_heartbeat\<close>.
  \<^item> \<open>Client_Roundtrip\<close>: which client messages, with which extra headers, the wire can
    carry (\<open>sendable\<close>, \<open>extra_ok\<close>) and how they are read back (\<open>received_message\<close>).
  \<^item> \<open>Stream_Reader\<close>: the reading loop around a decoder, and the locale \<open>stream_decoder\<close>:
    what a decoder must promise for the outcome not to depend on the reads.
  \<^item> \<open>Codec\<close>: \<open>ClientCodec\<close>, its decoder and encoders. \<open>frame_decoder\<close> is the specification
    that the decoder refines, an instance of \<open>stream_decoder\<close>.
  \<^item> \<open>Handshake\<close>: \<open>negotiate\<close>, \<open>accept_connected\<close>, \<open>establish\<close>, over the framing adapters of
    \<open>tokio_util\<close> (locale \<open>framing_lib\<close>). \<open>Sim_Net\<close> is an executable instance.
  \<^item> \<open>Builders\<close>: \<open>Connector\<close> with \<open>connect\<close>, \<open>Subscriber\<close>, the creation of \<open>ClientTransport\<close>.
  \<^item> \<open>Channels\<close>: polling, the channels of \<open>futures\<close> and the framed writer (locale
    \<open>pump_lib\<close>). \<open>Sim_Channels\<close> is an executable instance.
  \<^item> \<open>Write_Pump\<close>: \<open>Pump\<close>, \<open>write_pump\<close>, and their interleaving \<open>pump_step\<close> with the invariant
    \<open>pump_inv\<close> of everything that can be reached.
  \<^item> \<open>Transport\<close>: \<open>TransportStream\<close>, \<open>Monitored\<close>, the stream and sink of \<open>ClientTransport\<close>,
    the supervision of the server (locale \<open>ticker_lib\<close>).
  \<^item> \<open>Disconnect\<close>: \<open>disconnect\<close>, over any source of messages (locale \<open>message_source\<close>),
    and the framed socket as such a source.
  \<^item> \<open>Pump_Session\<close>: a caller that sends one item after the other, over the pump and
    directly, and that the two wirings agree. \<open>Keep_Alive\<close>: the rounds of \<open>write_pump\<close> on a
    clock (locale \<open>pump_clock\<close>), for how far apart two transmissions are.
    \<open>Supervised_Peer\<close>: such a task watched by the stream at the other end.
    \<open>Silent_Server\<close>: awaiting the stream of a server that has gone silent, and when that
    ends, over the runtime that wakes the caller (locale \<open>silent_server\<close>).
  \<^item> \<open>Split_Session\<close>: \<open>disconnect\<close> over a split socket, sending through the pump.
  \<^item> \<open>Rust_Text\<close>: lossy decoding and text search, which only tests and printing use.
  \<^item> \<open>Frame_Tests\<close>, \<open>Client_Tests\<close> and \<open>Network_Tests\<close>: the unit tests of \<open>src/frame.rs\<close> and
    \<open>src/client.rs\<close>, each a predicate over the libraries (locale \<open>test_libs\<close>), and that
    they pass; in \<open>Network_Tests\<close> those that talk to a server over a socket.
  \<^item> \<open>Heartbeat_Tests\<close>: the integration tests of \<open>tests/heartbeat.rs\<close> against a server of
    their own. \<open>Heartbeat_Runs\<close>: that they pass (locale \<open>heartbeat_setting\<close>), over an idle
    task on a clock (locale \<open>quiet_caller\<close>) and a sink that buffers (locale \<open>framed_sink\<close>).
  \<^item> \<open>Pump_Refinement\<close>: the write pump as a mailbox for one item, and the refinement mapping
    from the two ends to it.
  \<^item> \<open>Session_Delivery\<close>: a whole session, handshake, sends and \<open>disconnect\<close>, over either wiring,
    joined with a server that reads what was written.
  \<^item> \<open>Printing\<close>: \<open>pretty_bytes\<close> and the hand-written \<open>Debug\<close> implementations. \<open>Examples\<close>: the
    programs of \<open>src/examples\<close> that await one thing after the other, over the crate's
    interface (\<open>app\<close>), and the crate's own model below it (\<open>direct_app\<close>).
  \<^item> \<open>Tasks\<close>: futures as trees of what they await, polled over a record of poll functions
    (\<open>runtime\<close>); \<open>select\<close> as a parameter with its law (locale \<open>select_lib\<close>); that \<open>select\<close>
    interleaves. \<open>Example_Tasks\<close>: the programs \<open>connect\<close> and \<open>ping_pong\<close>, and what each
    of their futures does alone. \<open>Example_Runs\<close>: what the programs do, and that \<open>connect\<close>
    ends where time passes (locale \<open>timely_runtime\<close>).
  \<^item> \<open>Codec_Properties\<close>, \<open>Message_Properties\<close>, \<open>Connection_Properties\<close>, \<open>Pump_Properties\<close>,
    \<open>Transport_Properties\<close> and this theory state the properties, each followed by a closed
    instance where it has hypotheses.

  What the properties show. The wire format: a frame, a client message, a whole client
  session and a whole server session survive serialization, any cutting into reads, and
  parsing; header values cannot break out of their line; the decoder never panics, makes
  progress, bounds what it buffers and yields valid strings. The handshake: which answers
  are accepted, what has been written and which task runs afterwards, that a conforming
  server is always accepted, and that nothing it sends next is lost. The write pump: no
  result is lost or misattributed, the order of the wire is the order of sending,
  heart-beats fill silence only, closing loses nothing, the task ends, a sequence of
  sends reports the same over either wiring, and consecutive transmissions are close
  enough for a peer that supervises as this crate does, which then never declares it dead, while a
  server that has gone silent is found out within three intervals. The unit tests of the
  crate, and the integration tests that bring their own server, pass with every lawful
  parser, buffer, framing, socket, clock and runtime; an example program prints exactly
  the messages that the server sent, and the two that poll futures in turn interleave what
  these do and end when they should. Whole sessions: what the client does from the
  handshake to \<open>disconnect\<close>, with its verdict on what the server sent, and that a server
  reads exactly what was sent. The pump is a mailbox for one item. Supervision: when
  exactly a quiet server fails the stream. Some properties state where the code falls
  short of its documentation or of the protocol: escaped header names, CONNECT headers
  with line ends, the size bound on complete frames, the TLS name.

  Bounds and fuel. No definition uses fuel. \<open>decode_loop\<close> and the parser's repetition stop when an
  item consumed nothing, which the laws exclude. A loop that need not end is \<open>partial_function (option)\<close>, and that it returns
  is proved where it does. Bodies and \<open>content-length\<close> are below
  \<open>2 ^ 32\<close>, as the source parses them. Streams are read up to \<open>max_frame_size\<close> unread
  bytes, the code's own bound.

  Not modelled: the \<open>Debug\<close> implementations that macros derive, wakers and pinning, memory
  exhaustion, a task aborted by the runtime, and those integration tests of \<open>tests\<close> that need
  a broker, observe how the operating system closes a socket
  (\<open>send_reports_write_failure\<close>, \<open>drop_closes_the_connection\<close>) or time the caller's own sends
  (\<open>no_heartbeats_while_sending\<close>).
\<close>

section \<open>Across the components\<close>

text \<open>
  A whole session over a direct connection. A client connects, then disconnects. If
  the server answers the CONNECT, sends any conforming messages and heart-beats and then
  ends the stream, then, however its bytes are cut into reads, the handshake succeeds with
  the negotiated intervals, \<open>disconnect\<close> returns, going on to close exactly when the
  matching RECEIPT came before any ERROR, and the client has written the CONNECT frame
  and the DISCONNECT frame and nothing else.
\<close>

theorem connect_then_disconnect:
  assumes "winnow_lib W" and "framing_lib B N sent pumps healthy unread inbox"
    and "healthy w" and "unread w = []"
    and "server_item_ok (es, Connected ''1.2'' s sv hb)" and "list_all server_item_ok ps" and "list_all is_eol trail"
    and "concat (inbox w) = server_item (es, Connected ''1.2'' s sv hb) @ concat (map server_item ps) @ trail"
    and "length (concat (inbox w)) \<le> limit"
    and "accept_connected (Some \<lparr>content = Connected ''1.2'' s sv hb, extra_headers = []\<rparr>) requested = Inr iv"
  shows "\<exists>w1 w2. establish W B N cmsg requested False limit w =
      (w1, Inr (Direct (with_max_frame_size limit), iv)) \<and>
    disconnect (\<lambda>m. fr_send N (encode_message B m))
      (fr_next N (decode W B (with_max_frame_size limit))) close receipt w1 =
      Some (case verdict receipt (map snd ps) of Inr u \<Rightarrow> close w2 | Inl e \<Rightarrow> (w2, Inl e)) \<and>
    (verdict receipt (map snd ps) = Inr () \<longleftrightarrow> answered receipt (map snd ps)) \<and>
    sent w2 = sent w @ wire (message_to_frame cmsg) @
      wire (frame_new ''DISCONNECT'' [(''receipt'', Some receipt)] None)"
proof -
  obtain w1 where w1: "establish W B N cmsg requested False limit w =
      (w1, Inr (Direct (with_max_frame_size limit), iv))"
    "holds_bytes limit healthy unread inbox w1 (map snd ps)" "sent w1 = sent w @ wire (message_to_frame cmsg)"
    by (rule handshake_holds [OF assms, where beats = False]) simp
  from framing_disconnect [OF assms(1,2) w1(2), of close receipt] w1(1,3) show ?thesis
    by (auto simp: verdict_ok)
qed

lemma sample_item_length:
  "length (server_item ([LF], sample_connected) @ concat (map server_item [([], Receipt ''q'')]) @ [CR]) \<le> 100"
  by (simp add: wire_def wire_header_def List.map_filter_def headers_are_escaped_def escape_byte_def)

theorem connect_then_disconnect_witness:
  "\<exists>w1 (w2 :: sim). establish winnow_ref vec_bytes_mut sim_net (message_from (Begin ''q'')) (Some (5, 8)) False 100
      (sim_of [server_item ([LF], sample_connected) @ concat (map server_item [([], Receipt ''q'')]) @ [CR]]) =
      (w1, Inr (Direct (with_max_frame_size 100), Some (from_millis 9), Some (from_millis 8))) \<and>
    disconnect (\<lambda>m. fr_send sim_net (encode_message vec_bytes_mut m))
      (fr_next sim_net (decode winnow_ref vec_bytes_mut (with_max_frame_size 100)))
      (\<lambda>w. (w, Inr ())) ''q'' w1 = Some (w2, Inr ()) \<and>
    sim_sent w2 = wire (message_to_frame (message_from (Begin ''q''))) @
      wire (frame_new ''DISCONNECT'' [(''receipt'', Some ''q'')] None)"
proof -
  let ?in = "[server_item ([LF], sample_connected) @ concat (map server_item [([], Receipt ''q'')]) @ [CR]]"
  have ok: "server_item_ok ([LF], sample_connected)" "list_all server_item_ok [([], Receipt ''q'')]"
    "list_all is_eol [CR]"
    using sample_facts by (simp_all add: is_eol_def)
  have reads: "concat (sim_in (sim_of ?in)) =
      server_item ([LF], sample_connected) @ concat (map server_item [([], Receipt ''q'')]) @ [CR]"
    "length (concat (sim_in (sim_of ?in))) \<le> 100"
    using sample_item_length by simp_all
  have "\<exists>w1 w2. establish winnow_ref vec_bytes_mut sim_net (message_from (Begin ''q'')) (Some (5, 8)) False 100
      (sim_of ?in) = (w1, Inr (Direct (with_max_frame_size 100), Some (from_millis 9), Some (from_millis 8))) \<and>
    disconnect (\<lambda>m. fr_send sim_net (encode_message vec_bytes_mut m))
      (fr_next sim_net (decode winnow_ref vec_bytes_mut (with_max_frame_size 100)))
      (\<lambda>w. (w, Inr ())) ''q'' w1 =
      Some (case verdict ''q'' (map snd [([] :: bytes, Receipt ''q'')]) of
        Inr u \<Rightarrow> (\<lambda>w. (w, Inr ())) w2 | Inl e \<Rightarrow> (w2, Inl e)) \<and>
    (verdict ''q'' (map snd [([] :: bytes, Receipt ''q'')]) = Inr () \<longleftrightarrow>
      answered ''q'' (map snd [([] :: bytes, Receipt ''q'')])) \<and>
    sim_sent w2 = sim_sent (sim_of ?in) @ wire (message_to_frame (message_from (Begin ''q''))) @
      wire (frame_new ''DISCONNECT'' [(''receipt'', Some ''q'')] None)"
    by (rule connect_then_disconnect [OF wref.winnow_lib_axioms sim.framing_lib_axioms,
          where es = "[LF]" and trail = "[CR]" and s = None and sv = None and hb = "Some ''7,9''"])
      (fact ok reads sample_accepted | simp)+
  then show ?thesis by (auto simp del: server_item_pair)
qed

text \<open>
  A whole session over a pumped connection. As before, but the connection beats on its
  own: the handshake ends with the socket split and the write pump started with the
  negotiated interval. From then on the world is the read half, still holding what the
  server sent next, and a fresh pump with its channel. Then \<open>disconnect\<close> sends the
  DISCONNECT frame through the pump, exactly, and if that was written it goes on to close
  exactly when the matching RECEIPT came before any ERROR; if it was not, it returns the
  error of the write.
\<close>

theorem pumped_connect_then_disconnect:
  assumes "winnow_lib W" and "framing_lib B N sent pumps healthy unread inbox"
    and "healthy w" and "unread w = []"
    and "server_item_ok (es, Connected ''1.2'' s sv hb)" and "list_all server_item_ok ps" and "list_all is_eol trail"
    and "concat (inbox w) = server_item (es, Connected ''1.2'' s sv hb) @ concat (map server_item ps) @ trail"
    and "length (concat (inbox w)) \<le> limit"
    and "accept_connected (Some \<lparr>content = Connected ''1.2'' s sv hb, extra_headers = []\<rparr>) requested = Inr iv"
    and "pump_lib B C X view" and "pu_pending p = None" and "lk_queue (view v) = []"
    and "lk_tx (view v)" and "lk_rx (view v)"
  shows "\<exists>w1 w2 p' v' r. establish W B N cmsg requested True limit w =
      (w1, Inr (Pumped (with_max_frame_size limit), iv)) \<and>
    sent w1 = sent w @ wire (message_to_frame cmsg) \<and> pumps w1 = pumps w @ [fst iv] \<and>
    disconnect (pumped_send B C X (fst iv))
      (reader_io (fr_next N (decode W B (with_max_frame_size limit)))) close receipt (w1, p, v) =
      Some (case r of
              Inl e \<Rightarrow> ((w2, p', v'), Inl e)
            | Inr u \<Rightarrow>
                (case verdict receipt (map snd ps) of
                   Inr u \<Rightarrow> close (w2, p', v') | Inl e \<Rightarrow> ((w2, p', v'), Inl e))) \<and>
    (verdict receipt (map snd ps) = Inr () \<longleftrightarrow> answered receipt (map snd ps)) \<and>
    (if r = Inr ()
     then lk_sent (view v') = lk_sent (view v) @ wire (frame_new ''DISCONNECT'' [(''receipt'', Some receipt)] None)
     else lk_shut (view v')) \<and>
    ((\<forall>it u. snd (fw_send X (encode_outgoing B it) u) = Inr ()) \<longrightarrow> r = Inr ())"
proof -
  obtain w1 where w1: "establish W B N cmsg requested True limit w =
      (w1, Inr (Pumped (with_max_frame_size limit), iv))"
    "holds_bytes limit healthy unread inbox w1 (map snd ps)"
    "sent w1 = sent w @ wire (message_to_frame cmsg)" "pumps w1 = pumps w @ [fst iv]"
    by (rule handshake_holds [OF assms(1-10), where beats = True]) simp
  from split_disconnect [OF assms(1,2) w1(2) assms(11-15), of "fst iv" close receipt] w1(1,3,4)
  show ?thesis unfolding verdict_ok by blast
qed

lemma sample_session:
  "concat (sim_in (sim_of [server_item ([LF], sample_connected) @ concat (map server_item [([], Receipt ''q'')]) @ [CR]])) =
    server_item ([LF], sample_connected) @ concat (map server_item [([], Receipt ''q'')]) @ [CR]"
  "server_item_ok ([LF], sample_connected)" "list_all server_item_ok [([], Receipt ''q'')]" "list_all is_eol [CR]"
  using sample_facts by (simp_all add: is_eol_def)

theorem pumped_connect_then_disconnect_witness:
  "\<exists>w1 (w2 :: sim) p' v'. establish winnow_ref vec_bytes_mut sim_net (message_from (Begin ''q'')) (Some (5, 8)) True 100
      (sim_of [server_item ([LF], sample_connected) @ concat (map server_item [([], Receipt ''q'')]) @ [CR]]) =
      (w1, Inr (Pumped (with_max_frame_size 100), Some (from_millis 9), Some (from_millis 8))) \<and>
    disconnect (pumped_send vec_bytes_mut sim_channels steady_writer (Some (from_millis 9)))
      (reader_io (fr_next sim_net (decode winnow_ref vec_bytes_mut (with_max_frame_size 100))))
      (\<lambda>s. (s, Inr ())) ''q'' (w1, \<lparr>pu_pending = None\<rparr>, chan_sim_init) = Some ((w2, p', v'), Inr ()) \<and>
    lk_sent (cs_view v') = lk_sent (cs_view chan_sim_init) @
      wire (frame_new ''DISCONNECT'' [(''receipt'', Some ''q'')] None)"
proof -
  let ?w = "sim_of [server_item ([LF], sample_connected) @ concat (map server_item [([], Receipt ''q'')]) @ [CR]]"
  let ?ms = "map snd [([] :: bytes, Receipt ''q'')]"
  let ?next = "reader_io (fr_next sim_net (decode winnow_ref vec_bytes_mut (with_max_frame_size 100)))"
  have len: "length (concat (sim_in ?w)) \<le> 100"
    unfolding sample_session(1) by (rule sample_item_length)
  have idle: "pu_pending \<lparr>pu_pending = None\<rparr> = None" by simp
  have run: "\<exists>w1 w2 p' v' r. establish winnow_ref vec_bytes_mut sim_net (message_from (Begin ''q'')) (Some (5, 8)) True 100 ?w =
      (w1, Inr (Pumped (with_max_frame_size 100), Some (from_millis 9), Some (from_millis 8))) \<and>
    sim_sent w1 = sim_sent ?w @ wire (message_to_frame (message_from (Begin ''q''))) \<and>
    sim_pumps w1 = sim_pumps ?w @ [fst (Some (from_millis 9), Some (from_millis 8))] \<and>
    disconnect (pumped_send vec_bytes_mut sim_channels steady_writer (fst (Some (from_millis 9), Some (from_millis 8))))
      ?next (\<lambda>s. (s, Inr ())) ''q'' (w1, \<lparr>pu_pending = None\<rparr>, chan_sim_init) =
      Some (case r of
              Inl e \<Rightarrow> ((w2, p', v'), Inl e)
            | Inr u \<Rightarrow>
                (case verdict ''q'' ?ms of
                   Inr u \<Rightarrow> (\<lambda>s. (s, Inr ())) (w2, p', v') | Inl e \<Rightarrow> ((w2, p', v'), Inl e))) \<and>
    (verdict ''q'' ?ms = Inr () \<longleftrightarrow> answered ''q'' ?ms) \<and>
    (if r = Inr ()
     then lk_sent (cs_view v') = lk_sent (cs_view chan_sim_init) @ wire (frame_new ''DISCONNECT'' [(''receipt'', Some ''q'')] None)
     else lk_shut (cs_view v')) \<and>
    ((\<forall>it u. snd (fw_send steady_writer (encode_outgoing vec_bytes_mut it) u) = Inr ()) \<longrightarrow> r = Inr ())"
    by (rule pumped_connect_then_disconnect [OF wref.winnow_lib_axioms sim.framing_lib_axioms,
          where es = "[LF]" and trail = "[CR]" and s = None and sv = None and hb = "Some ''7,9''"
            and view = cs_view])
      (fact sample_session len sample_accepted steady.pump_lib_axioms idle sim_open | simp)+
  have "verdict ''q'' ?ms = Inr ()" by simp
  with run steady_writes obtain w1 w2 p' v' where
    "establish winnow_ref vec_bytes_mut sim_net (message_from (Begin ''q'')) (Some (5, 8)) True 100 ?w =
      (w1, Inr (Pumped (with_max_frame_size 100), Some (from_millis 9), Some (from_millis 8)))"
    "disconnect (pumped_send vec_bytes_mut sim_channels steady_writer (Some (from_millis 9)))
      ?next (\<lambda>s. (s, Inr ())) ''q'' (w1, \<lparr>pu_pending = None\<rparr>, chan_sim_init) = Some ((w2, p', v'), Inr ())"
    "lk_sent (cs_view v') = lk_sent (cs_view chan_sim_init) @ wire (frame_new ''DISCONNECT'' [(''receipt'', Some ''q'')] None)"
    by auto
  then show ?thesis by blast
qed

end
